(* ===== verification/Seagull_Prelude.thy ===== *)
theory Seagull_Prelude
  imports Main "HOL-Library.Multiset" "HOL-Library.Char_ord" "HOL-Library.List_Lexorder" "HOL-Library.Sublist"
begin

text \<open>
  What every theory of the development shares: the Python values and string operations the
  backend uses, results with an exception as a value, and the lemma collections.

  Strings. A Python string is a \<open>string\<close> whose characters are the code points 0 to 255
  (Latin-1), so \<open>length\<close> counts code points as Python does. Code points above 255 are outside
  the model. \<open>py_isspace\<close>, \<open>py_lower\<close> and the like follow \<open>str.isspace\<close>, \<open>str.lower\<close> on
  that range, the non-ASCII letters and blanks included.

  Exceptions. Code that raises returns \<open>'e + 'a\<close>, with \<open>Inl\<close> for the exception. Where the
  recursion of the source has no structural measure, the model takes fuel and returns an
  \<open>outcome\<close>: \<open>Diverge\<close> when the fuel is used up, otherwise the exception or the value. Each such
  definition comes with a lemma that says how much fuel is enough.
\<close>

section \<open>Lemma collections\<close>

named_theorems py_defs \<open>definitions of the Python operations, for evaluation\<close>
named_theorems bind_simps \<open>inversion of monadic binds that returned a value\<close>

section \<open>Results\<close>

definition ebind :: "'e + 'a \<Rightarrow> ('a \<Rightarrow> 'e + 'b) \<Rightarrow> 'e + 'b" where
  "ebind m f = (case m of Inl e \<Rightarrow> Inl e | Inr a \<Rightarrow> f a)"

lemma ebind_simps [simp]:
  "ebind (Inl e) f = Inl e"
  "ebind (Inr a) f = f a"
  by (simp_all add: ebind_def)

lemma ebind_eq_Inr [bind_simps]: "ebind m f = Inr b \<longleftrightarrow> (\<exists>a. m = Inr a \<and> f a = Inr b)"
  by (cases m) auto

lemma ebind_cong [fundef_cong]:
  "m = m' \<Longrightarrow> (\<And>a. m' = Inr a \<Longrightarrow> f a = g a) \<Longrightarrow> ebind m f = ebind m' g"
  by (cases m') auto

text \<open>A loop that collects results and stops at the first exception.\<close>

fun emap :: "('a \<Rightarrow> 'e + 'b) \<Rightarrow> 'a list \<Rightarrow> 'e + 'b list" where
  "emap f [] = Inr []"
| "emap f (x # xs) = ebind (f x) (\<lambda>y. ebind (emap f xs) (\<lambda>ys. Inr (y # ys)))"

lemma emap_cong [fundef_cong]:
  "xs = ys \<Longrightarrow> (\<And>x. x \<in> set ys \<Longrightarrow> f x = g x) \<Longrightarrow> emap f xs = emap g ys"
  by (induction xs arbitrary: ys) auto

lemma emap_length: "emap f xs = Inr ys \<Longrightarrow> length ys = length xs"
  by (induction xs arbitrary: ys) (auto simp: bind_simps)

lemma emap_Inr_iff:
  "emap f xs = Inr ys \<longleftrightarrow> list_all2 (\<lambda>x y. f x = Inr y) xs ys"
  by (induction xs arbitrary: ys) (auto simp: bind_simps list_all2_Cons1)

lemma list_all_memD: "list_all P xs \<Longrightarrow> x \<in> set xs \<Longrightarrow> P x"
  by (simp add: list_all_iff)

text \<open>A loop that threads a state and stops at the first exception.\<close>

fun efold :: "('s \<Rightarrow> 'a \<Rightarrow> 'e + 's) \<Rightarrow> 's \<Rightarrow> 'a list \<Rightarrow> 'e + 's" where
  "efold f s [] = Inr s"
| "efold f s (x # xs) = ebind (f s x) (\<lambda>s'. efold f s' xs)"

lemma efold_cong [fundef_cong]:
  "xs = ys \<Longrightarrow> s = t \<Longrightarrow> (\<And>u x. x \<in> set ys \<Longrightarrow> f u x = g u x) \<Longrightarrow> efold f s xs = efold g t ys"
  by (induction xs arbitrary: ys s t) (auto intro: ebind_cong)

lemma efold_invariant:
  "efold f s xs = Inr t \<Longrightarrow> P s \<Longrightarrow> (\<And>u x v. x \<in> set xs \<Longrightarrow> P u \<Longrightarrow> f u x = Inr v \<Longrightarrow> P v) \<Longrightarrow> P t"
  by (induction xs arbitrary: s) (auto simp: bind_simps)

datatype ('e, 'a) outcome = Diverge | Raise 'e | Return 'a

definition obind :: "('e, 'a) outcome \<Rightarrow> ('a \<Rightarrow> ('e, 'b) outcome) \<Rightarrow> ('e, 'b) outcome" where
  "obind m f = (case m of Diverge \<Rightarrow> Diverge | Raise e \<Rightarrow> Raise e | Return a \<Rightarrow> f a)"

lemma obind_simps [simp]:
  "obind Diverge f = Diverge"
  "obind (Raise e) f = Raise e"
  "obind (Return a) f = f a"
  by (simp_all add: obind_def)

lemma obind_eq_Return [bind_simps]:
  "obind m f = Return b \<longleftrightarrow> (\<exists>a. m = Return a \<and> f a = Return b)"
  by (cases m) auto

lemma obind_Diverge_iff:
  "obind m f = Diverge \<longleftrightarrow> m = Diverge \<or> (\<exists>a. m = Return a \<and> f a = Diverge)"
  by (cases m) auto

lemma obind_cong [fundef_cong]:
  "m = m' \<Longrightarrow> (\<And>a. m' = Return a \<Longrightarrow> f a = g a) \<Longrightarrow> obind m f = obind m' g"
  by (cases m') auto

fun of_sum :: "'e + 'a \<Rightarrow> ('e, 'a) outcome" where
  "of_sum (Inl e) = Raise e"
| "of_sum (Inr a) = Return a"

lemma of_sum_simps [simp]:
  "of_sum m \<noteq> Diverge"
  "of_sum m = Return a \<longleftrightarrow> m = Inr a"
  "of_sum m = Raise e \<longleftrightarrow> m = Inl e"
  by (cases m; simp)+

section \<open>Characters and strings\<close>

definition code_point :: "char \<Rightarrow> nat" where
  "code_point c = of_char c"

text \<open>A single quote, for the messages that quote a value.\<close>

definition sq :: string where
  "sq = [CHR 0x27]"

definition py_isspace :: "char \<Rightarrow> bool" where
  "py_isspace c = (code_point c \<in> {9, 10, 11, 12, 13, 28, 29, 30, 31, 32, 133, 160})"

definition is_ascii_digit :: "char \<Rightarrow> bool" where
  "is_ascii_digit c = (48 \<le> code_point c \<and> code_point c \<le> 57)"

definition is_ascii_alpha :: "char \<Rightarrow> bool" where
  "is_ascii_alpha c = (65 \<le> code_point c \<and> code_point c \<le> 90 \<or> 97 \<le> code_point c \<and> code_point c \<le> 122)"

definition lower_char :: "char \<Rightarrow> char" where
  "lower_char c = (let n = code_point c in
     if 65 \<le> n \<and> n \<le> 90 \<or> 192 \<le> n \<and> n \<le> 222 \<and> n \<noteq> 215 then char_of (n + 32) else c)"

definition py_lower :: "string \<Rightarrow> string" where
  "py_lower s = map lower_char s"

definition strip_if :: "(char \<Rightarrow> bool) \<Rightarrow> string \<Rightarrow> string" where
  "strip_if p s = rev (dropWhile p (rev (dropWhile p s)))"

definition py_strip :: "string \<Rightarrow> string" where
  "py_strip s = strip_if py_isspace s"

definition py_startswith :: "string \<Rightarrow> string \<Rightarrow> bool" where
  "py_startswith s p = (take (length p) s = p)"

definition py_startswith_at :: "string \<Rightarrow> string \<Rightarrow> nat \<Rightarrow> bool" where
  "py_startswith_at s p i = (take (length p) (drop i s) = p)"

definition py_replace_char :: "char \<Rightarrow> char \<Rightarrow> string \<Rightarrow> string" where
  "py_replace_char a b s = map (\<lambda>c. if c = a then b else c) s"

fun py_join :: "string \<Rightarrow> string list \<Rightarrow> string" where
  "py_join sep [] = []"
| "py_join sep [x] = x"
| "py_join sep (x # xs) = x @ sep @ py_join sep xs"

text \<open>\<open>s.split(c)\<close> for a one-character separator: always at least one part.\<close>

fun py_split :: "char \<Rightarrow> string \<Rightarrow> string list" where
  "py_split c [] = [[]]"
| "py_split c (x # xs) =
     (if x = c then [] # py_split c xs
      else (case py_split c xs of [] \<Rightarrow> [[x]] | p # ps \<Rightarrow> (x # p) # ps))"

lemmas [py_defs] = code_point_def py_isspace_def is_ascii_digit_def is_ascii_alpha_def
  lower_char_def py_lower_def strip_if_def py_strip_def py_startswith_def py_startswith_at_def
  py_replace_char_def

lemma py_lower_Nil_iff [simp]: "py_lower s = [] \<longleftrightarrow> s = []"
  by (simp add: py_lower_def)

lemma length_py_lower [simp]: "length (py_lower s) = length s"
  by (simp add: py_lower_def)

lemma lower_char_idem [simp]: "lower_char (lower_char c) = lower_char c"
proof -
  have lt: "(of_char c :: nat) < 256" by simp
  show ?thesis
    using lt by (auto simp: lower_char_def code_point_def Let_def)
qed

lemma py_lower_idem [simp]: "py_lower (py_lower s) = py_lower s"
  by (simp add: py_lower_def)

lemma strip_if_eq: "\<exists>u v. s = u @ strip_if p s @ v \<and> list_all p u \<and> list_all p v"
proof -
  let ?r = "rev (dropWhile p s)"
  have "s = takeWhile p s @ rev ?r" by simp
  moreover have "rev ?r = strip_if p s @ rev (takeWhile p ?r)"
    unfolding strip_if_def by (metis rev_append takeWhile_dropWhile_id)
  moreover have "list_all p (takeWhile p s)" "list_all p (rev (takeWhile p ?r))"
    by (auto simp: list_all_iff dest: set_takeWhileD)
  ultimately show ?thesis by metis
qed

lemma length_strip_if: "length (strip_if p s) \<le> length s"
  by (metis strip_if_eq[of s p] length_append le_add1 le_add2 le_trans)

lemma set_strip_if: "set (strip_if p s) \<subseteq> set s"
  by (metis strip_if_eq[of s p] Un_upper1 Un_upper2 set_append subset_trans)

lemma hd_strip_if: "strip_if p s \<noteq> [] \<Longrightarrow> \<not> p (hd (strip_if p s))"
proof -
  let ?d = "dropWhile p s"
  assume ne: "strip_if p s \<noteq> []"
  obtain v where v: "?d = strip_if p s @ v"
    unfolding strip_if_def by (metis rev_append rev_rev_ident takeWhile_dropWhile_id)
  with ne have "hd ?d = hd (strip_if p s)" and "?d \<noteq> []" by auto
  then show ?thesis by (metis hd_dropWhile)
qed

lemma last_strip_if: "strip_if p s \<noteq> [] \<Longrightarrow> \<not> p (last (strip_if p s))"
  unfolding strip_if_def by (simp add: last_rev hd_dropWhile)


lemma strip_if_no_ends:
  "xs = [] \<or> (\<not> p (hd xs) \<and> \<not> p (last xs)) \<Longrightarrow> strip_if p xs = xs"
proof (cases xs rule: rev_cases)
  case Nil
  then show ?thesis by (simp add: strip_if_def)
next
  case (snoc ys y)
  assume "xs = [] \<or> (\<not> p (hd xs) \<and> \<not> p (last xs))"
  with snoc have h: "\<not> p (hd xs)" "\<not> p y" by auto
  then have "dropWhile p xs = xs" using snoc by (simp add: dropWhile_eq_self_iff)
  with h snoc show ?thesis by (simp add: strip_if_def)
qed

lemma strip_if_idem [simp]: "strip_if p (strip_if p s) = strip_if p s"
  by (rule strip_if_no_ends) (auto dest: hd_strip_if last_strip_if)

lemma py_strip_idem [simp]: "py_strip (py_strip s) = py_strip s"
  by (simp add: py_strip_def)

section \<open>Numbers as text\<close>

text \<open>\<open>str(n)\<close> for an integer, and \<open>int(s)\<close> for a string.\<close>

fun nat_str :: "nat \<Rightarrow> string" where
  "nat_str n = (if n < 10 then [char_of (48 + n)] else nat_str (n div 10) @ [char_of (48 + n mod 10)])"

declare nat_str.simps [simp del]

definition int_str :: "int \<Rightarrow> string" where
  "int_str i = (if i < 0 then CHR ''-'' # nat_str (nat (- i)) else nat_str (nat i))"

definition digit_val :: "char \<Rightarrow> nat" where
  "digit_val c = code_point c - 48"

text \<open>
  The body of an integer literal: digits, with single underscores allowed between digits. The
  first argument says whether the character before was a digit.
\<close>

fun parse_digits :: "bool \<Rightarrow> nat \<Rightarrow> string \<Rightarrow> nat option" where
  "parse_digits after_digit acc [] = (if after_digit then Some acc else None)"
| "parse_digits after_digit acc (c # cs) =
     (if is_ascii_digit c then parse_digits True (acc * 10 + digit_val c) cs
      else if c = CHR ''_'' \<and> after_digit then parse_digits False acc cs
      else None)"

text \<open>
  \<open>int(s)\<close>: surrounding blanks, an optional sign, digits; \<open>None\<close> where Python raises
  \<open>ValueError\<close>, which includes more than 4300 digits.
\<close>

definition py_int :: "string \<Rightarrow> int option" where
  "py_int s = (let t = py_strip s;
                   neg = (t \<noteq> [] \<and> hd t = CHR ''-'');
                   body = (if t \<noteq> [] \<and> (hd t = CHR ''-'' \<or> hd t = CHR ''+'') then tl t else t)
               in if length (filter is_ascii_digit body) > 4300 then None
                  else map_option (\<lambda>n. if neg then - int n else int n) (parse_digits False 0 body))"

lemma nat_str_nonempty [simp]: "nat_str n \<noteq> []"
  by (subst nat_str.simps) simp

lemma is_ascii_digit_char_of: "(d::nat) < 10 \<Longrightarrow> is_ascii_digit (char_of (48 + d))"
  by (simp add: is_ascii_digit_def code_point_def)

lemma nat_str_digits: "\<forall>c \<in> set (nat_str n). is_ascii_digit c"
proof (induction n rule: nat_str.induct)
  case (1 n)
  show ?case
  proof (cases "n < 10")
    case True
    then show ?thesis by (subst nat_str.simps) (simp add: is_ascii_digit_char_of)
  next
    case False
    then show ?thesis
      using "1.IH" by (subst nat_str.simps) (auto simp: is_ascii_digit_char_of)
  qed
qed

lemma parse_digits_append:
  "list_all is_ascii_digit xs \<Longrightarrow> xs \<noteq> [] \<Longrightarrow>
   parse_digits b acc (xs @ ys) = parse_digits True (foldl (\<lambda>a c. a * 10 + digit_val c) acc xs) ys"
proof (induction xs arbitrary: b acc)
  case Nil
  then show ?case by simp
next
  case (Cons x xs)
  show ?case
  proof (cases "xs = []")
    case True
    with Cons.prems show ?thesis by simp
  next
    case False
    with Cons show ?thesis by simp
  qed
qed

lemma foldl_nat_str: "foldl (\<lambda>a c. a * 10 + digit_val c) 0 (nat_str n) = n"
proof (induction n rule: nat_str.induct)
  case (1 n)
  show ?case
  proof (cases "n < 10")
    case True
    then show ?thesis by (subst nat_str.simps) (simp add: digit_val_def code_point_def)
  next
    case False
    then show ?thesis
      using "1.IH" by (subst nat_str.simps) (simp add: digit_val_def code_point_def)
  qed
qed

lemma parse_digits_nat_str: "parse_digits False 0 (nat_str n) = Some n"
  using parse_digits_append[of "nat_str n" False 0 "[]"] foldl_nat_str[of n] nat_str_digits[of n]
  by (simp add: list_all_iff)

lemma digit_not_space: "is_ascii_digit c \<Longrightarrow> \<not> py_isspace c"
  by (auto simp: is_ascii_digit_def py_isspace_def)

section \<open>Python data\<close>

text \<open>
  The JSON-like values the backend passes around untyped. \<open>PTime\<close> is a datetime in UTC, in
  microseconds since 1970-01-01. Floats are not in this type: where a component computes with
  floats the theory of the component says how they are treated.
\<close>

datatype pyval =
    PNone
  | PBool bool
  | PInt int
  | PStr string
  | PTime int
  | PList "pyval list"
  | PDict "(string \<times> pyval) list"

text \<open>\<open>bool(v)\<close>.\<close>

fun truthy :: "pyval \<Rightarrow> bool" where
  "truthy PNone = False"
| "truthy (PBool b) = b"
| "truthy (PInt i) = (i \<noteq> 0)"
| "truthy (PStr s) = (s \<noteq> [])"
| "truthy (PTime t) = True"
| "truthy (PList xs) = (xs \<noteq> [])"
| "truthy (PDict kvs) = (kvs \<noteq> [])"

text \<open>Dictionaries as association lists in insertion order: lookup, store, \<open>setdefault\<close>.\<close>

definition dict_get :: "('k \<times> 'v) list \<Rightarrow> 'k \<Rightarrow> 'v option" where
  "dict_get d k = map_of d k"

fun dict_set :: "('k \<times> 'v) list \<Rightarrow> 'k \<Rightarrow> 'v \<Rightarrow> ('k \<times> 'v) list" where
  "dict_set [] k v = [(k, v)]"
| "dict_set ((k', v') # d) k v = (if k' = k then (k, v) # d else (k', v') # dict_set d k v)"

definition dict_setdefault :: "('k \<times> 'v) list \<Rightarrow> 'k \<Rightarrow> 'v \<Rightarrow> ('k \<times> 'v) list" where
  "dict_setdefault d k v = (case dict_get d k of None \<Rightarrow> dict_set d k v | Some _ \<Rightarrow> d)"

text \<open>\<open>d.setdefault(k, []).append(x)\<close>.\<close>

definition dict_push :: "('k \<times> 'v list) list \<Rightarrow> 'k \<Rightarrow> 'v \<Rightarrow> ('k \<times> 'v list) list" where
  "dict_push d k x = dict_set d k ((case dict_get d k of None \<Rightarrow> [] | Some xs \<Rightarrow> xs) @ [x])"

lemma dict_get_Nil [simp]: "dict_get [] k = None"
  by (simp add: dict_get_def)

lemma dict_get_set [simp]: "dict_get (dict_set d k v) k' = (if k' = k then Some v else dict_get d k')"
  by (induction d) (auto simp: dict_get_def)

lemma keys_dict_set: "fst ` set (dict_set d k v) = insert k (fst ` set d)"
  by (induction d k v rule: dict_set.induct) (simp_all add: insert_commute)

lemma distinct_dict_set: "distinct (map fst d) \<Longrightarrow> distinct (map fst (dict_set d k v))"
proof (induction d)
  case Nil
  then show ?case by simp
next
  case (Cons a d)
  then show ?case using keys_dict_set[of d k v] by (cases a) auto
qed

lemma dict_get_None_iff: "dict_get d k = None \<longleftrightarrow> k \<notin> fst ` set d"
  by (simp add: dict_get_def map_of_eq_None_iff)

lemma dict_get_SomeD: "dict_get d k = Some v \<Longrightarrow> (k, v) \<in> set d"
  by (simp add: dict_get_def map_of_SomeD)

lemma dict_get_push:
  "dict_get (dict_push d k x) k' =
     (if k' = k then Some ((case dict_get d k of None \<Rightarrow> [] | Some xs \<Rightarrow> xs) @ [x]) else dict_get d k')"
  by (simp add: dict_push_def)

text \<open>Grouping a list by a key: the groups are the sublists of equal key, in order, none empty.\<close>

lemma group_fold_get:
  "dict_get (foldl (\<lambda>g r. dict_push g (f r) r) [] rows) k =
     (let rs = filter (\<lambda>r. f r = k) rows in if rs = [] then None else Some rs)"
  by (induction rows rule: rev_induct) (auto simp: dict_get_push Let_def)

lemma group_fold_distinct: "distinct (map fst (foldl (\<lambda>g r. dict_push g (f r) r) [] rows))"
  by (induction rows rule: rev_induct) (auto simp: dict_push_def distinct_dict_set)

lemma dict_get_iff_mem: "distinct (map fst d) \<Longrightarrow> dict_get d k = Some v \<longleftrightarrow> (k, v) \<in> set d"
  by (simp add: dict_get_def)

lemma group_fold_mem:
  "(k, rs) \<in> set (foldl (\<lambda>g r. dict_push g (f r) r) [] rows) \<longleftrightarrow>
     rs = filter (\<lambda>r. f r = k) rows \<and> rs \<noteq> []"
  using dict_get_iff_mem[OF group_fold_distinct, of f rows k rs] group_fold_get[of f rows k]
  by (auto simp: Let_def split: if_splits)

end
