(* ===== verification/Kql.thy ===== *)
theory Kql
  imports Seagull_Prelude
begin

text \<open>
  The KQL hunt dialect, \<open>features/events/domain/kql.py\<close>: tokenizer, recursive descent parser and
  compiler to an Elasticsearch query. The parser state is the list of tokens from
  \<open>self._index\<close> on, with \<open>self._depth\<close>; reading a token is reading the head of that list, and
  since \<open>_advance\<close> never steps past the END token the list is never empty
  (\<open>tokenize_shape\<close>). The four mutually recursive methods take fuel; \<open>kql_parse_total\<close> shows
  that the fuel \<open>kql_parse\<close> gives them is always enough.
\<close>

section \<open>Data\<close>

datatype token_kind = LPAREN | RPAREN | COLON | OPERATOR | WORD | PHRASE | END

record kql_token =
  tk_kind :: token_kind
  tk_value :: string
  tk_position :: nat

datatype kql_node =
    AndNode "kql_node list"
  | OrNode "kql_node list"
  | NotNode kql_node
  | MatchNode string string bool nat
  | RangeNode string string string nat
  | FreeTextNode string bool nat

datatype hunt_query_error = HuntQueryError (err_message: string) (err_reason: string)

record compiled_kql =
  ck_query :: pyval
  ck_clause_count :: int
  ck_has_wildcard :: bool
  ck_has_timestamp_range :: bool

abbreviation (input) "KEYWORD_AND \<equiv> ''and''"
abbreviation (input) "KEYWORD_OR \<equiv> ''or''"
abbreviation (input) "KEYWORD_NOT \<equiv> ''not''"

text \<open>\<open>_RANGE_OPERATORS\<close>: the tokenizer produces only these four operators.\<close>

definition range_operators :: "(string \<times> string) list" where
  "range_operators = [(''>='', ''gte''), (''<='', ''lte''), (''>'', ''gt''), (''<'', ''lt'')]"

definition integer_field_types :: "string list" where
  "integer_field_types = [''integer'', ''long'', ''short'']"

definition range_field_types :: "string list" where
  "range_field_types = [''date'', ''ip''] @ integer_field_types"

definition wildcard_field_types :: "string list" where
  "wildcard_field_types = [''keyword'', ''text'', ''flattened'']"

definition timestamp_fields :: "string list" where
  "timestamp_fields = [''timestamp'', ''@timestamp'']"

definition word_break_chars :: "char list" where
  "word_break_chars = [CHR ''('', CHR '')'', CHR '':'', CHR ''<'', CHR ''>'', CHR 0x22]"

definition max_group_depth :: nat where
  "max_group_depth = 16"

definition extra_field_prefix :: string where
  "extra_field_prefix = ''extra.''"

section \<open>Tokenizer\<close>

text \<open>
  \<open>_read_phrase\<close> from \<open>start + 1\<close>: the unescaped s and the index after the closing quote,
  \<open>None\<close> where the quote is never closed.
\<close>

function phrase_loop :: "string \<Rightarrow> nat \<Rightarrow> string \<Rightarrow> (string \<times> nat) option" where
  "phrase_loop s index out =
     (if index < length s then
        (let ch = s ! index in
         if ch = CHR 0x5C \<and> index + 1 < length s
         then phrase_loop s (index + 2) (out @ [s ! (index + 1)])
         else if ch = CHR 0x22 then Some (out, index + 1)
         else phrase_loop s (index + 1) (out @ [ch]))
      else None)"
  by pat_completeness auto
termination
  by (relation "measure (\<lambda>(s, index, out). length s - index)") auto

declare phrase_loop.simps [simp del]

definition read_phrase :: "string \<Rightarrow> nat \<Rightarrow> hunt_query_error + (string \<times> nat)" where
  "read_phrase s start =
     (case phrase_loop s (start + 1) [] of
        Some r \<Rightarrow> Inr r
      | None \<Rightarrow> Inl (HuntQueryError
          (''KQL syntax error at position '' @ nat_str (start + 1) @ '': unterminated quoted string'')
          ''syntax''))"

text \<open>The word loop of \<open>_tokenize\<close>: the index of the first blank or break character.\<close>

function word_end :: "string \<Rightarrow> nat \<Rightarrow> nat" where
  "word_end s index =
     (if index < length s \<and> \<not> py_isspace (s ! index) \<and> s ! index \<notin> set word_break_chars
      then word_end s (index + 1) else index)"
  by pat_completeness auto
termination
  by (relation "measure (\<lambda>(s, index). length s - index)") auto

declare word_end.simps [simp del]

lemma word_end_ge: "index \<le> word_end s index"
proof (induction s index rule: word_end.induct)
  case (1 s index)
  then show ?case by (subst word_end.simps) (auto dest: Suc_leD)
qed

lemma word_end_progress:
  "index < length s \<Longrightarrow> \<not> py_isspace (s ! index) \<Longrightarrow> s ! index \<notin> set word_break_chars \<Longrightarrow>
   index < word_end s index"
  using word_end_ge[of "index + 1" s] by (subst word_end.simps) auto

lemma word_end_le: "index \<le> length s \<Longrightarrow> word_end s index \<le> length s"
proof (induction s index rule: word_end.induct)
  case (1 s index)
  then show ?case by (subst word_end.simps) auto
qed

lemma phrase_loop_progress:
  "phrase_loop s index out = Some (v, j) \<Longrightarrow> index < j \<and> j \<le> length s"
proof (induction s index out rule: phrase_loop.induct)
  case (1 s index out)
  show ?case
    using "1.prems" "1.IH"
    by (subst (asm) phrase_loop.simps) (fastforce simp: Let_def split: if_splits)
qed

lemma read_phrase_progress: "read_phrase s start = Inr (v, j) \<Longrightarrow> start < j \<and> j \<le> length s"
  unfolding read_phrase_def by (auto split: option.splits dest!: phrase_loop_progress)

text \<open>\<open>text[start:end]\<close> of a word.\<close>

definition slice :: "'a list \<Rightarrow> nat \<Rightarrow> nat \<Rightarrow> 'a list" where
  "slice xs i j = take (j - i) (drop i xs)"

definition mk_token :: "token_kind \<Rightarrow> string \<Rightarrow> nat \<Rightarrow> kql_token" where
  "mk_token k v p = \<lparr>tk_kind = k, tk_value = v, tk_position = p\<rparr>"

function tokenize_loop :: "string \<Rightarrow> nat \<Rightarrow> kql_token list \<Rightarrow> hunt_query_error + kql_token list" where
  "tokenize_loop s index tokens =
     (if index < length s then
        (let ch = s ! index in
         if py_isspace ch then tokenize_loop s (index + 1) tokens
         else if ch = CHR ''('' then tokenize_loop s (index + 1) (tokens @ [mk_token LPAREN [ch] index])
         else if ch = CHR '')'' then tokenize_loop s (index + 1) (tokens @ [mk_token RPAREN [ch] index])
         else if ch = CHR '':'' then tokenize_loop s (index + 1) (tokens @ [mk_token COLON [ch] index])
         else if py_startswith_at s ''>='' index \<or> py_startswith_at s ''<='' index
         then tokenize_loop s (index + 2) (tokens @ [mk_token OPERATOR (slice s index (index + 2)) index])
         else if ch = CHR ''<'' \<or> ch = CHR ''>''
         then tokenize_loop s (index + 1) (tokens @ [mk_token OPERATOR [ch] index])
         else if ch = CHR 0x22
         then (case read_phrase s index of
                 Inl e \<Rightarrow> Inl e
               | Inr (v, next_index) \<Rightarrow>
                   tokenize_loop s next_index (tokens @ [mk_token PHRASE v index]))
         else (let stop = word_end s index in
               tokenize_loop s stop (tokens @ [mk_token WORD (slice s index stop) index])))
      else Inr (tokens @ [mk_token END [] (length s)]))"
  by pat_completeness auto
termination
proof (relation "measure (\<lambda>(s, index, tokens). length s - index)", goal_cases)
  case 1
  then show ?case by simp
next
  case (8 s index tokens ch r v next_index)
  then show ?case using read_phrase_progress[of s index v next_index] by auto
next
  case (9 s index tokens ch stop)
  then show ?case
    using word_end_progress[of index s] by (auto simp: word_break_chars_def)
qed auto

declare tokenize_loop.simps [simp del]

definition tokenize :: "string \<Rightarrow> hunt_query_error + kql_token list" where
  "tokenize s = tokenize_loop s 0 []"

section \<open>Parser\<close>

record kql_parser =
  ps_rest :: "kql_token list"
  ps_depth :: nat

text \<open>
  \<open>_peek\<close>. The first equation is never used on tokenizer output: the list holds the END token
  until the end.
\<close>

definition peek :: "kql_parser \<Rightarrow> kql_token" where
  "peek p = (case ps_rest p of [] \<Rightarrow> mk_token END [] 0 | t # _ \<Rightarrow> t)"

definition advance :: "kql_parser \<Rightarrow> kql_parser" where
  "advance p = (if tk_kind (peek p) \<noteq> END then p\<lparr>ps_rest := tl (ps_rest p)\<rparr> else p)"

definition keyword :: "kql_token \<Rightarrow> string" where
  "keyword t = (if tk_kind t = WORD then py_lower (tk_value t) else [])"

definition syntax_error :: "kql_token \<Rightarrow> string \<Rightarrow> hunt_query_error" where
  "syntax_error t expectation =
     HuntQueryError
       (''KQL syntax error at position '' @ nat_str (tk_position t + 1) @ '': '' @ expectation @ '', found '' @
        (if tk_kind t = END then ''end of query'' else sq @ tk_value t @ sq))
       ''syntax''"

definition expect_value :: "string \<Rightarrow> kql_parser \<Rightarrow> (hunt_query_error, kql_token \<times> kql_parser) outcome" where
  "expect_value expectation p =
     (let t = peek p in
      if tk_kind t \<noteq> WORD \<and> tk_kind t \<noteq> PHRASE then Raise (syntax_error t expectation)
      else Return (t, advance p))"

text \<open>The \<open>while True\<close> loop of \<open>_parse_value_group\<close>.\<close>

fun value_group_loop ::
  "nat \<Rightarrow> kql_token list \<Rightarrow> string option \<Rightarrow> kql_parser \<Rightarrow>
   (hunt_query_error, kql_token list \<times> string option \<times> kql_parser) outcome" where
  "value_group_loop 0 values connector p = Diverge"
| "value_group_loop (Suc fuel) values connector p =
     (let t = peek p in
      if tk_kind t = RPAREN then Return (values, connector, advance p)
      else
        (let kw = keyword t in
         if kw \<noteq> KEYWORD_AND \<and> kw \<noteq> KEYWORD_OR
         then Raise (syntax_error t ''expected 'and', 'or' or ')' inside a value group'')
         else if connector \<noteq> None \<and> connector \<noteq> Some kw
         then Raise (syntax_error t (''value groups cannot mix 'and' with 'or'' @ sq))
         else obind (expect_value ''expected a value after the connector'' (advance p)) (\<lambda>(v, p').
              value_group_loop fuel (values @ [v]) (Some kw) p')))"

definition match_of :: "kql_token \<Rightarrow> kql_token \<Rightarrow> kql_node" where
  "match_of field_token v =
     MatchNode (tk_value field_token) (tk_value v) (tk_kind v = PHRASE) (tk_position v)"

definition parse_value_group ::
  "nat \<Rightarrow> kql_token \<Rightarrow> kql_parser \<Rightarrow> (hunt_query_error, kql_node \<times> kql_parser) outcome" where
  "parse_value_group fuel field_token p =
     obind (expect_value ''expected a value inside the group'' (advance p)) (\<lambda>(v, p1).
     obind (value_group_loop fuel [v] None p1) (\<lambda>(values, connector, p2).
       let nodes = map (match_of field_token) values in
       Return (if length nodes = 1 then hd nodes
               else if connector = Some KEYWORD_AND then AndNode nodes else OrNode nodes, p2)))"

definition parse_field_value ::
  "nat \<Rightarrow> kql_token \<Rightarrow> kql_parser \<Rightarrow> (hunt_query_error, kql_node \<times> kql_parser) outcome" where
  "parse_field_value fuel field_token p =
     (let t = peek p in
      if tk_kind t = LPAREN then parse_value_group fuel field_token p
      else if tk_kind t = WORD \<or> tk_kind t = PHRASE
      then Return (MatchNode (tk_value field_token) (tk_value t) (tk_kind t = PHRASE) (tk_position t), advance p)
      else Raise (syntax_error t (''expected a value after '' @ sq @ tk_value field_token @ '':'' @ sq)))"

definition single_or :: "(kql_node list \<Rightarrow> kql_node) \<Rightarrow> kql_node list \<Rightarrow> kql_node" where
  "single_or mk nodes = (if length nodes = 1 then hd nodes else mk nodes)"

text \<open>\<open>parse_or_loop\<close> and \<open>parse_and_loop\<close> are the \<open>while\<close> loops of \<open>_parse_or\<close> and \<open>_parse_and\<close>.\<close>

fun parse_or :: "nat \<Rightarrow> kql_parser \<Rightarrow> (hunt_query_error, kql_node \<times> kql_parser) outcome"
  and parse_or_loop :: "nat \<Rightarrow> kql_node list \<Rightarrow> kql_parser \<Rightarrow> (hunt_query_error, kql_node list \<times> kql_parser) outcome"
  and parse_and :: "nat \<Rightarrow> kql_parser \<Rightarrow> (hunt_query_error, kql_node \<times> kql_parser) outcome"
  and parse_and_loop :: "nat \<Rightarrow> kql_node list \<Rightarrow> kql_parser \<Rightarrow> (hunt_query_error, kql_node list \<times> kql_parser) outcome"
  and parse_not :: "nat \<Rightarrow> kql_parser \<Rightarrow> (hunt_query_error, kql_node \<times> kql_parser) outcome"
  and parse_primary :: "nat \<Rightarrow> kql_parser \<Rightarrow> (hunt_query_error, kql_node \<times> kql_parser) outcome" where
  "parse_or 0 p = Diverge"
| "parse_or (Suc fuel) p =
     obind (parse_and fuel p) (\<lambda>(node, p1).
     obind (parse_or_loop fuel [node] p1) (\<lambda>(nodes, p2).
       Return (single_or OrNode nodes, p2)))"
| "parse_or_loop 0 nodes p = Diverge"
| "parse_or_loop (Suc fuel) nodes p =
     (if keyword (peek p) = KEYWORD_OR
      then obind (parse_and fuel (advance p)) (\<lambda>(node, p1). parse_or_loop fuel (nodes @ [node]) p1)
      else Return (nodes, p))"
| "parse_and 0 p = Diverge"
| "parse_and (Suc fuel) p =
     obind (parse_not fuel p) (\<lambda>(node, p1).
     obind (parse_and_loop fuel [node] p1) (\<lambda>(nodes, p2).
       Return (single_or AndNode nodes, p2)))"
| "parse_and_loop 0 nodes p = Diverge"
| "parse_and_loop (Suc fuel) nodes p =
     (if keyword (peek p) = KEYWORD_AND
      then obind (parse_not fuel (advance p)) (\<lambda>(node, p1). parse_and_loop fuel (nodes @ [node]) p1)
      else Return (nodes, p))"
| "parse_not 0 p = Diverge"
| "parse_not (Suc fuel) p =
     (if keyword (peek p) = KEYWORD_NOT
      then obind (parse_not fuel (advance p)) (\<lambda>(node, p1). Return (NotNode node, p1))
      else parse_primary fuel p)"
| "parse_primary 0 p = Diverge"
| "parse_primary (Suc fuel) p =
     (let t = peek p in
      if tk_kind t = LPAREN then
        (let p1 = p\<lparr>ps_depth := ps_depth p + 1\<rparr> in
         if ps_depth p1 > max_group_depth
         then Raise (syntax_error t
                (''grouping deeper than '' @ nat_str max_group_depth @ '' levels is not allowed''))
         else obind (parse_or fuel (advance p1)) (\<lambda>(node, p2).
              let closing = peek p2; p3 = advance p2 in
              if tk_kind closing \<noteq> RPAREN then Raise (syntax_error closing (''expected ')'' @ sq))
              else Return (node, p3\<lparr>ps_depth := ps_depth p3 - 1\<rparr>)))
      else if tk_kind t = PHRASE then
        (let p1 = advance p in
         if tk_kind (peek p1) = COLON \<or> tk_kind (peek p1) = OPERATOR
         then Raise (syntax_error t ''field names cannot be quoted'')
         else Return (FreeTextNode (tk_value t) True (tk_position t), p1))
      else if tk_kind t = WORD then
        (if keyword t = KEYWORD_AND \<or> keyword t = KEYWORD_OR
         then Raise (syntax_error t ''expected a clause before the operator'')
         else
           (let p1 = advance p; upcoming = peek p1 in
            if tk_kind upcoming = COLON then parse_field_value fuel t (advance p1)
            else if tk_kind upcoming = OPERATOR then
              obind (expect_value (''expected a value after '' @ sq @ tk_value upcoming @ sq) (advance p1))
                (\<lambda>(v, p2). Return (RangeNode (tk_value t) (tk_value upcoming) (tk_value v) (tk_position v), p2))
            else Return (FreeTextNode (tk_value t) False (tk_position t), p1)))
      else Raise (syntax_error t (''expected a field clause, a value or '('' @ sq)))"

definition kql_fuel :: "kql_token list \<Rightarrow> nat" where
  "kql_fuel tokens = 8 * length tokens + 8"

definition kql_parse :: "kql_token list \<Rightarrow> (hunt_query_error, kql_node) outcome" where
  "kql_parse tokens =
     obind (parse_or (kql_fuel tokens) \<lparr>ps_rest = tokens, ps_depth = 0\<rparr>) (\<lambda>(node, p).
       let tail = peek p in
       if tk_kind tail \<noteq> END then Raise (syntax_error tail ''expected 'and' or 'or' between clauses'')
       else Return node)"

section \<open>Compiler\<close>

record kql_config =
  kc_field_types :: "(string \<times> string) list"
  kc_free_text_fields :: "string list"
  kc_max_clauses :: int

record kql_compiler =
  cc_clause_count :: int
  cc_has_wildcard :: bool
  cc_has_timestamp_range :: bool

definition valid_fields_hint :: "(string \<times> string) list \<Rightarrow> string" where
  "valid_fields_hint field_types =
     py_join '', '' (sort (remdups (map fst field_types @ [''extra.*''])))"

definition count_clause :: "kql_config \<Rightarrow> kql_compiler \<Rightarrow> hunt_query_error + kql_compiler" where
  "count_clause cfg st =
     (let st' = st\<lparr>cc_clause_count := cc_clause_count st + 1\<rparr> in
      if cc_clause_count st' > kc_max_clauses cfg
      then Inl (HuntQueryError
             (''KQL query exceeds the maximum of '' @ int_str (kc_max_clauses cfg) @ '' clauses'')
             ''too_many_clauses'')
      else Inr st')"

definition resolve_field_type :: "kql_config \<Rightarrow> string \<Rightarrow> hunt_query_error + string" where
  "resolve_field_type cfg f =
     (case dict_get (kc_field_types cfg) f of
        Some ty \<Rightarrow> Inr ty
      | None \<Rightarrow>
          if py_startswith f extra_field_prefix \<and> length f > length extra_field_prefix
          then Inr ''flattened''
          else Inl (HuntQueryError
                 (''Unknown field '' @ sq @ f @ sq @ ''. Valid fields: '' @ valid_fields_hint (kc_field_types cfg))
                 ''unknown_field''))"

definition coerce_int_value :: "string \<Rightarrow> string \<Rightarrow> hunt_query_error + int" where
  "coerce_int_value f v =
     (case py_int v of
        Some i \<Rightarrow> Inr i
      | None \<Rightarrow> Inl (HuntQueryError
          (''Field '' @ sq @ f @ sq @ '' expects a numeric value, got '' @ sq @ v @ sq)
          ''invalid_value''))"

definition is_wildcard_char :: "char \<Rightarrow> bool" where
  "is_wildcard_char c = (c = CHR ''*'' \<or> c = CHR ''?'')"

text \<open>The branches of \<open>_compile_match\<close> after the wildcard handling.\<close>

definition compile_exact_match ::
  "string \<Rightarrow> string \<Rightarrow> string \<Rightarrow> bool \<Rightarrow> kql_compiler \<Rightarrow> hunt_query_error + (pyval \<times> kql_compiler)" where
  "compile_exact_match field_type f v phrase st =
     (if field_type = ''date''
      then Inl (HuntQueryError
             (''Use range operators (>=, <=, >, <) to filter the date field '' @ sq @ f @ sq) ''invalid_value'')
      else if field_type \<in> set integer_field_types
      then ebind (coerce_int_value f v) (\<lambda>i. Inr (PDict [(''term'', PDict [(f, PInt i)])], st))
      else if field_type = ''text''
      then (if phrase then Inr (PDict [(''match_phrase'', PDict [(f, PStr v)])], st)
            else Inr (PDict [(''match'', PDict [(f, PDict [(''query'', PStr v), (''operator'', PStr ''and'')])])], st))
      else Inr (PDict [(''term'', PDict [(f, PStr v)])], st))"

definition compile_match ::
  "kql_config \<Rightarrow> string \<Rightarrow> string \<Rightarrow> bool \<Rightarrow> kql_compiler \<Rightarrow> hunt_query_error + (pyval \<times> kql_compiler)" where
  "compile_match cfg f v phrase st =
     ebind (resolve_field_type cfg f) (\<lambda>field_type.
     ebind (count_clause cfg st) (\<lambda>st.
       if \<not> phrase \<and> v = ''*'' then Inr (PDict [(''exists'', PDict [(''field'', PStr f)])], st)
       else if \<not> phrase \<and> list_ex is_wildcard_char v then
         (if is_wildcard_char (hd v)
          then Inl (HuntQueryError
                 (''Leading wildcards are not allowed (field '' @ sq @ f @ sq @ '', value '' @ sq @ v @ sq @ '')'')
                 ''leading_wildcard'')
          else if field_type \<notin> set wildcard_field_types
          then Inl (HuntQueryError
                 (''Wildcards are not supported on '' @ field_type @ '' field '' @ sq @ f @ sq) ''invalid_value'')
          else Inr (PDict [(''wildcard'',
                      PDict [(f, PDict [(''value'', PStr v), (''case_insensitive'', PBool True)])])],
                    st\<lparr>cc_has_wildcard := True\<rparr>))
       else compile_exact_match field_type f v phrase st))"

definition compile_range ::
  "kql_config \<Rightarrow> string \<Rightarrow> string \<Rightarrow> string \<Rightarrow> kql_compiler \<Rightarrow> hunt_query_error + (pyval \<times> kql_compiler)" where
  "compile_range cfg f operator v st =
     ebind (resolve_field_type cfg f) (\<lambda>field_type.
     ebind (count_clause cfg st) (\<lambda>st.
       if field_type \<notin> set range_field_types
       then Inl (HuntQueryError
              (''Range operators are not supported on '' @ field_type @ '' field '' @ sq @ f @ sq) ''invalid_value'')
       else ebind (if field_type \<in> set integer_field_types
                   then ebind (coerce_int_value f v) (\<lambda>i. Inr (PInt i)) else Inr (PStr v)) (\<lambda>bound.
         let st = (if f \<in> set timestamp_fields then st\<lparr>cc_has_timestamp_range := True\<rparr> else st) in
         Inr (PDict [(''range'', PDict [(f, PDict [(the (dict_get range_operators operator), bound)])])], st))))"

definition compile_free_text ::
  "kql_config \<Rightarrow> string \<Rightarrow> bool \<Rightarrow> kql_compiler \<Rightarrow> hunt_query_error + (pyval \<times> kql_compiler)" where
  "compile_free_text cfg t phrase st =
     ebind (count_clause cfg st) (\<lambda>st.
       if \<not> phrase \<and> t \<noteq> [] \<and> is_wildcard_char (hd t)
       then Inl (HuntQueryError
              (''Leading wildcards are not allowed in free-text terms ('' @ sq @ t @ sq @ '')'') ''leading_wildcard'')
       else
         (let query = (if phrase then [CHR 0x22] @ py_replace_char (CHR 0x22) (CHR '' '') t @ [CHR 0x22] else t) in
          Inr (PDict [(''simple_query_string'',
                 PDict [(''query'', PStr query),
                        (''fields'', PList (map PStr (kc_free_text_fields cfg))),
                        (''default_operator'', PStr ''and''),
                        (''lenient'', PBool True)])], st)))"

text \<open>\<open>_Compiler.compile\<close>; \<open>compile_nodes\<close> is the list comprehension over the children.\<close>

fun compile_node ::
    "kql_config \<Rightarrow> kql_node \<Rightarrow> kql_compiler \<Rightarrow> hunt_query_error + (pyval \<times> kql_compiler)"
  and compile_nodes ::
    "kql_config \<Rightarrow> kql_node list \<Rightarrow> kql_compiler \<Rightarrow> hunt_query_error + (pyval list \<times> kql_compiler)" where
  "compile_node cfg (AndNode children) st =
     ebind (compile_nodes cfg children st) (\<lambda>(qs, st).
       Inr (PDict [(''bool'', PDict [(''filter'', PList qs)])], st))"
| "compile_node cfg (OrNode children) st =
     ebind (compile_nodes cfg children st) (\<lambda>(qs, st).
       Inr (PDict [(''bool'', PDict [(''should'', PList qs), (''minimum_should_match'', PInt 1)])], st))"
| "compile_node cfg (NotNode child) st =
     ebind (compile_node cfg child st) (\<lambda>(q, st).
       Inr (PDict [(''bool'', PDict [(''must_not'', PList [q])])], st))"
| "compile_node cfg (MatchNode f v phrase pos) st = compile_match cfg f v phrase st"
| "compile_node cfg (RangeNode f operator v pos) st = compile_range cfg f operator v st"
| "compile_node cfg (FreeTextNode t phrase pos) st = compile_free_text cfg t phrase st"
| "compile_nodes cfg [] st = Inr ([], st)"
| "compile_nodes cfg (n # ns) st =
     ebind (compile_node cfg n st) (\<lambda>(q, st).
     ebind (compile_nodes cfg ns st) (\<lambda>(qs, st). Inr (q # qs, st)))"

definition compile_kql ::
  "string \<Rightarrow> (string \<times> string) list \<Rightarrow> string list \<Rightarrow> int \<Rightarrow> (hunt_query_error, compiled_kql) outcome" where
  "compile_kql s field_types free_text_fields max_clauses =
     (let raw = py_strip s in
      if raw = [] then Raise (HuntQueryError ''KQL query must contain non-whitespace characters'' ''syntax'')
      else
        obind (of_sum (tokenize raw)) (\<lambda>tokens.
        obind (kql_parse tokens) (\<lambda>node.
        obind (of_sum (compile_node
            \<lparr>kc_field_types = field_types, kc_free_text_fields = free_text_fields,
             kc_max_clauses = max 1 max_clauses\<rparr> node
            \<lparr>cc_clause_count = 0, cc_has_wildcard = False, cc_has_timestamp_range = False\<rparr>)) (\<lambda>(query, st).
          Return \<lparr>ck_query = query, ck_clause_count = cc_clause_count st,
                  ck_has_wildcard = cc_has_wildcard st,
                  ck_has_timestamp_range = cc_has_timestamp_range st\<rparr>))))"

section \<open>The parser consumes tokens and terminates\<close>

abbreviation (input) left :: "kql_parser \<Rightarrow> nat" where
  "left p \<equiv> length (ps_rest p)"

lemma left_advance: "tk_kind (peek p) \<noteq> END \<Longrightarrow> left (advance p) < left p"
  by (cases "ps_rest p") (auto simp: advance_def peek_def mk_token_def)

lemma left_advance_le: "left (advance p) \<le> left p"
  by (cases "tk_kind (peek p) = END") (auto simp: advance_def dest: left_advance)

lemma keyword_WORD: "keyword t \<noteq> [] \<Longrightarrow> tk_kind t = WORD"
  by (auto simp: keyword_def split: if_splits)

lemma left_advance_keyword: "keyword (peek p) = c # cs \<Longrightarrow> left (advance p) < left p"
  using keyword_WORD[of "peek p"] left_advance[of p] by simp

lemma left_expect_value: "expect_value e p = Return (v, p') \<Longrightarrow> left p' < left p"
  using left_advance[of p] by (auto simp: expect_value_def Let_def split: if_splits)

lemma left_value_group:
  "value_group_loop fuel vs c p = Return (vs', c', p') \<Longrightarrow> left p' < left p"
proof (induction fuel arbitrary: vs c p)
  case (Suc fuel)
  show ?case
  proof (cases "tk_kind (peek p) = RPAREN")
    case True
    with Suc.prems left_advance[of p] show ?thesis by (auto simp: Let_def)
  next
    case False
    with Suc.prems obtain v p1 where
      e: "expect_value ''expected a value after the connector'' (advance p) = Return (v, p1)" and
      g: "value_group_loop fuel (vs @ [v]) (Some (keyword (peek p))) p1 = Return (vs', c', p')"
      by (auto simp: bind_simps Let_def split: if_splits)
    show ?thesis
      using Suc.IH[OF g] left_expect_value[OF e] left_advance_le[of p] by simp
  qed
qed simp

lemma left_parse_field_value:
  "parse_field_value fuel t p = Return (n, p') \<Longrightarrow> left p' < left p"
  using left_advance[of p] left_advance_le[of p]
  by (auto simp: parse_field_value_def parse_value_group_def bind_simps Let_def
           dest!: left_expect_value left_value_group split: if_splits)

lemma left_parsers:
  "(\<forall>p n p'. parse_or fuel p = Return (n, p') \<longrightarrow> left p' < left p) \<and>
   (\<forall>ns p n p'. parse_or_loop fuel ns p = Return (n, p') \<longrightarrow> left p' \<le> left p) \<and>
   (\<forall>p n p'. parse_and fuel p = Return (n, p') \<longrightarrow> left p' < left p) \<and>
   (\<forall>ns p n p'. parse_and_loop fuel ns p = Return (n, p') \<longrightarrow> left p' \<le> left p) \<and>
   (\<forall>p n p'. parse_not fuel p = Return (n, p') \<longrightarrow> left p' < left p) \<and>
   (\<forall>p n p'. parse_primary fuel p = Return (n, p') \<longrightarrow> left p' < left p)"
proof (induction fuel)
  case (Suc fuel)
  then have IH:
    "\<And>p n p'. parse_or fuel p = Return (n, p') \<Longrightarrow> left p' < left p"
    "\<And>ns p n p'. parse_or_loop fuel ns p = Return (n, p') \<Longrightarrow> left p' \<le> left p"
    "\<And>p n p'. parse_and fuel p = Return (n, p') \<Longrightarrow> left p' < left p"
    "\<And>ns p n p'. parse_and_loop fuel ns p = Return (n, p') \<Longrightarrow> left p' \<le> left p"
    "\<And>p n p'. parse_not fuel p = Return (n, p') \<Longrightarrow> left p' < left p"
    "\<And>p n p'. parse_primary fuel p = Return (n, p') \<Longrightarrow> left p' < left p"
    by blast+
  have primary: "left p' < left p" if "parse_primary (Suc fuel) p = Return (n, p')" for p n p'
  proof -
    have adv: "left (advance (p\<lparr>ps_depth := d\<rparr>)) = left (advance p)" for d
      by (simp add: advance_def peek_def)
    show ?thesis
    proof (cases "tk_kind (peek p) = LPAREN")
      case True
      with that obtain m p2 where o: "parse_or fuel (advance (p\<lparr>ps_depth := ps_depth p + 1\<rparr>)) = Return (m, p2)"
        and p': "p' = (advance p2)\<lparr>ps_depth := ps_depth (advance p2) - 1\<rparr>"
        by (auto simp: bind_simps Let_def split: if_splits)
      show ?thesis
        using IH(1)[OF o] left_advance_le[of p2] left_advance_le[of p] by (simp add: p' adv)
    next
      case False
      then show ?thesis
        using that left_advance[of p] left_advance_le[of p] left_advance_le[of "advance p"]
        by (auto simp: bind_simps Let_def dest!: left_expect_value left_parse_field_value split: if_splits)
    qed
  qed
  show ?case
    using primary IH(5)[of "advance _"]
    by (auto simp: bind_simps intro: order.strict_implies_order split: if_splits
             dest!: IH left_advance_keyword)
qed simp
lemma expect_value_total: "expect_value e p \<noteq> Diverge"
  by (simp add: expect_value_def Let_def)

lemma value_group_total: "length (ps_rest p) < fuel \<Longrightarrow> value_group_loop fuel vs c p \<noteq> Diverge"
proof (induction fuel arbitrary: vs c p)
  case (Suc fuel)
  show ?case
  proof
    assume "value_group_loop (Suc fuel) vs c p = Diverge"
    then obtain v p1 where
      e: "expect_value ''expected a value after the connector'' (advance p) = Return (v, p1)" and
      g: "value_group_loop fuel (vs @ [v]) (Some (keyword (peek p))) p1 = Diverge"
      by (auto simp: obind_Diverge_iff expect_value_total Let_def split: if_splits)
    have "left p1 < fuel"
      using left_expect_value[OF e] left_advance_le[of p] Suc.prems by simp
    with g Suc.IH show False by blast
  qed
qed simp

lemma parse_field_value_total: "length (ps_rest p) < fuel \<Longrightarrow> parse_field_value fuel t p \<noteq> Diverge"
  using left_advance_le[of p] value_group_total
  by (fastforce simp: parse_field_value_def parse_value_group_def obind_Diverge_iff expect_value_total Let_def
      dest: left_expect_value split: if_splits)

lemma parsers_total:
  "(\<forall>p. 4 * left p + 4 \<le> fuel \<longrightarrow> parse_or fuel p \<noteq> Diverge) \<and>
   (\<forall>ns p. 4 * left p + 4 \<le> fuel \<longrightarrow> parse_or_loop fuel ns p \<noteq> Diverge) \<and>
   (\<forall>p. 4 * left p + 3 \<le> fuel \<longrightarrow> parse_and fuel p \<noteq> Diverge) \<and>
   (\<forall>ns p. 4 * left p + 3 \<le> fuel \<longrightarrow> parse_and_loop fuel ns p \<noteq> Diverge) \<and>
   (\<forall>p. 4 * left p + 2 \<le> fuel \<longrightarrow> parse_not fuel p \<noteq> Diverge) \<and>
   (\<forall>p. 4 * left p + 1 \<le> fuel \<longrightarrow> parse_primary fuel p \<noteq> Diverge)"
proof (induction fuel)
  case (Suc fuel)
  then have IH:
    "\<And>p. 4 * left p + 4 \<le> fuel \<Longrightarrow> parse_or fuel p \<noteq> Diverge"
    "\<And>ns p. 4 * left p + 4 \<le> fuel \<Longrightarrow> parse_or_loop fuel ns p \<noteq> Diverge"
    "\<And>p. 4 * left p + 3 \<le> fuel \<Longrightarrow> parse_and fuel p \<noteq> Diverge"
    "\<And>ns p. 4 * left p + 3 \<le> fuel \<Longrightarrow> parse_and_loop fuel ns p \<noteq> Diverge"
    "\<And>p. 4 * left p + 2 \<le> fuel \<Longrightarrow> parse_not fuel p \<noteq> Diverge"
    "\<And>p. 4 * left p + 1 \<le> fuel \<Longrightarrow> parse_primary fuel p \<noteq> Diverge"
    by blast+
  have lt: "\<And>p n p'. parse_and fuel p = Return (n, p') \<Longrightarrow> left p' < left p"
    "\<And>p n p'. parse_not fuel p = Return (n, p') \<Longrightarrow> left p' < left p"
    using left_parsers[of fuel] by blast+
  have por: "parse_or (Suc fuel) p \<noteq> Diverge" if "4 * left p + 4 \<le> Suc fuel" for p
    using that IH(3)[of p] by (auto simp: obind_Diverge_iff dest!: lt(1) IH(2)[THEN notE, rotated])
  have pand: "parse_and (Suc fuel) p \<noteq> Diverge" if "4 * left p + 3 \<le> Suc fuel" for p
    using that IH(5)[of p] by (auto simp: obind_Diverge_iff dest!: lt(2) IH(4)[THEN notE, rotated])
  have orl: "parse_or_loop (Suc fuel) ns p \<noteq> Diverge" if "4 * left p + 4 \<le> Suc fuel" for ns p
    using that IH(3)[of "advance p"] left_advance_keyword[of p]
    by (auto simp: obind_Diverge_iff dest!: lt(1) IH(2)[THEN notE, rotated] split: if_splits)
  have andl: "parse_and_loop (Suc fuel) ns p \<noteq> Diverge" if "4 * left p + 3 \<le> Suc fuel" for ns p
    using that IH(5)[of "advance p"] left_advance_keyword[of p]
    by (auto simp: obind_Diverge_iff dest!: lt(2) IH(4)[THEN notE, rotated] split: if_splits)
  have pnot: "parse_not (Suc fuel) p \<noteq> Diverge" if "4 * left p + 2 \<le> Suc fuel" for p
    using that IH(5)[of "advance p"] IH(6)[of p] left_advance_keyword[of p]
    by (auto simp: obind_Diverge_iff split: if_splits)
  have prim: "parse_primary (Suc fuel) p \<noteq> Diverge" if "4 * left p + 1 \<le> Suc fuel" for p
  proof (cases "tk_kind (peek p) = LPAREN")
    case True
    let ?q = "p\<lparr>ps_depth := Suc (ps_depth p)\<rparr>"
    from True have "left (advance ?q) < left p"
      using left_advance[of ?q] by (simp add: peek_def)
    with that IH(1)[of "advance ?q"] have "parse_or fuel (advance ?q) \<noteq> Diverge" by simp
    with True show ?thesis
      by (auto simp: obind_Diverge_iff Let_def split: if_splits)
  next
    case False
    then show ?thesis
      using that left_advance[of p] left_advance_le[of "advance p"]
        parse_field_value_total[of "advance (advance p)" fuel "peek p"]
      by (auto simp: obind_Diverge_iff expect_value_total Let_def split: if_splits)
  qed
  show ?case using por pand orl andl pnot prim by blast
qed simp

lemma kql_parse_no_divergence: "kql_parse tokens \<noteq> Diverge"
  using parsers_total[of "kql_fuel tokens"]
  by (auto simp: kql_parse_def obind_Diverge_iff kql_fuel_def Let_def split: if_splits)

section \<open>Rendering a node and parsing it back\<close>

definition kw_token :: "string \<Rightarrow> kql_token" where
  "kw_token kw = mk_token WORD kw 0"

definition value_token :: "string \<Rightarrow> bool \<Rightarrow> nat \<Rightarrow> kql_token" where
  "value_token v phrase pos = mk_token (if phrase then PHRASE else WORD) v pos"

definition paren :: "bool \<Rightarrow> kql_token list \<Rightarrow> kql_token list" where
  "paren b ts = (if b then mk_token LPAREN ''('' 0 # ts @ [mk_token RPAREN '')'' 0] else ts)"

fun join_kw :: "string \<Rightarrow> kql_token list list \<Rightarrow> kql_token list" where
  "join_kw kw [] = []"
| "join_kw kw (ts # tss) = ts @ concat (map (\<lambda>us. kw_token kw # us) tss)"

text \<open>Precedence level 0 is inside \<open>or\<close>, 1 below \<open>or\<close>, 2 below \<open>and\<close> or \<open>not\<close>.\<close>

fun render :: "nat \<Rightarrow> kql_node \<Rightarrow> kql_token list" where
  "render l (OrNode ns) = paren (0 < l) (join_kw KEYWORD_OR (map (render 1) ns))"
| "render l (AndNode ns) = paren (1 < l) (join_kw KEYWORD_AND (map (render 2) ns))"
| "render l (NotNode n) = kw_token KEYWORD_NOT # render 2 n"
| "render l (MatchNode f v phrase pos) = [mk_token WORD f 0, mk_token COLON '':'' 0, value_token v phrase pos]"
| "render l (RangeNode f operator v pos) = [mk_token WORD f 0, mk_token OPERATOR operator 0, value_token v True pos]"
| "render l (FreeTextNode t phrase pos) = [value_token t phrase pos]"

fun group_depth :: "nat \<Rightarrow> kql_node \<Rightarrow> nat" where
  "group_depth l (OrNode ns) = (if 0 < l then 1 else 0) + foldr max (map (group_depth 1) ns) 0"
| "group_depth l (AndNode ns) = (if 1 < l then 1 else 0) + foldr max (map (group_depth 2) ns) 0"
| "group_depth l (NotNode n) = group_depth 2 n"
| "group_depth l (MatchNode f v phrase pos) = 0"
| "group_depth l (RangeNode f operator v pos) = 0"
| "group_depth l (FreeTextNode t phrase pos) = 0"

definition plain_word :: "string \<Rightarrow> bool" where
  "plain_word w = (py_lower w \<notin> {KEYWORD_AND, KEYWORD_OR, KEYWORD_NOT})"

fun kql_wf :: "kql_node \<Rightarrow> bool" where
  "kql_wf (OrNode ns) = (2 \<le> length ns \<and> (\<forall>n \<in> set ns. kql_wf n))"
| "kql_wf (AndNode ns) = (2 \<le> length ns \<and> (\<forall>n \<in> set ns. kql_wf n))"
| "kql_wf (NotNode n) = kql_wf n"
| "kql_wf (MatchNode f v phrase pos) = plain_word f"
| "kql_wf (RangeNode f operator v pos) = plain_word f"
| "kql_wf (FreeTextNode t phrase pos) = (phrase \<or> plain_word t)"

definition follow :: "string list \<Rightarrow> kql_token list \<Rightarrow> bool" where
  "follow kws rest = (rest \<noteq> [] \<and> tk_kind (hd rest) \<noteq> COLON \<and> tk_kind (hd rest) \<noteq> OPERATOR \<and>
     keyword (hd rest) \<notin> set kws)"

abbreviation (input) "at_state ts d \<equiv> \<lparr>ps_rest = ts, ps_depth = d\<rparr>"

definition parses_or :: "kql_node \<Rightarrow> bool" where
  "parses_or n = (\<forall>fuel rest d. group_depth 0 n + d \<le> max_group_depth \<longrightarrow>
     follow [KEYWORD_OR, KEYWORD_AND] rest \<longrightarrow> 4 * length (render 0 n @ rest) + 4 \<le> fuel \<longrightarrow>
     parse_or fuel (at_state (render 0 n @ rest) d) = Return (n, at_state rest d))"

definition parses_and :: "kql_node \<Rightarrow> bool" where
  "parses_and n = (\<forall>fuel rest d. group_depth 1 n + d \<le> max_group_depth \<longrightarrow>
     follow [KEYWORD_AND] rest \<longrightarrow> 4 * length (render 1 n @ rest) + 3 \<le> fuel \<longrightarrow>
     parse_and fuel (at_state (render 1 n @ rest) d) = Return (n, at_state rest d))"

definition parses_not :: "kql_node \<Rightarrow> bool" where
  "parses_not n = (\<forall>fuel rest d. group_depth 2 n + d \<le> max_group_depth \<longrightarrow>
     follow [] rest \<longrightarrow> 4 * length (render 2 n @ rest) + 2 \<le> fuel \<longrightarrow>
     parse_not fuel (at_state (render 2 n @ rest) d) = Return (n, at_state rest d))"

lemma peek_at [simp]: "peek (at_state (t # ts) d) = t"
  by (simp add: peek_def)

lemma peek_follow: "follow kws rest \<Longrightarrow> peek (at_state rest d) = hd rest"
  by (cases rest) (auto simp: follow_def)

lemma advance_at [simp]: "tk_kind t \<noteq> END \<Longrightarrow> advance (at_state (t # ts) d) = at_state ts d"
  by (simp add: advance_def)

lemma mk_token_sel [simp]:
  "tk_kind (mk_token k v p) = k" "tk_value (mk_token k v p) = v" "tk_position (mk_token k v p) = p"
  by (simp_all add: mk_token_def)

lemma keyword_mk [simp]:
  "keyword (mk_token WORD w p) = py_lower w" "k \<noteq> WORD \<Longrightarrow> keyword (mk_token k v p) = []"
  by (simp_all add: keyword_def)

lemma follow_mono: "follow kws rest \<Longrightarrow> set kws' \<subseteq> set kws \<Longrightarrow> follow kws' rest"
  by (auto simp: follow_def)

lemma lower_keywords [simp]:
  "py_lower KEYWORD_AND = KEYWORD_AND" "py_lower KEYWORD_OR = KEYWORD_OR" "py_lower KEYWORD_NOT = KEYWORD_NOT"
  by (simp_all add: py_defs)

lemma parses_and_of_not:
  assumes "parses_not n" "render 1 n = render 2 n" "group_depth 1 n = group_depth 2 n"
  shows "parses_and n"
  unfolding parses_and_def
proof (intro allI impI)
  fix fuel rest d
  assume d: "group_depth 1 n + d \<le> max_group_depth" and f: "follow [KEYWORD_AND] rest"
    and fu: "4 * length (render 1 n @ rest) + 3 \<le> fuel"
  then obtain k where k: "fuel = Suc (Suc k)" by (cases fuel; cases "fuel - 1") auto
  have "parse_not (Suc k) (at_state (render 1 n @ rest) d) = Return (n, at_state rest d)"
    using assms d fu follow_mono[OF f, of "[]"] by (simp add: parses_not_def k del: parse_not.simps)
  moreover have "parse_and_loop (Suc k) [n] (at_state rest d) = Return ([n], at_state rest d)"
    using f by (simp add: peek_follow[OF f]) (simp add: follow_def)
  ultimately show "parse_and fuel (at_state (render 1 n @ rest) d) = Return (n, at_state rest d)"
    by (simp add: k single_or_def del: parse_not.simps parse_and_loop.simps)
qed

lemma parses_or_of_and:
  assumes "parses_and n" "render 0 n = render 1 n" "group_depth 0 n = group_depth 1 n"
  shows "parses_or n"
  unfolding parses_or_def
proof (intro allI impI)
  fix fuel rest d
  assume d: "group_depth 0 n + d \<le> max_group_depth" and f: "follow [KEYWORD_OR, KEYWORD_AND] rest"
    and fu: "4 * length (render 0 n @ rest) + 4 \<le> fuel"
  then obtain k where k: "fuel = Suc (Suc k)" by (cases fuel; cases "fuel - 1") auto
  have "parse_and (Suc k) (at_state (render 0 n @ rest) d) = Return (n, at_state rest d)"
    using assms d fu follow_mono[OF f, of "[KEYWORD_AND]"] by (simp add: parses_and_def k del: parse_and.simps)
  moreover have "parse_or_loop (Suc k) [n] (at_state rest d) = Return ([n], at_state rest d)"
    using f by (simp add: peek_follow[OF f]) (simp add: follow_def)
  ultimately show "parse_or fuel (at_state (render 0 n @ rest) d) = Return (n, at_state rest d)"
    by (simp add: k single_or_def del: parse_and.simps parse_or_loop.simps)
qed

lemma parses_not_of_or:
  assumes or: "parses_or n" and r: "render 2 n = paren True (render 0 n)"
    and g: "group_depth 2 n = Suc (group_depth 0 n)"
  shows "parses_not n"
  unfolding parses_not_def
proof (intro allI impI)
  fix fuel rest d
  assume d: "group_depth 2 n + d \<le> max_group_depth" and f: "follow [] rest"
    and fu: "4 * length (render 2 n @ rest) + 2 \<le> fuel"
  then obtain k where k: "fuel = Suc (Suc k)" by (cases fuel; cases "fuel - 1") auto
  let ?rp = "mk_token RPAREN '')'' 0"
  have "follow [KEYWORD_OR, KEYWORD_AND] (?rp # rest)" by (simp add: follow_def)
  then have "parse_or k (at_state (render 0 n @ ?rp # rest) (Suc d)) = Return (n, at_state (?rp # rest) (Suc d))"
    using or d fu unfolding parses_or_def r g k by (simp add: paren_def)
  then show "parse_not fuel (at_state (render 2 n @ rest) d) = Return (n, at_state rest d)"
    using d unfolding r g k by (simp add: paren_def)
qed


lemma foldr_max_ge: "x \<in> set xs \<Longrightarrow> x \<le> foldr max xs (0::nat)"
  by (induction xs) auto

definition tails :: "string \<Rightarrow> nat \<Rightarrow> kql_node list \<Rightarrow> kql_token list" where
  "tails kw l ns = concat (map (\<lambda>n. kw_token kw # render l n) ns)"

lemma tails_simps [simp]:
  "tails kw l [] = []" "tails kw l (n # ns) = kw_token kw # render l n @ tails kw l ns"
  by (simp_all add: tails_def)

lemma join_kw_map: "join_kw kw (map (render l) (n # ns)) = render l n @ tails kw l ns"
  by (simp add: tails_def comp_def)

lemma follow_tails:
  "follow kws rest \<Longrightarrow> py_lower kw \<notin> set kws \<Longrightarrow> follow kws (tails kw l ns @ rest)"
  by (cases ns) (auto simp: follow_def kw_token_def)

lemma and_loop_parses:
  assumes "\<forall>n \<in> set ns. parses_not n \<and> group_depth 2 n + d \<le> max_group_depth"
    and f: "follow [KEYWORD_AND] rest"
    and fu: "4 * length (tails KEYWORD_AND 2 ns @ rest) + 3 \<le> fuel"
  shows "parse_and_loop fuel acc (at_state (tails KEYWORD_AND 2 ns @ rest) d) = Return (acc @ ns, at_state rest d)"
  using assms
proof (induction ns arbitrary: acc fuel)
  case Nil
  then obtain k where k: "fuel = Suc k" by (cases fuel) auto
  show ?case using f by (simp add: k peek_follow[OF f]) (simp add: follow_def)
next
  case (Cons n ns)
  then obtain k where k: "fuel = Suc k" by (cases fuel) auto
  have f2: "follow [] (tails KEYWORD_AND 2 ns @ rest)"
    by (rule follow_tails[OF follow_mono[OF f]]) auto
  have p: "parse_not k (at_state (render 2 n @ tails KEYWORD_AND 2 ns @ rest) d)
      = Return (n, at_state (tails KEYWORD_AND 2 ns @ rest) d)"
    using Cons.prems(1,3) f2 by (simp add: parses_not_def k)
  have l: "parse_and_loop k (acc @ [n]) (at_state (tails KEYWORD_AND 2 ns @ rest) d)
      = Return ((acc @ [n]) @ ns, at_state rest d)"
    by (rule Cons.IH) (use Cons.prems k f in auto)
  show ?case using p l by (simp add: k kw_token_def)
qed

lemma or_loop_parses:
  assumes "\<forall>n \<in> set ns. parses_and n \<and> group_depth 1 n + d \<le> max_group_depth"
    and f: "follow [KEYWORD_OR, KEYWORD_AND] rest"
    and fu: "4 * length (tails KEYWORD_OR 1 ns @ rest) + 4 \<le> fuel"
  shows "parse_or_loop fuel acc (at_state (tails KEYWORD_OR 1 ns @ rest) d) = Return (acc @ ns, at_state rest d)"
  using assms
proof (induction ns arbitrary: acc fuel)
  case Nil
  then obtain k where k: "fuel = Suc k" by (cases fuel) auto
  show ?case using f by (simp add: k peek_follow[OF f]) (simp add: follow_def)
next
  case (Cons n ns)
  then obtain k where k: "fuel = Suc k" by (cases fuel) auto
  have f2: "follow [KEYWORD_AND] (tails KEYWORD_OR 1 ns @ rest)"
    by (rule follow_tails[OF follow_mono[OF f]]) auto
  have p: "parse_and k (at_state (render 1 n @ tails KEYWORD_OR 1 ns @ rest) d)
      = Return (n, at_state (tails KEYWORD_OR 1 ns @ rest) d)"
    using Cons.prems(1,3) f2 by (simp add: parses_and_def k)
  have l: "parse_or_loop k (acc @ [n]) (at_state (tails KEYWORD_OR 1 ns @ rest) d)
      = Return ((acc @ [n]) @ ns, at_state rest d)"
    by (rule Cons.IH) (use Cons.prems k f in auto)
  show ?case using p l by (simp add: k kw_token_def)
qed

lemma render_nonempty: "kql_wf n \<Longrightarrow> render l n \<noteq> []"
proof (induction n arbitrary: l)
  case (AndNode ns)
  then show ?case by (cases ns) (auto simp: paren_def)
next
  case (OrNode ns)
  then show ?case by (cases ns) (auto simp: paren_def)
qed auto

lemma parses_and_AndNode:
  assumes ns: "\<forall>n \<in> set ns. parses_not n \<and> kql_wf n" and len: "2 \<le> length ns"
  shows "parses_and (AndNode ns)"
  unfolding parses_and_def
proof (intro allI impI)
  fix fuel rest d
  assume d: "group_depth 1 (AndNode ns) + d \<le> max_group_depth" and f: "follow [KEYWORD_AND] rest"
    and fu: "4 * length (render 1 (AndNode ns) @ rest) + 3 \<le> fuel"
  from len obtain n ms where nms: "ns = n # ms" and ms: "ms \<noteq> []" by (cases ns; cases "tl ns") auto
  from fu obtain k where k: "fuel = Suc k" by (cases fuel) auto
  have g: "\<forall>m \<in> set ns. group_depth 2 m + d \<le> max_group_depth"
  proof
    fix m assume "m \<in> set ns"
    then have "group_depth 2 m \<le> foldr max (map (group_depth 2) ns) 0" by (intro foldr_max_ge) simp
    with d show "group_depth 2 m + d \<le> max_group_depth" by simp
  qed
  have r: "render 1 (AndNode ns) = render 2 n @ tails KEYWORD_AND 2 ms"
    by (simp only: nms render.simps join_kw_map) (simp add: paren_def)
  have f2: "follow [] (tails KEYWORD_AND 2 ms @ rest)"
    by (rule follow_tails[OF follow_mono[OF f]]) auto
  have p: "parse_not k (at_state (render 2 n @ tails KEYWORD_AND 2 ms @ rest) d)
      = Return (n, at_state (tails KEYWORD_AND 2 ms @ rest) d)"
    using ns g fu f2 unfolding r k by (simp add: parses_not_def nms)
  have l: "parse_and_loop k [n] (at_state (tails KEYWORD_AND 2 ms @ rest) d) = Return ([n] @ ms, at_state rest d)"
  proof (rule and_loop_parses[OF _ f])
    have "0 < length (render 2 n)" using ns render_nonempty[of n 2] by (simp add: nms)
    with fu show "4 * length (tails KEYWORD_AND 2 ms @ rest) + 3 \<le> k"
      unfolding r k length_append by presburger
  qed (use ns g in \<open>simp add: nms\<close>)
  show "parse_and fuel (at_state (render 1 (AndNode ns) @ rest) d) = Return (AndNode ns, at_state rest d)"
    using p l ms unfolding r by (simp add: k nms single_or_def)
qed

lemma parses_or_OrNode:
  assumes ns: "\<forall>n \<in> set ns. parses_and n \<and> kql_wf n" and len: "2 \<le> length ns"
  shows "parses_or (OrNode ns)"
  unfolding parses_or_def
proof (intro allI impI)
  fix fuel rest d
  assume d: "group_depth 0 (OrNode ns) + d \<le> max_group_depth" and f: "follow [KEYWORD_OR, KEYWORD_AND] rest"
    and fu: "4 * length (render 0 (OrNode ns) @ rest) + 4 \<le> fuel"
  from len obtain n ms where nms: "ns = n # ms" and ms: "ms \<noteq> []" by (cases ns; cases "tl ns") auto
  from fu obtain k where k: "fuel = Suc k" by (cases fuel) auto
  have g: "\<forall>m \<in> set ns. group_depth 1 m + d \<le> max_group_depth"
  proof
    fix m assume "m \<in> set ns"
    then have "group_depth 1 m \<le> foldr max (map (group_depth 1) ns) 0" by (intro foldr_max_ge) simp
    with d show "group_depth 1 m + d \<le> max_group_depth" by simp
  qed
  have r: "render 0 (OrNode ns) = render 1 n @ tails KEYWORD_OR 1 ms"
    by (simp only: nms render.simps join_kw_map) (simp add: paren_def)
  have f2: "follow [KEYWORD_AND] (tails KEYWORD_OR 1 ms @ rest)"
    by (rule follow_tails[OF follow_mono[OF f]]) auto
  have p: "parse_and k (at_state (render 1 n @ tails KEYWORD_OR 1 ms @ rest) d)
      = Return (n, at_state (tails KEYWORD_OR 1 ms @ rest) d)"
    using ns g fu f2 unfolding r k by (simp add: parses_and_def nms)
  have l: "parse_or_loop k [n] (at_state (tails KEYWORD_OR 1 ms @ rest) d) = Return ([n] @ ms, at_state rest d)"
  proof (rule or_loop_parses[OF _ f])
    have "0 < length (render 1 n)" using ns render_nonempty[of n 1] by (simp add: nms)
    with fu show "4 * length (tails KEYWORD_OR 1 ms @ rest) + 4 \<le> k"
      unfolding r k length_append by presburger
  qed (use ns g in \<open>simp add: nms\<close>)
  show "parse_or fuel (at_state (render 0 (OrNode ns) @ rest) d) = Return (OrNode ns, at_state rest d)"
    using p l ms unfolding r by (simp add: k nms single_or_def)
qed

lemma parses_not_NotNode: "parses_not n \<Longrightarrow> parses_not (NotNode n)"
  unfolding parses_not_def
proof (intro allI impI)
  fix fuel rest d
  assume n: "\<forall>fuel rest d. group_depth 2 n + d \<le> max_group_depth \<longrightarrow> follow [] rest \<longrightarrow>
      4 * length (render 2 n @ rest) + 2 \<le> fuel \<longrightarrow>
      parse_not fuel (at_state (render 2 n @ rest) d) = Return (n, at_state rest d)"
    and d: "group_depth 2 (NotNode n) + d \<le> max_group_depth" and f: "follow [] rest"
    and fu: "4 * length (render 2 (NotNode n) @ rest) + 2 \<le> fuel"
  then obtain k where k: "fuel = Suc k" by (cases fuel) auto
  have "parse_not k (at_state (render 2 n @ rest) d) = Return (n, at_state rest d)"
    using n d f fu by (simp add: k)
  then show "parse_not fuel (at_state (render 2 (NotNode n) @ rest) d) = Return (NotNode n, at_state rest d)"
    by (simp add: k kw_token_def)
qed

fun is_leaf :: "kql_node \<Rightarrow> bool" where
  "is_leaf (MatchNode f v phrase pos) = True"
| "is_leaf (RangeNode f operator v pos) = True"
| "is_leaf (FreeTextNode t phrase pos) = True"
| "is_leaf _ = False"

lemma parses_not_leaf:
  assumes wf: "kql_wf n" and leaf: "is_leaf n"
  shows "parses_not n"
  unfolding parses_not_def
proof (intro allI impI)
  fix fuel rest d
  assume f: "follow [] rest" and fu: "4 * length (render 2 n @ rest) + 2 \<le> fuel"
  then obtain k where k: "fuel = Suc (Suc k)" by (cases fuel; cases "fuel - 1") auto
  have pf: "peek (at_state rest d) = hd rest" by (rule peek_follow[OF f])
  have h: "tk_kind (hd rest) \<noteq> COLON" "tk_kind (hd rest) \<noteq> OPERATOR"
    using f by (auto simp: follow_def)
  show "parse_not fuel (at_state (render 2 n @ rest) d) = Return (n, at_state rest d)"
  proof (cases n)
    case (MatchNode f v phrase pos)
    with wf show ?thesis
      by (simp add: k value_token_def plain_word_def Let_def parse_field_value_def)
  next
    case (RangeNode f operator v pos)
    with wf show ?thesis
      by (simp add: k value_token_def plain_word_def Let_def expect_value_def)
  next
    case (FreeTextNode t phrase pos)
    with wf show ?thesis
      by (cases phrase) (simp_all add: k value_token_def plain_word_def Let_def pf h)
  qed (use leaf in simp_all)
qed

lemma parses_levels:
  assumes "parses_not n" "render 1 n = render 2 n" "group_depth 1 n = group_depth 2 n"
    "render 0 n = render 1 n" "group_depth 0 n = group_depth 1 n"
  shows "parses_or n \<and> parses_and n \<and> parses_not n"
  using parses_and_of_not[OF assms(1-3)] parses_or_of_and[OF _ assms(4,5)] assms(1) by blast

lemma parses_all: "kql_wf n \<Longrightarrow> parses_or n \<and> parses_and n \<and> parses_not n"
proof (induction n)
  case (AndNode ns)
  then have a: "parses_and (AndNode ns)" by (intro parses_and_AndNode) auto
  then have o: "parses_or (AndNode ns)" by (intro parses_or_of_and) (simp_all add: paren_def)
  then have "parses_not (AndNode ns)" by (intro parses_not_of_or) (simp_all add: paren_def)
  with a o show ?case by blast
next
  case (OrNode ns)
  then have o: "parses_or (OrNode ns)" by (intro parses_or_OrNode) auto
  then have n: "parses_not (OrNode ns)" by (intro parses_not_of_or) (simp_all add: paren_def)
  then have "parses_and (OrNode ns)" by (intro parses_and_of_not) (simp_all add: paren_def)
  with o n show ?case by blast
next
  case (NotNode n)
  then have "parses_not (NotNode n)" by (auto intro: parses_not_NotNode)
  then show ?case by (rule parses_levels) simp_all
qed (rule parses_levels[OF parses_not_leaf]; simp)+

section \<open>The compiled query\<close>

text \<open>The leaf clauses of a compiled query: operator and body.\<close>

fun query_clauses :: "pyval \<Rightarrow> (string \<times> pyval) list"
  and clauses_list :: "pyval list \<Rightarrow> (string \<times> pyval) list" where
  "query_clauses (PDict [(operator, PDict ((k, PList qs) # rest))]) =
     (if operator = ''bool'' then clauses_list qs else [(operator, PDict ((k, PList qs) # rest))])"
| "query_clauses (PDict [(operator, body)]) = [(operator, body)]"
| "query_clauses _ = []"
| "clauses_list [] = []"
| "clauses_list (q # qs) = query_clauses q @ clauses_list qs"

definition allowed_field :: "kql_config \<Rightarrow> string \<Rightarrow> bool" where
  "allowed_field cfg f = (dict_get (kc_field_types cfg) f \<noteq> None \<or>
     py_startswith f extra_field_prefix \<and> length extra_field_prefix < length f)"

definition clause_allowed :: "kql_config \<Rightarrow> string \<times> pyval \<Rightarrow> bool" where
  "clause_allowed cfg c = (case c of (operator, body) \<Rightarrow>
     if operator = ''exists'' then (\<exists>f. body = PDict [(''field'', PStr f)] \<and> allowed_field cfg f)
     else if operator = ''wildcard'' then
       (\<exists>f v. body = PDict [(f, PDict [(''value'', PStr v), (''case_insensitive'', PBool True)])] \<and>
          allowed_field cfg f \<and> v \<noteq> [] \<and> \<not> is_wildcard_char (hd v))
     else if operator = ''simple_query_string'' then
       (\<exists>q. body = PDict [(''query'', PStr q), (''fields'', PList (map PStr (kc_free_text_fields cfg))),
                       (''default_operator'', PStr ''and''), (''lenient'', PBool True)])
     else operator \<in> {''term'', ''match'', ''match_phrase'', ''range''} \<and>
       (\<exists>f b. body = PDict [(f, b)] \<and> allowed_field cfg f))"

lemma resolve_allowed: "resolve_field_type cfg f = Inr ty \<Longrightarrow> allowed_field cfg f"
  by (auto simp: resolve_field_type_def allowed_field_def split: option.splits if_splits)

text \<open>What one step of the compiler does to its state, and what the clauses it adds look like.\<close>

definition compile_ok :: "kql_config \<Rightarrow> kql_compiler \<Rightarrow> kql_compiler \<Rightarrow> (string \<times> pyval) list \<Rightarrow> bool" where
  "compile_ok cfg st st' cs =
     (cc_clause_count st' = cc_clause_count st + int (length cs) \<and>
      (cc_clause_count st \<le> kc_max_clauses cfg \<longrightarrow> cc_clause_count st' \<le> kc_max_clauses cfg) \<and>
      (\<forall>c \<in> set cs. clause_allowed cfg c) \<and>
      (cc_has_wildcard st' \<longleftrightarrow> cc_has_wildcard st \<or> (\<exists>c \<in> set cs. fst c = ''wildcard'')))"

lemma compile_ok_trans:
  "compile_ok cfg st st' cs \<Longrightarrow> compile_ok cfg st' st'' ds \<Longrightarrow> compile_ok cfg st st'' (cs @ ds)"
  by (auto simp: compile_ok_def)

lemma compile_ok_Nil: "compile_ok cfg st st []"
  by (simp add: compile_ok_def)

lemma count_clause_Inr:
  "count_clause cfg st = Inr st' \<longleftrightarrow>
     st' = st\<lparr>cc_clause_count := cc_clause_count st + 1\<rparr> \<and> cc_clause_count st + 1 \<le> kc_max_clauses cfg"
  by (auto simp: count_clause_def Let_def)

lemma leaf_clauses:
  "operator \<noteq> ''bool'' \<Longrightarrow> query_clauses (PDict [(operator, PDict [(f, b)])]) = [(operator, PDict [(f, b)])]"
  "operator \<noteq> ''bool'' \<Longrightarrow>
     query_clauses (PDict [(operator, PDict ((k, PStr t) # r))]) = [(operator, PDict ((k, PStr t) # r))]"
  by (cases b; simp) simp

lemma clause_allowed_field:
  "operator \<in> {''term'', ''match'', ''match_phrase'', ''range''} \<Longrightarrow> allowed_field cfg f \<Longrightarrow>
   clause_allowed cfg (operator, PDict [(f, b)])"
  by (auto simp: clause_allowed_def)

lemma clause_allowed_exists: "allowed_field cfg f \<Longrightarrow> clause_allowed cfg (''exists'', PDict [(''field'', PStr f)])"
  by (simp add: clause_allowed_def)

lemma clause_allowed_wildcard:
  "allowed_field cfg f \<Longrightarrow> v \<noteq> [] \<Longrightarrow> \<not> is_wildcard_char (hd v) \<Longrightarrow>
   clause_allowed cfg (''wildcard'', PDict [(f, PDict [(''value'', PStr v), (''case_insensitive'', PBool True)])])"
  by (simp add: clause_allowed_def)

lemma clause_allowed_text:
  "clause_allowed cfg (''simple_query_string'',
     PDict [(''query'', PStr q), (''fields'', PList (map PStr (kc_free_text_fields cfg))),
            (''default_operator'', PStr ''and''), (''lenient'', PBool True)])"
  by (simp add: clause_allowed_def)

lemmas clause_allowed_intros =
  clause_allowed_field clause_allowed_exists clause_allowed_wildcard clause_allowed_text

lemma compile_ok_leaf:
  assumes "count_clause cfg st = Inr st1" "clause_allowed cfg (operator, body)"
    and "cc_clause_count st' = cc_clause_count st1"
    and "cc_has_wildcard st' \<longleftrightarrow> cc_has_wildcard st1 \<or> operator = ''wildcard''"
  shows "compile_ok cfg st st' [(operator, body)]"
  using assms by (auto simp: compile_ok_def count_clause_Inr)

lemma compile_exact_match_ok:
  assumes "count_clause cfg st = Inr st1" "allowed_field cfg f"
    and "compile_exact_match ty f v phrase st1 = Inr (q, st')"
  shows "compile_ok cfg st st' (query_clauses q)"
proof -
  obtain operator b where "q = PDict [(operator, PDict [(f, b)])]" "st' = st1"
    and "operator \<in> {''term'', ''match'', ''match_phrase''}"
    using assms(3) by (auto simp: compile_exact_match_def bind_simps split: if_splits)
  moreover from this(3) have "operator \<noteq> ''bool''" "operator \<noteq> ''wildcard''" by auto
  ultimately show ?thesis
    by (auto simp: leaf_clauses intro!: compile_ok_leaf[OF assms(1)] clause_allowed_field assms(2))
qed

lemma compile_match_ok:
  assumes "compile_match cfg f v phrase st = Inr (q, st')"
  shows "compile_ok cfg st st' (query_clauses q)"
proof -
  from assms obtain ty st1 where r: "resolve_field_type cfg f = Inr ty" and c: "count_clause cfg st = Inr st1"
    unfolding compile_match_def bind_simps by blast
  note f = resolve_allowed[OF r]
  note m = assms[unfolded compile_match_def r c ebind_simps]
  show ?thesis
  proof (cases "\<not> phrase \<and> v = ''*''")
    case True
    with m have "q = PDict [(''exists'', PDict [(''field'', PStr f)])]" "st' = st1" by simp_all
    then show ?thesis by (auto simp: leaf_clauses intro!: compile_ok_leaf[OF c] clause_allowed_exists f)
  next
    case no_star: False
    show ?thesis
    proof (cases "\<not> phrase \<and> list_ex is_wildcard_char v")
      case True
      then have "v \<noteq> []" by (cases v) auto
      moreover have "\<not> is_wildcard_char (hd v)"
        and "q = PDict [(''wildcard'', PDict [(f, PDict [(''value'', PStr v), (''case_insensitive'', PBool True)])])]"
        and "st' = st1\<lparr>cc_has_wildcard := True\<rparr>"
        using m no_star True by (simp_all split: if_split_asm)
      ultimately show ?thesis
        by (auto simp: leaf_clauses intro!: compile_ok_leaf[OF c] clause_allowed_wildcard f)
    next
      case False
      with m no_star have "compile_exact_match ty f v phrase st1 = Inr (q, st')" by simp
      then show ?thesis by (rule compile_exact_match_ok[OF c f])
    qed
  qed
qed

lemma compile_range_ok:
  assumes "compile_range cfg f operator v st = Inr (q, st')"
  shows "compile_ok cfg st st' (query_clauses q)"
proof -
  from assms obtain ty st1 where r: "resolve_field_type cfg f = Inr ty" and c: "count_clause cfg st = Inr st1"
    unfolding compile_range_def bind_simps by blast
  note f = resolve_allowed[OF r]
  obtain b where q: "q = PDict [(''range'', PDict [(f, b)])]"
    and s: "cc_clause_count st' = cc_clause_count st1" "cc_has_wildcard st' = cc_has_wildcard st1"
    using assms by (auto simp: compile_range_def r c bind_simps Let_def split: if_splits)
  show ?thesis
    unfolding q by (auto simp: leaf_clauses s intro!: compile_ok_leaf[OF c] clause_allowed_field f)
qed

lemma compile_free_text_ok:
  assumes "compile_free_text cfg t phrase st = Inr (q, st')"
  shows "compile_ok cfg st st' (query_clauses q)"
proof -
  obtain st1 u where c: "count_clause cfg st = Inr st1" and s: "st' = st1"
    and q: "q = PDict [(''simple_query_string'',
       PDict [(''query'', PStr u), (''fields'', PList (map PStr (kc_free_text_fields cfg))),
              (''default_operator'', PStr ''and''), (''lenient'', PBool True)])]"
    using assms by (auto simp: compile_free_text_def bind_simps Let_def split: if_splits)
  show ?thesis
    unfolding q by (auto simp: leaf_clauses s intro!: compile_ok_leaf[OF c] clause_allowed_text)
qed

lemma compile_node_ok:
  "compile_node cfg n st = Inr (q, st') \<Longrightarrow> compile_ok cfg st st' (query_clauses q)"
  "compile_nodes cfg ns st = Inr (qs, st') \<Longrightarrow> compile_ok cfg st st' (clauses_list qs)"
proof (induction cfg n st and cfg ns st arbitrary: q st' and qs st' rule: compile_node_compile_nodes.induct)
  case (8 cfg n ns st)
  then show ?case by (fastforce simp: bind_simps intro: compile_ok_trans)
qed (auto simp: bind_simps compile_ok_Nil dest: compile_match_ok compile_range_ok compile_free_text_ok)

section \<open>What the tokenizer returns\<close>

definition token_ok :: "string \<Rightarrow> kql_token \<Rightarrow> bool" where
  "token_ok s t = (tk_kind t \<noteq> END \<and> tk_position t < length s \<and>
     (tk_kind t = WORD \<longrightarrow> tk_value t \<noteq> [] \<and>
        (\<forall>c \<in> set (tk_value t). \<not> py_isspace c \<and> c \<notin> set word_break_chars)))"

definition tokens_inv :: "string \<Rightarrow> nat \<Rightarrow> kql_token list \<Rightarrow> bool" where
  "tokens_inv s index ts = ((\<forall>t \<in> set ts. token_ok s t \<and> tk_position t < index) \<and>
     sorted_wrt (<) (map tk_position ts))"

lemma tokens_inv_snoc:
  "tokens_inv s index ts \<Longrightarrow> tk_position t = index \<Longrightarrow> token_ok s t \<Longrightarrow> index < j \<Longrightarrow>
   tokens_inv s j (ts @ [t])"
  by (force simp: tokens_inv_def sorted_wrt_append)

lemma tokens_inv_mono: "tokens_inv s index ts \<Longrightarrow> index \<le> j \<Longrightarrow> tokens_inv s j ts"
  by (force simp: tokens_inv_def)

lemma word_end_chars:
  "index \<le> k \<Longrightarrow> k < word_end s index \<Longrightarrow> k < length s \<and> \<not> py_isspace (s ! k) \<and> s ! k \<notin> set word_break_chars"
proof (induction s index rule: word_end.induct)
  case (1 s index)
  then show ?case
    by (cases "k = index") (auto simp: word_end.simps[of s index] split: if_splits)
qed

lemma word_token_ok:
  assumes "index < length s" "\<not> py_isspace (s ! index)" "s ! index \<notin> set word_break_chars"
  shows "token_ok s (mk_token WORD (slice s index (word_end s index)) index)"
proof -
  have p: "index < word_end s index" using assms by (rule word_end_progress)
  have "\<not> py_isspace c \<and> c \<notin> set word_break_chars" if c: "c \<in> set (slice s index (word_end s index))" for c
  proof -
    from c obtain i where i: "i < word_end s index - index" "index + i < length s" "c = s ! (index + i)"
      by (auto simp: slice_def in_set_conv_nth)
    then show ?thesis using word_end_chars[of index "index + i" s] by simp
  qed
  moreover have "slice s index (word_end s index) \<noteq> []" using p assms(1) by (simp add: slice_def)
  ultimately show ?thesis using assms(1) by (simp add: token_ok_def)
qed

lemma tokenize_step:
  assumes i: "index < length s" and tok: "tokenize_loop s index ts = Inr toks" and inv: "tokens_inv s index ts"
  shows "\<exists>j ts'. index < j \<and> tokenize_loop s j ts' = Inr toks \<and> tokens_inv s j ts'"
proof -
  let ?c = "s ! index"
  note simps = tokenize_loop.simps[of s index ts]
  have snoc: "tokens_inv s j (ts @ [mk_token k v index])" if "index < j" "k \<noteq> END" "k \<noteq> WORD" for j k v
    by (rule tokens_inv_snoc[OF inv]) (use that i in \<open>simp_all add: token_ok_def\<close>)
  have op: "?c \<in> {CHR ''<'', CHR ''>''}" if "py_startswith_at s ''>='' index \<or> py_startswith_at s ''<='' index"
    using that i by (auto simp: py_startswith_at_def take_Cons' Cons_nth_drop_Suc[symmetric])
  have break: "\<exists>k v j. index < j \<and> k \<noteq> END \<and> k \<noteq> WORD \<and>
      tokenize_loop s j (ts @ [mk_token k v index]) = Inr toks"
    if sp: "\<not> py_isspace ?c" and br: "?c \<in> set word_break_chars"
  proof -
    let ?P = "\<lambda>k v j. index < j \<and> k \<noteq> END \<and> k \<noteq> WORD \<and> tokenize_loop s j (ts @ [mk_token k v index]) = Inr toks"
    consider "?c = CHR ''(''" | "?c = CHR '')''" | "?c = CHR '':''"
      | (op2) "?c \<in> {CHR ''<'', CHR ''>''}" "py_startswith_at s ''>='' index \<or> py_startswith_at s ''<='' index"
      | (op1) "?c \<in> {CHR ''<'', CHR ''>''}" "\<not> (py_startswith_at s ''>='' index \<or> py_startswith_at s ''<='' index)"
      | (quote) "?c = CHR 0x22" "\<not> (py_startswith_at s ''>='' index \<or> py_startswith_at s ''<='' index)"
      using br op by (auto simp: word_break_chars_def)
    then show ?thesis
    proof cases
      case 1
      with tok i sp have "?P LPAREN [?c] (index + 1)" by (simp add: simps)
      then show ?thesis by blast
    next
      case 2
      with tok i sp have "?P RPAREN [?c] (index + 1)" by (simp add: simps)
      then show ?thesis by blast
    next
      case 3
      with tok i sp have "?P COLON [?c] (index + 1)" by (simp add: simps)
      then show ?thesis by blast
    next
      case op2
      with tok i sp have "?P OPERATOR (slice s index (index + 2)) (index + 2)" by (auto simp: simps)
      then show ?thesis by blast
    next
      case op1
      with tok i sp have "?P OPERATOR [?c] (index + 1)" by (auto simp: simps)
      then show ?thesis by blast
    next
      case quote
      with tok i sp obtain v j where r: "read_phrase s index = Inr (v, j)" by (auto simp: simps split: sum.splits)
      with quote tok i sp have "?P PHRASE v j" using read_phrase_progress[OF r] by (simp add: simps)
      then show ?thesis by blast
    qed
  qed
  consider (space) "py_isspace ?c"
    | (tok) k v j where "index < j" "k \<noteq> END" "k \<noteq> WORD"
        "tokenize_loop s j (ts @ [mk_token k v index]) = Inr toks"
    | (word) "\<not> py_isspace ?c" "?c \<notin> set word_break_chars"
    using break by blast
  then show ?thesis
  proof cases
    case space
    with tok i have "tokenize_loop s (index + 1) ts = Inr toks" by (simp add: simps)
    moreover have "tokens_inv s (index + 1) ts" by (rule tokens_inv_mono[OF inv]) simp
    ultimately show ?thesis by (intro exI[of _ "index + 1"] exI[of _ ts]) simp
  next
    case tok
    with snoc show ?thesis by blast
  next
    case word
    then have "tokenize_loop s (word_end s index) (ts @ [mk_token WORD (slice s index (word_end s index)) index]) = Inr toks"
      using tok i op by (auto simp: simps Let_def word_break_chars_def split: if_splits)
    moreover have "tokens_inv s (word_end s index) (ts @ [mk_token WORD (slice s index (word_end s index)) index])"
      by (rule tokens_inv_snoc[OF inv]) (use word_token_ok[OF i word] word_end_progress[OF i word] in auto)
    ultimately show ?thesis using word_end_progress[OF i word] by blast
  qed
qed

lemma tokenize_loop_inv:
  "tokenize_loop s index ts = Inr toks \<Longrightarrow> tokens_inv s index ts \<Longrightarrow>
   \<exists>body. toks = body @ [mk_token END [] (length s)] \<and> tokens_inv s (length s) body"
proof (induction "length s - index" arbitrary: index ts rule: less_induct)
  case less
  show ?case
  proof (cases "index < length s")
    case False
    with less.prems show ?thesis
      by (auto simp: tokenize_loop.simps[of s index] tokens_inv_def token_ok_def)
  next
    case True
    then obtain j ts' where j: "index < j" "tokenize_loop s j ts' = Inr toks" "tokens_inv s j ts'"
      using tokenize_step less.prems by blast
    with True less.hyps[of j ts'] show ?thesis by auto
  qed
qed

section \<open>Properties\<close>

text \<open>
  the token list the parser reads always ends with the END token, at the length of the text,
  and holds no other END token; the other tokens have strictly increasing positions inside the
  text, and a WORD token is not empty and holds no blank and no break character.
\<close>
theorem kql_tokenize_shape:
  assumes "tokenize s = Inr toks"
  shows "\<exists>body. toks = body @ [mk_token END [] (length s)] \<and>
    (\<forall>t \<in> set body. token_ok s t) \<and> sorted_wrt (<) (map tk_position body)"
  using tokenize_loop_inv[of s 0 "[]" toks] assms by (auto simp: tokenize_def tokens_inv_def)

theorem kql_tokenize_shape_witness:
  "\<exists>body. [mk_token WORD ''a'' 0, mk_token COLON '':'' 1, mk_token WORD ''b'' 3, mk_token END [] 4]
       = body @ [mk_token END [] (length ''a: b'')] \<and>
    (\<forall>t \<in> set body. token_ok ''a: b'' t) \<and> sorted_wrt (<) (map tk_position body)"
proof -
  have "tokenize ''a: b'' =
    Inr [mk_token WORD ''a'' 0, mk_token COLON '':'' 1, mk_token WORD ''b'' 3, mk_token END [] 4]"
    by code_simp
  then show ?thesis by (rule kql_tokenize_shape)
qed

text \<open>
  C0: compiling a KQL query always ends, with a query or with an error: the fuel given to the
  recursive descent parser is enough for every token list.
\<close>
theorem kql_total: "compile_kql s field_types free_text_fields max_clauses \<noteq> Diverge"
  by (auto simp: compile_kql_def obind_Diverge_iff kql_parse_no_divergence Let_def)

text \<open>
  C0: the parser is a left inverse of the renderer: a well-formed query whose groups nest at most
  \<open>_MAX_GROUP_DEPTH\<close> deep, written with the precedence not over and over or and parentheses only
  where they are needed, is parsed back to exactly that query, positions included.
\<close>
theorem kql_round_trip:
  assumes "kql_wf n" and "group_depth 0 n \<le> max_group_depth"
  shows "kql_parse (render 0 n @ [mk_token END [] p]) = Return n"
proof -
  have "parse_or (kql_fuel (render 0 n @ [mk_token END [] p])) (at_state (render 0 n @ [mk_token END [] p]) 0)
      = Return (n, at_state [mk_token END [] p] 0)"
    using parses_all[OF assms(1)] assms(2) unfolding parses_or_def kql_fuel_def
    by (auto simp: follow_def)
  then show ?thesis by (simp add: kql_parse_def)
qed

theorem kql_round_trip_witness:
  "kql_parse (render 0 (AndNode [MatchNode ''port'' ''22'' False 5,
      NotNode (OrNode [FreeTextNode ''x'' True 9, RangeNode ''t'' ''>'' ''1'' 12])]) @ [mk_token END [] 20])
   = Return (AndNode [MatchNode ''port'' ''22'' False 5,
      NotNode (OrNode [FreeTextNode ''x'' True 9, RangeNode ''t'' ''>'' ''1'' 12])])"
  by (rule kql_round_trip) (simp_all add: plain_word_def max_group_depth_def py_defs)



end
