(* ===== verification/Py_Runtime.thy ===== *)
theory Py_Runtime
  imports Seagull_Prelude
begin

text \<open>
  The part of Python's built-ins and standard library the detection and correlation code uses on
  untyped values: \<open>str\<close>, \<open>repr\<close>, \<open>int\<close>, the text of datetimes, \<open>json.dumps\<close> with sorted keys,
  stable sorting in descending order and \<open>fnmatch.fnmatchcase\<close>. None of it is code of the
  repository; it follows the documented behaviour of Python 3.12.
\<close>

section \<open>Errors\<close>

datatype py_error = ValueError | TypeError | KeyError | IndexError | AttributeError

section \<open>Datetimes\<close>

text \<open>
  Civil date of a day number counted from 1970-01-01 in the proleptic Gregorian calendar: shift the
  epoch to 0000-03-01, split into 400-year eras, then into years of the era and days of the year.
\<close>

definition civil_of_days :: "int \<Rightarrow> int \<times> int \<times> int" where
  "civil_of_days z0 =
     (let z = z0 + 719468;
          era = z div 146097;
          doe = z mod 146097;
          yoe = (doe - doe div 1460 + doe div 36524 - doe div 146096) div 365;
          doy = doe - (365 * yoe + yoe div 4 - yoe div 100);
          mp = (5 * doy + 2) div 153;
          d = doy - (153 * mp + 2) div 5 + 1;
          m = (if mp < 10 then mp + 3 else mp - 9);
          y = yoe + era * 400 + (if m \<le> 2 then 1 else 0)
      in (y, m, d))"

definition pad_left :: "nat \<Rightarrow> string \<Rightarrow> string" where
  "pad_left n s = replicate (n - length s) (CHR ''0'') @ s"

definition zpad :: "nat \<Rightarrow> int \<Rightarrow> string" where
  "zpad n i = pad_left n (int_str i)"

text \<open>\<open>isoformat(sep)\<close> of a naive datetime: the fraction is printed only when it is not zero.\<close>

definition iso_format :: "string \<Rightarrow> int \<Rightarrow> string" where
  "iso_format sep t =
     (let us = t mod 1000000; secs = t div 1000000; day = secs div 86400; sod = secs mod 86400 in
      case civil_of_days day of (y, m, d) \<Rightarrow>
        zpad 4 y @ ''-'' @ zpad 2 m @ ''-'' @ zpad 2 d @ sep @
        zpad 2 (sod div 3600) @ '':'' @ zpad 2 (sod div 60 mod 60) @ '':'' @ zpad 2 (sod mod 60) @
        (if us = 0 then [] else ''.'' @ zpad 6 us))"

definition repr_time :: "int \<Rightarrow> string" where
  "repr_time t =
     (let us = t mod 1000000; secs = t div 1000000; day = secs div 86400; sod = secs mod 86400 in
      case civil_of_days day of (y, m, d) \<Rightarrow>
        ''datetime.datetime('' @
        py_join '', '' (map int_str ([y, m, d, sod div 3600, sod div 60 mod 60] @
          (if us \<noteq> 0 then [sod mod 60, us] else if sod mod 60 \<noteq> 0 then [sod mod 60] else []))) @ '')'')"

section \<open>str, repr and int\<close>

definition hex_digit :: "nat \<Rightarrow> char" where
  "hex_digit n = char_of (if n < 10 then 48 + n else 87 + n)"

definition hex2 :: "nat \<Rightarrow> string" where
  "hex2 n = [hex_digit (n div 16 mod 16), hex_digit (n mod 16)]"

definition repr_char :: "char \<Rightarrow> char \<Rightarrow> string" where
  "repr_char q c =
     (let n = code_point c in
      if c = q \<or> c = CHR 0x5C then [CHR 0x5C, c]
      else if n = 9 then [CHR 0x5C, CHR ''t'']
      else if n = 10 then [CHR 0x5C, CHR ''n'']
      else if n = 13 then [CHR 0x5C, CHR ''r'']
      else if n < 32 \<or> 127 \<le> n \<and> n \<le> 160 \<or> n = 173 then [CHR 0x5C, CHR ''x''] @ hex2 n
      else [c])"

definition repr_str :: "string \<Rightarrow> string" where
  "repr_str s =
     (let q = (if CHR 0x27 \<in> set s \<and> CHR 0x22 \<notin> set s then CHR 0x22 else CHR 0x27)
      in [q] @ concat (map (repr_char q) s) @ [q])"

fun py_repr :: "pyval \<Rightarrow> string" where
  "py_repr PNone = ''None''"
| "py_repr (PBool b) = (if b then ''True'' else ''False'')"
| "py_repr (PInt i) = int_str i"
| "py_repr (PStr s) = repr_str s"
| "py_repr (PTime t) = repr_time t"
| "py_repr (PList xs) = ''['' @ py_join '', '' (map py_repr xs) @ '']''"
| "py_repr (PDict kvs) =
     ''{'' @ py_join '', '' (map (\<lambda>(k, v). repr_str k @ '': '' @ py_repr v) kvs) @ ''}''"

fun py_str :: "pyval \<Rightarrow> string" where
  "py_str (PStr s) = s"
| "py_str (PTime t) = iso_format '' '' t"
| "py_str v = py_repr v"

text \<open>\<open>v or w\<close>, and \<open>str(v or w)\<close> with a text default.\<close>

definition py_or :: "pyval \<Rightarrow> pyval \<Rightarrow> pyval" where
  "py_or v w = (if truthy v then v else w)"

definition str_or :: "pyval \<Rightarrow> string \<Rightarrow> string" where
  "str_or v d = py_str (py_or v (PStr d))"

fun int_of_py :: "pyval \<Rightarrow> py_error + int" where
  "int_of_py (PInt i) = Inr i"
| "int_of_py (PBool b) = Inr (if b then 1 else 0)"
| "int_of_py (PStr s) = (case py_int s of Some i \<Rightarrow> Inr i | None \<Rightarrow> Inl ValueError)"
| "int_of_py _ = Inl TypeError"

text \<open>\<open>int(v or d)\<close> for an integer default.\<close>

definition int_or :: "pyval \<Rightarrow> int \<Rightarrow> py_error + int" where
  "int_or v d = int_of_py (py_or v (PInt d))"

lemma int_or_falsy [simp]: "\<not> truthy v \<Longrightarrow> int_or v d = Inr d"
  by (simp add: int_or_def py_or_def)

lemma str_or_PStr [simp]: "str_or (PStr s) d = (if s = [] then d else s)"
  by (simp add: str_or_def py_or_def)

text \<open>\<open>d.get(k)\<close> on a dictionary whose values are untyped: \<open>None\<close> when the key is missing.\<close>

definition pget :: "(string \<times> pyval) list \<Rightarrow> string \<Rightarrow> pyval" where
  "pget d k = (case dict_get d k of None \<Rightarrow> PNone | Some v \<Rightarrow> v)"

text \<open>A value used as a list, and as a dictionary, where the code writes \<open>v or []\<close> and \<open>v or {}\<close>.\<close>

fun list_or_empty :: "pyval \<Rightarrow> pyval list" where
  "list_or_empty (PList xs) = xs"
| "list_or_empty _ = []"

fun dict_or_empty :: "pyval \<Rightarrow> (string \<times> pyval) list" where
  "dict_or_empty (PDict d) = d"
| "dict_or_empty _ = []"

text \<open>\<open>list(v)\<close>: the items of a list, the characters of a string, the keys of a dictionary.\<close>

fun py_iter :: "pyval \<Rightarrow> py_error + pyval list" where
  "py_iter (PList xs) = Inr xs"
| "py_iter (PStr s) = Inr (map (\<lambda>c. PStr [c]) s)"
| "py_iter (PDict d) = Inr (map (\<lambda>kv. PStr (fst kv)) d)"
| "py_iter _ = Inl TypeError"

text \<open>\<open>list(v or [])\<close>, and the dictionary of \<open>(v or {}).get\<close>.\<close>

definition iter_or :: "pyval \<Rightarrow> py_error + pyval list" where
  "iter_or v = py_iter (py_or v (PList []))"

fun as_dict :: "pyval \<Rightarrow> py_error + (string \<times> pyval) list" where
  "as_dict (PDict d) = Inr d"
| "as_dict v = (if truthy v then Inl AttributeError else Inr [])"

lemma iter_or_PList [simp]: "iter_or (PList xs) = Inr xs"
  by (simp add: iter_or_def py_or_def)

lemma iter_or_PNone [simp]: "iter_or PNone = Inr []"
  by (simp add: iter_or_def py_or_def)

section \<open>Floats\<close>

text \<open>
  \<open>float(i)\<close> of an integer: 53 significant bits, ties to even; \<open>None\<close> is the overflow. The number of
  bits is counted by halving.
\<close>

fun bit_length :: "nat \<Rightarrow> nat" where
  "bit_length n = (if n = 0 then 0 else Suc (bit_length (n div 2)))"

declare bit_length.simps [simp del]

definition round_to_double :: "nat \<Rightarrow> nat" where
  "round_to_double n =
     (let k = bit_length n in
      if k \<le> 53 then n
      else let s = k - 53; q = n div 2 ^ s; r = n mod 2 ^ s; half = 2 ^ (s - 1)
           in (if r > half \<or> r = half \<and> odd q then q + 1 else q) * 2 ^ s)"

definition float_of_int :: "int \<Rightarrow> int option" where
  "float_of_int i =
     (let m = round_to_double (nat \<bar>i\<bar>) in
      if m \<ge> 2 ^ 1024 then None else Some (if i < 0 then - int m else int m))"

section \<open>Equality and containment\<close>

text \<open>
  \<open>==\<close>: \<open>True == 1\<close> and \<open>False == 0\<close>, and the order of a dictionary does not count. Two values are
  equal when they have the same normal form, with booleans as numbers and dictionaries sorted by key.
\<close>

fun py_norm :: "pyval \<Rightarrow> pyval" where
  "py_norm (PBool b) = PInt (if b then 1 else 0)"
| "py_norm (PList xs) = PList (map py_norm xs)"
| "py_norm (PDict d) = PDict (sort_key fst (map (\<lambda>(k, v). (k, py_norm v)) d))"
| "py_norm v = v"

definition py_eq :: "pyval \<Rightarrow> pyval \<Rightarrow> bool" where
  "py_eq a b = (py_norm a = py_norm b)"

definition py_in :: "pyval \<Rightarrow> pyval list \<Rightarrow> bool" where
  "py_in x xs = list_ex (py_eq x) xs"

text \<open>\<open>needle in hay\<close> for strings.\<close>

fun py_contains :: "string \<Rightarrow> string \<Rightarrow> bool" where
  "py_contains hay needle =
     (py_startswith hay needle \<or> (case hay of [] \<Rightarrow> False | _ # rest \<Rightarrow> py_contains rest needle))"

declare py_contains.simps [simp del]

lemma py_contains_iff: "py_contains hay needle \<longleftrightarrow> (\<exists>u v. hay = u @ needle @ v)"
proof (induction hay)
  case Nil
  show ?case by (subst py_contains.simps) (auto simp: py_startswith_def)
next
  case (Cons c hay)
  have here: "py_startswith (c # hay) needle \<longleftrightarrow> (\<exists>v. c # hay = needle @ v)"
    by (metis append_eq_conv_conj append_take_drop_id py_startswith_def)
  have step: "py_contains (c # hay) needle \<longleftrightarrow> py_startswith (c # hay) needle \<or> py_contains hay needle"
    by (subst py_contains.simps) simp
  show ?case
    unfolding step here Cons.IH by (metis append_Cons append_Nil neq_Nil_conv list.inject)
qed

text \<open>\<open>xs[i]\<close> of a list, negative indices counted from the end; \<open>None\<close> is the \<open>IndexError\<close>.\<close>

definition py_index :: "'a list \<Rightarrow> int \<Rightarrow> 'a option" where
  "py_index xs i =
     (let n = int (length xs); j = (if i < 0 then i + n else i) in
      if 0 \<le> j \<and> j < n then Some (xs ! nat j) else None)"

section \<open>json.dumps with sorted keys\<close>

definition json_char :: "char \<Rightarrow> string" where
  "json_char c =
     (let n = code_point c in
      if c = CHR 0x22 \<or> c = CHR 0x5C then [CHR 0x5C, c]
      else if n = 8 then [CHR 0x5C, CHR ''b''] else if n = 9 then [CHR 0x5C, CHR ''t'']
      else if n = 10 then [CHR 0x5C, CHR ''n''] else if n = 12 then [CHR 0x5C, CHR ''f'']
      else if n = 13 then [CHR 0x5C, CHR ''r'']
      else if n < 32 \<or> 126 < n then [CHR 0x5C] @ ''u00'' @ hex2 n
      else [c])"

definition json_str :: "string \<Rightarrow> string" where
  "json_str s = [CHR 0x22] @ concat (map json_char s) @ [CHR 0x22]"

text \<open>\<open>json.dumps(v, sort_keys=True, separators=(",", ":"), default=str)\<close>.\<close>

fun json_dumps :: "pyval \<Rightarrow> string" where
  "json_dumps PNone = ''null''"
| "json_dumps (PBool b) = (if b then ''true'' else ''false'')"
| "json_dumps (PInt i) = int_str i"
| "json_dumps (PStr s) = json_str s"
| "json_dumps (PTime t) = json_str (iso_format '' '' t)"
| "json_dumps (PList xs) = ''['' @ py_join '','' (map json_dumps xs) @ '']''"
| "json_dumps (PDict kvs) =
     ''{'' @ py_join '','' (map (\<lambda>(k, t). json_str k @ '':'' @ t)
       (sort_key fst (map (\<lambda>(k, v). (k, json_dumps v)) kvs))) @ ''}''"

section \<open>Sorting\<close>

text \<open>\<open>sorted(xs, key=f)\<close> is \<open>sort_key f xs\<close>: both are stable. With \<open>reverse=True\<close> equal elements
  still keep their order.\<close>

definition sort_desc :: "('a \<Rightarrow> 'b::linorder) \<Rightarrow> 'a list \<Rightarrow> 'a list" where
  "sort_desc f xs = rev (sort_key f (rev xs))"

lemma mset_sort_desc [simp]: "mset (sort_desc f xs) = mset xs"
  by (simp add: sort_desc_def)

lemma set_sort_desc [simp]: "set (sort_desc f xs) = set xs"
  by (simp add: sort_desc_def)

lemma length_sort_desc [simp]: "length (sort_desc f xs) = length xs"
  by (simp add: sort_desc_def)

lemma sorted_sort_desc: "sorted (rev (map f (sort_desc f xs)))"
  by (simp add: sort_desc_def rev_map)

text \<open>\<open>sorted({...})\<close> of a set of strings built from a list.\<close>

definition sorted_set :: "string list \<Rightarrow> string list" where
  "sorted_set xs = sort (remdups xs)"

lemma set_sorted_set [simp]: "set (sorted_set xs) = set xs"
  by (simp add: sorted_set_def)

lemma distinct_sorted_set [simp]: "distinct (sorted_set xs)"
  by (simp add: sorted_set_def)

lemma sorted_sorted_set [simp]: "sorted (sorted_set xs)"
  by (simp add: sorted_set_def)

section \<open>fnmatch\<close>

text \<open>
  \<open>fnmatchcase(name, pat)\<close>: \<open>*\<close> any text, \<open>?\<close> one character, \<open>[seq]\<close> and \<open>[!seq]\<close> a character
  class; a bracket that is never closed is itself. A pattern is first split into items.
\<close>

datatype glob = GStar | GAny | GChar char | GClass bool "(char \<times> char) list" | GNever

text \<open>
  The class body between the brackets, as \<open>fnmatch.translate\<close> reads it: it is cut into chunks at
  the hyphens that form ranges, an empty range (first above last) is removed together with its two
  end points, then every remaining hyphen between chunks is a range.
\<close>

fun chunk_cut :: "nat \<Rightarrow> string \<Rightarrow> string \<Rightarrow> string list" where
  "chunk_cut skip acc [] = [rev acc]"
| "chunk_cut 0 acc (c # cs) =
     (if c = CHR ''-'' then rev acc # chunk_cut 2 [] cs else chunk_cut 0 (c # acc) cs)"
| "chunk_cut (Suc n) acc (c # cs) = chunk_cut n (c # acc) cs"

definition chunks_of :: "nat \<Rightarrow> string \<Rightarrow> string list" where
  "chunks_of skip body =
     (let cs = chunk_cut skip [] body in
      if length cs > 1 \<and> last cs = []
      then (let ds = butlast cs in butlast ds @ [last ds @ ''-'']) else cs)"

fun drop_empty_ranges :: "string list \<Rightarrow> string list" where
  "drop_empty_ranges [] = []"
| "drop_empty_ranges (c # cs) =
     (case drop_empty_ranges cs of
        [] \<Rightarrow> [c]
      | d # ds \<Rightarrow> if c \<noteq> [] \<and> d \<noteq> [] \<and> last c > hd d then (butlast c @ tl d) # ds else c # d # ds)"

fun class_ranges :: "string list \<Rightarrow> (char \<times> char) list" where
  "class_ranges [] = []"
| "class_ranges [c] = map (\<lambda>x. (x, x)) c"
| "class_ranges (c # d # cs) =
     map (\<lambda>x. (x, x)) c @ (if c \<noteq> [] \<and> d \<noteq> [] then [(last c, hd d)] else []) @ class_ranges (d # cs)"

definition class_item :: "string \<Rightarrow> glob" where
  "class_item body =
     (let neg = (body \<noteq> [] \<and> hd body = CHR ''!'');
          chunks = drop_empty_ranges (chunks_of (if neg then 2 else 1) body);
          text_left = concat chunks
      in if text_left = [] then GNever
         else if text_left = ''!'' \<and> length chunks = 1 then GAny
         else if hd text_left = CHR ''!''
         then GClass True (class_ranges (tl (hd chunks) # tl chunks))
         else GClass False (class_ranges chunks))"

text \<open>The position of the closing bracket, relative to the character after the opening one.\<close>

fun find_close :: "string \<Rightarrow> nat option" where
  "find_close [] = None"
| "find_close (c # cs) = (if c = CHR '']'' then Some 0 else map_option Suc (find_close cs))"

definition class_close :: "string \<Rightarrow> nat option" where
  "class_close rest =
     (let skip1 = (if rest \<noteq> [] \<and> hd rest = CHR ''!'' then 1 else 0);
          skip = (if drop skip1 rest \<noteq> [] \<and> hd (drop skip1 rest) = CHR '']'' then skip1 + 1 else skip1)
      in map_option ((+) skip) (find_close (drop skip rest)))"

function glob_items :: "string \<Rightarrow> glob list" where
  "glob_items [] = []"
| "glob_items (c # cs) =
     (if c = CHR ''*'' then GStar # glob_items cs
      else if c = CHR ''?'' then GAny # glob_items cs
      else if c = CHR ''['' then
        (case class_close cs of
           None \<Rightarrow> GChar c # glob_items cs
         | Some n \<Rightarrow> class_item (take n cs) # glob_items (drop (Suc n) cs))
      else GChar c # glob_items cs)"
  by pat_completeness auto
termination
  by (relation "measure length") auto

fun item_matches :: "glob \<Rightarrow> char \<Rightarrow> bool" where
  "item_matches GAny c = True"
| "item_matches (GChar d) c = (c = d)"
| "item_matches (GClass neg rs) c = (list_ex (\<lambda>(a, b). a \<le> c \<and> c \<le> b) rs \<noteq> neg)"
| "item_matches _ c = False"

fun glob_match :: "glob list \<Rightarrow> string \<Rightarrow> bool" where
  "glob_match [] s = (s = [])"
| "glob_match (GStar # gs) [] = glob_match gs []"
| "glob_match (GStar # gs) (c # cs) = (glob_match gs (c # cs) \<or> glob_match (GStar # gs) cs)"
| "glob_match (g # gs) [] = False"
| "glob_match (g # gs) (c # cs) = (item_matches g c \<and> glob_match gs cs)"

definition fnmatchcase :: "string \<Rightarrow> string \<Rightarrow> bool" where
  "fnmatchcase name pat = glob_match (glob_items pat) name"

definition plain_pattern :: "string \<Rightarrow> bool" where
  "plain_pattern pat = list_all (\<lambda>c. c \<noteq> CHR ''*'' \<and> c \<noteq> CHR ''?'' \<and> c \<noteq> CHR ''['') pat"

lemma glob_items_plain: "plain_pattern pat \<Longrightarrow> glob_items pat = map GChar pat"
  by (induction pat) (auto simp: plain_pattern_def)

lemma glob_match_chars: "glob_match (map GChar pat) s \<longleftrightarrow> s = pat"
proof (induction pat arbitrary: s)
  case (Cons c pat)
  then show ?case by (cases s) auto
qed simp

lemma fnmatch_plain: "plain_pattern pat \<Longrightarrow> fnmatchcase name pat \<longleftrightarrow> name = pat"
  by (simp add: fnmatchcase_def glob_items_plain glob_match_chars)

lemma fnmatch_star: "fnmatchcase name ''*''"
proof -
  have "glob_match [GStar] name" by (induction name) auto
  then show ?thesis by (simp add: fnmatchcase_def)
qed

end
