(* ===== verification/Corr_Records.thy ===== *)
theory Corr_Records
  imports Py_Runtime
begin

text \<open>
  The evidence records the correlation engines read: alerts, network events, vulnerability
  findings, exposure findings and attack-chain steps and cases, with the correlation rules and the
  dataset of one run (\<open>features/correlations/engines/base.py\<close> and the DTO and model classes it
  imports). A record's attributes are also available by name, as the engines read them
  (\<open>getattr(record, field, None)\<close>); only the declared fields are attributes here. Times are
  microseconds since the epoch in UTC, so \<open>to_utc_naive\<close> is the identity.
\<close>

section \<open>Records\<close>

type_synonym time = int
type_synonym pydict = "(string \<times> pyval) list"

definition opt_str :: "string option \<Rightarrow> pyval" where
  "opt_str x = (case x of None \<Rightarrow> PNone | Some s \<Rightarrow> PStr s)"

definition opt_int :: "int option \<Rightarrow> pyval" where
  "opt_int x = (case x of None \<Rightarrow> PNone | Some i \<Rightarrow> PInt i)"

definition opt_time :: "time option \<Rightarrow> pyval" where
  "opt_time x = (case x of None \<Rightarrow> PNone | Some t \<Rightarrow> PTime t)"

record alert_dto =
  al_id :: int
  al_created_at :: time
  al_rule_id :: string
  al_severity :: string
  al_src_ip :: "string option"
  al_dst_ip :: "string option"
  al_dst_port :: "int option"
  al_mitre_tactic :: "string option"
  al_mitre_technique_id :: "string option"
  al_mitre_technique :: "string option"
  al_confidence :: int
  al_description :: string
  al_details :: pydict
  al_detector_type :: "string option"
  al_rule_version :: "int option"
  al_rule_hash :: "string option"
  al_ruleset_version :: "string option"
  al_status :: string
  al_disposition :: "string option"
  al_priority :: "int option"
  al_assigned_to :: "string option"
  al_investigation_id :: "int option"
  al_acknowledged_at :: "time option"
  al_acknowledged_by :: "string option"
  al_closed_at :: "time option"
  al_closed_by :: "string option"
  al_triage_notes :: "string option"
  al_risk_score :: "int option"
  al_false_positive_reason :: "string option"

definition alert_attrs :: "alert_dto \<Rightarrow> pydict" where
  "alert_attrs a =
    [(''id'', PInt (al_id a)), (''created_at'', PTime (al_created_at a)),
     (''rule_id'', PStr (al_rule_id a)), (''severity'', PStr (al_severity a)),
     (''src_ip'', opt_str (al_src_ip a)), (''dst_ip'', opt_str (al_dst_ip a)),
     (''dst_port'', opt_int (al_dst_port a)), (''mitre_tactic'', opt_str (al_mitre_tactic a)),
     (''mitre_technique_id'', opt_str (al_mitre_technique_id a)),
     (''mitre_technique'', opt_str (al_mitre_technique a)), (''confidence'', PInt (al_confidence a)),
     (''description'', PStr (al_description a)), (''details'', PDict (al_details a)),
     (''detector_type'', opt_str (al_detector_type a)), (''rule_version'', opt_int (al_rule_version a)),
     (''rule_hash'', opt_str (al_rule_hash a)), (''ruleset_version'', opt_str (al_ruleset_version a)),
     (''status'', PStr (al_status a)), (''disposition'', opt_str (al_disposition a)),
     (''priority'', opt_int (al_priority a)), (''assigned_to'', opt_str (al_assigned_to a)),
     (''investigation_id'', opt_int (al_investigation_id a)),
     (''acknowledged_at'', opt_time (al_acknowledged_at a)),
     (''acknowledged_by'', opt_str (al_acknowledged_by a)), (''closed_at'', opt_time (al_closed_at a)),
     (''closed_by'', opt_str (al_closed_by a)), (''triage_notes'', opt_str (al_triage_notes a)),
     (''risk_score'', opt_int (al_risk_score a)),
     (''false_positive_reason'', opt_str (al_false_positive_reason a))]"

record net_event =
  ne_id :: int
  ne_agent_id :: string
  ne_event_type :: string
  ne_schema_version :: int
  ne_timestamp :: time
  ne_src_ip :: "string option"
  ne_dst_ip :: "string option"
  ne_src_port :: "int option"
  ne_dst_port :: "int option"
  ne_proto :: "string option"
  ne_bytes :: "int option"
  ne_extra :: pydict
  ne_app_proto :: "string option"
  ne_app_proto_reason :: "string option"
  ne_app_proto_conf_band :: "string option"
  ne_dns_qname :: "string option"
  ne_http_host :: "string option"
  ne_http_method :: "string option"
  ne_tls_sni :: "string option"
  ne_tls_alpn_first :: "string option"
  ne_ja3 :: "string option"
  ne_ja4 :: "string option"
  ne_ja4_ptype :: "string option"
  ne_ssh_action :: "string option"
  ne_ssh_username :: "string option"
  ne_proc_pid :: "int option"
  ne_proc_ppid :: "int option"
  ne_proc_name :: "string option"
  ne_proc_exe :: "string option"
  ne_proc_parent_name :: "string option"
  ne_fim_path :: "string option"
  ne_fim_category :: "string option"
  ne_heuristic_name :: "string option"
  ne_heuristic_confidence :: "int option"

definition net_event_attrs :: "net_event \<Rightarrow> pydict" where
  "net_event_attrs e =
    [(''id'', PInt (ne_id e)), (''agent_id'', PStr (ne_agent_id e)), (''event_type'', PStr (ne_event_type e)),
     (''schema_version'', PInt (ne_schema_version e)), (''timestamp'', PTime (ne_timestamp e)),
     (''src_ip'', opt_str (ne_src_ip e)), (''dst_ip'', opt_str (ne_dst_ip e)),
     (''src_port'', opt_int (ne_src_port e)), (''dst_port'', opt_int (ne_dst_port e)),
     (''proto'', opt_str (ne_proto e)), (''bytes'', opt_int (ne_bytes e)), (''extra'', PDict (ne_extra e)),
     (''app_proto'', opt_str (ne_app_proto e)), (''app_proto_reason'', opt_str (ne_app_proto_reason e)),
     (''app_proto_conf_band'', opt_str (ne_app_proto_conf_band e)), (''dns_qname'', opt_str (ne_dns_qname e)),
     (''http_host'', opt_str (ne_http_host e)), (''http_method'', opt_str (ne_http_method e)),
     (''tls_sni'', opt_str (ne_tls_sni e)), (''tls_alpn_first'', opt_str (ne_tls_alpn_first e)),
     (''ja3'', opt_str (ne_ja3 e)), (''ja4'', opt_str (ne_ja4 e)), (''ja4_ptype'', opt_str (ne_ja4_ptype e)),
     (''ssh_action'', opt_str (ne_ssh_action e)), (''ssh_username'', opt_str (ne_ssh_username e)),
     (''proc_pid'', opt_int (ne_proc_pid e)), (''proc_ppid'', opt_int (ne_proc_ppid e)),
     (''proc_name'', opt_str (ne_proc_name e)), (''proc_exe'', opt_str (ne_proc_exe e)),
     (''proc_parent_name'', opt_str (ne_proc_parent_name e)), (''fim_path'', opt_str (ne_fim_path e)),
     (''fim_category'', opt_str (ne_fim_category e)), (''heuristic_name'', opt_str (ne_heuristic_name e)),
     (''heuristic_confidence'', opt_int (ne_heuristic_confidence e))]"

record vuln_finding =
  vf_id :: int
  vf_scan_id :: "int option"
  vf_asset_key :: string
  vf_asset_agent_id :: "string option"
  vf_reporter_agent_id :: "string option"
  vf_target :: "string option"
  vf_asset :: pydict
  vf_source :: string
  vf_external_id :: "string option"
  vf_fingerprint :: string
  vf_severity :: string
  vf_severity_rank :: int
  vf_confidence :: int
  vf_title :: string
  vf_description :: "string option"
  vf_remediation :: "string option"
  vf_cve :: "string option"
  vf_cwe :: "string option"
  vf_cvss :: "string option"
  vf_location :: "string option"
  vf_tags :: "pyval list"
  vf_evidence :: pydict
  vf_status :: string
  vf_is_suppressed :: bool
  vf_observation_state :: string
  vf_operator_disposition :: string
  vf_first_seen_at :: time
  vf_last_seen_at :: time
  vf_occurrences :: int
  vf_updated_at :: time

definition vuln_attrs :: "vuln_finding \<Rightarrow> pydict" where
  "vuln_attrs v =
    [(''id'', PInt (vf_id v)), (''scan_id'', opt_int (vf_scan_id v)), (''asset_key'', PStr (vf_asset_key v)),
     (''asset_agent_id'', opt_str (vf_asset_agent_id v)), (''reporter_agent_id'', opt_str (vf_reporter_agent_id v)),
     (''target'', opt_str (vf_target v)), (''asset'', PDict (vf_asset v)), (''source'', PStr (vf_source v)),
     (''external_id'', opt_str (vf_external_id v)), (''fingerprint'', PStr (vf_fingerprint v)),
     (''severity'', PStr (vf_severity v)), (''severity_rank'', PInt (vf_severity_rank v)),
     (''confidence'', PInt (vf_confidence v)), (''title'', PStr (vf_title v)),
     (''description'', opt_str (vf_description v)), (''remediation'', opt_str (vf_remediation v)),
     (''cve'', opt_str (vf_cve v)), (''cwe'', opt_str (vf_cwe v)), (''cvss'', opt_str (vf_cvss v)),
     (''location'', opt_str (vf_location v)), (''tags'', PList (vf_tags v)), (''evidence'', PDict (vf_evidence v)),
     (''status'', PStr (vf_status v)), (''is_suppressed'', PBool (vf_is_suppressed v)),
     (''observation_state'', PStr (vf_observation_state v)),
     (''operator_disposition'', PStr (vf_operator_disposition v)),
     (''first_seen_at'', PTime (vf_first_seen_at v)), (''last_seen_at'', PTime (vf_last_seen_at v)),
     (''occurrences'', PInt (vf_occurrences v)), (''updated_at'', PTime (vf_updated_at v))]"

record exposure_finding =
  ef_id :: int
  ef_finding_key :: string
  ef_asset_key :: string
  ef_agent_id :: "string option"
  ef_finding_type :: string
  ef_severity :: string
  ef_score_delta :: int
  ef_confidence :: int
  ef_title :: string
  ef_summary :: string
  ef_status :: string
  ef_first_seen_at :: time
  ef_last_seen_at :: time
  ef_updated_at :: time
  ef_related_node_keys :: "pyval list"
  ef_evidence_refs :: "pyval list"
  ef_reason_codes :: "pyval list"
  ef_recommendations :: "pyval list"
  ef_extra_data :: pydict

definition exposure_attrs :: "exposure_finding \<Rightarrow> pydict" where
  "exposure_attrs f =
    [(''id'', PInt (ef_id f)), (''finding_key'', PStr (ef_finding_key f)), (''asset_key'', PStr (ef_asset_key f)),
     (''agent_id'', opt_str (ef_agent_id f)), (''finding_type'', PStr (ef_finding_type f)),
     (''severity'', PStr (ef_severity f)), (''score_delta'', PInt (ef_score_delta f)),
     (''confidence'', PInt (ef_confidence f)), (''title'', PStr (ef_title f)), (''summary'', PStr (ef_summary f)),
     (''status'', PStr (ef_status f)), (''first_seen_at'', PTime (ef_first_seen_at f)),
     (''last_seen_at'', PTime (ef_last_seen_at f)), (''updated_at'', PTime (ef_updated_at f)),
     (''related_node_keys'', PList (ef_related_node_keys f)), (''evidence_refs'', PList (ef_evidence_refs f)),
     (''reason_codes'', PList (ef_reason_codes f)), (''recommendations'', PList (ef_recommendations f)),
     (''extra_data'', PDict (ef_extra_data f))]"

record chain_case =
  cc_id :: int
  cc_agent_id :: string
  cc_suspect_ip :: "string option"
  cc_status :: string
  cc_score :: int
  cc_max_stage :: string
  cc_first_seen_at :: time
  cc_last_seen_at :: time
  cc_closed_at :: "time option"
  cc_step_count :: int
  cc_context :: pydict

definition case_attrs :: "chain_case \<Rightarrow> pydict" where
  "case_attrs c =
    [(''id'', PInt (cc_id c)), (''agent_id'', PStr (cc_agent_id c)), (''suspect_ip'', opt_str (cc_suspect_ip c)),
     (''status'', PStr (cc_status c)), (''score'', PInt (cc_score c)), (''max_stage'', PStr (cc_max_stage c)),
     (''first_seen_at'', PTime (cc_first_seen_at c)), (''last_seen_at'', PTime (cc_last_seen_at c)),
     (''closed_at'', opt_time (cc_closed_at c)), (''step_count'', PInt (cc_step_count c)),
     (''context'', PDict (cc_context c))]"

record chain_step =
  cs_id :: int
  cs_case_id :: int
  cs_stage :: string
  cs_label :: string
  cs_score_delta :: int
  cs_fingerprint :: string
  cs_event_id :: "int option"
  cs_event_type :: "string option"
  cs_timestamp :: time
  cs_created_at :: time
  cs_src_ip :: "string option"
  cs_dst_ip :: "string option"
  cs_src_port :: "int option"
  cs_dst_port :: "int option"
  cs_proto :: "string option"
  cs_details :: pydict

definition step_attrs :: "chain_step \<Rightarrow> pydict" where
  "step_attrs s =
    [(''id'', PInt (cs_id s)), (''case_id'', PInt (cs_case_id s)), (''stage'', PStr (cs_stage s)),
     (''label'', PStr (cs_label s)), (''score_delta'', PInt (cs_score_delta s)),
     (''fingerprint'', PStr (cs_fingerprint s)), (''event_id'', opt_int (cs_event_id s)),
     (''event_type'', opt_str (cs_event_type s)), (''timestamp'', PTime (cs_timestamp s)),
     (''created_at'', PTime (cs_created_at s)), (''src_ip'', opt_str (cs_src_ip s)),
     (''dst_ip'', opt_str (cs_dst_ip s)), (''src_port'', opt_int (cs_src_port s)),
     (''dst_port'', opt_int (cs_dst_port s)), (''proto'', opt_str (cs_proto s)),
     (''details'', PDict (cs_details s))]"

datatype corr_row =
    RAlert alert_dto
  | RNetEvent net_event
  | RVuln vuln_finding
  | RExposure exposure_finding
  | RStep chain_step
  | RCase chain_case

fun row_attrs :: "corr_row \<Rightarrow> pydict" where
  "row_attrs (RAlert a) = alert_attrs a"
| "row_attrs (RNetEvent e) = net_event_attrs e"
| "row_attrs (RVuln v) = vuln_attrs v"
| "row_attrs (RExposure f) = exposure_attrs f"
| "row_attrs (RStep s) = step_attrs s"
| "row_attrs (RCase c) = case_attrs c"

text \<open>\<open>getattr(row, name, None)\<close> and \<open>hasattr(row, name)\<close>.\<close>

definition row_get :: "corr_row \<Rightarrow> string \<Rightarrow> pyval" where
  "row_get r name = pget (row_attrs r) name"

definition row_has :: "corr_row \<Rightarrow> string \<Rightarrow> bool" where
  "row_has r name = (dict_get (row_attrs r) name \<noteq> None)"

section \<open>Rules and datasets\<close>

record correlation_rule =
  cr_id :: int
  cr_name :: string
  cr_description :: "string option"
  cr_enabled :: bool
  cr_severity :: string
  cr_strategy :: string
  cr_group_by :: string
  cr_window_seconds :: int
  cr_min_alerts :: int
  cr_include_patterns :: "pyval list"
  cr_exclude_patterns :: "pyval list"
  cr_stages :: "pydict list"
  cr_entity :: "pydict option"
  cr_strategy_config :: "pydict option"
  cr_risk_config :: "pydict option"
  cr_evidence_config :: "pydict option"
  cr_lifecycle_config :: "pydict option"
  cr_created_at :: time
  cr_updated_at :: time

record entity_baseline =
  eb_entity_type :: string
  eb_entity_value :: string
  eb_feature :: string
  eb_first_seen_at :: time
  eb_last_seen_at :: time
  eb_count_7d :: int
  eb_count_30d :: int
  eb_updated_at :: time

text \<open>An \<open>entity_states\<close> value: the engines read its \<open>last_seen_at\<close> and \<open>count_30d\<close>.\<close>

record entity_state =
  es_last_seen_at :: "time option"
  es_count_30d :: "int option"

definition state_of_baseline :: "entity_baseline \<Rightarrow> entity_state" where
  "state_of_baseline b = \<lparr>es_last_seen_at = Some (eb_last_seen_at b), es_count_30d = Some (eb_count_30d b)\<rparr>"

record correlation_dataset =
  ds_alerts :: "alert_dto list"
  ds_net_events :: "net_event list"
  ds_vuln_findings :: "vuln_finding list"
  ds_exposure_findings :: "exposure_finding list"
  ds_attack_chain_steps :: "chain_step list"
  ds_attack_chain_cases :: "chain_case list"
  ds_entity_states :: "((string \<times> string) \<times> entity_state) list"
  ds_entity_baseline :: "(string \<times> (string \<times> entity_baseline) list) list option"

text \<open>The case map is built in list order, so of two cases with one id the later one stays.\<close>

definition attack_chain_case_map :: "correlation_dataset \<Rightarrow> (int \<times> chain_case) list" where
  "attack_chain_case_map ds = foldl (\<lambda>m c. dict_set m (cc_id c) c) [] (ds_attack_chain_cases ds)"

definition entity_baseline_for :: "correlation_dataset \<Rightarrow> string \<Rightarrow> string \<Rightarrow> entity_state option" where
  "entity_baseline_for ds ty val =
     (if ty = [] \<or> val = [] then None
      else case ds_entity_baseline ds of
        None \<Rightarrow> None
      | Some m \<Rightarrow> (case dict_get m ty of
            None \<Rightarrow> None
          | Some by_type \<Rightarrow> map_option state_of_baseline (dict_get by_type val)))"

definition entity_state_for :: "correlation_dataset \<Rightarrow> string \<Rightarrow> string \<Rightarrow> entity_state option" where
  "entity_state_for ds ty val =
     (if ty = [] \<or> val = [] then None
      else case dict_get (ds_entity_states ds) (ty, val) of
        Some st \<Rightarrow> Some st
      | None \<Rightarrow> entity_baseline_for ds ty val)"

text \<open>
  \<open>str(source or "alerts").strip().lower()\<close>, and the six sets of names the kinds of evidence answer
  to. \<open>select_records\<close>, \<open>record_timestamp\<close>, \<open>extract_source_value\<close> and \<open>build_evidence_item\<close> test the
  same sets in the same order.
\<close>

datatype source_kind = KAlert | KNetEvent | KVuln | KExposure | KStep | KCase

definition norm_source :: "string \<Rightarrow> string" where
  "norm_source source = py_lower (py_strip (if source = [] then ''alerts'' else source))"

definition kind_of_name :: "string \<Rightarrow> source_kind option" where
  "kind_of_name s =
     (if s \<in> set [''alerts'', ''alert''] then Some KAlert
      else if s \<in> set [''net_events'', ''net_event'', ''events'', ''event''] then Some KNetEvent
      else if s \<in> set [''vuln_findings'', ''vulnerabilities'', ''vulnerability''] then Some KVuln
      else if s \<in> set [''exposure_findings'', ''exposure'', ''exposures''] then Some KExposure
      else if s \<in> set [''attack_chain_steps'', ''attack_steps'', ''steps''] then Some KStep
      else if s \<in> set [''attack_chain_cases'', ''attack_cases'', ''cases''] then Some KCase
      else None)"

definition source_kind_of :: "string \<Rightarrow> source_kind option" where
  "source_kind_of source = kind_of_name (norm_source source)"

definition select_records :: "correlation_dataset \<Rightarrow> string \<Rightarrow> corr_row list" where
  "select_records ds source =
     (case source_kind_of source of
        Some KAlert \<Rightarrow> map RAlert (ds_alerts ds)
      | Some KNetEvent \<Rightarrow> map RNetEvent (ds_net_events ds)
      | Some KVuln \<Rightarrow> map RVuln (ds_vuln_findings ds)
      | Some KExposure \<Rightarrow> map RExposure (ds_exposure_findings ds)
      | Some KStep \<Rightarrow> map RStep (ds_attack_chain_steps ds)
      | Some KCase \<Rightarrow> map RCase (ds_attack_chain_cases ds)
      | None \<Rightarrow> [])"

text \<open>
  \<open>record_timestamp\<close>: the attribute the source's kind of record is timed by. \<open>None\<close> is the
  \<open>AttributeError\<close> of a record without that attribute, which does not happen for the records
  \<open>select_records\<close> returns (\<open>record_timestamp_selected\<close>). \<open>now\<close> stands for \<open>utcnow()\<close>, read only
  for an unknown source.
\<close>

definition row_time_attr :: "corr_row \<Rightarrow> string \<Rightarrow> time option" where
  "row_time_attr r name = (case dict_get (row_attrs r) name of Some (PTime t) \<Rightarrow> Some t | _ \<Rightarrow> None)"

definition record_timestamp :: "time \<Rightarrow> corr_row \<Rightarrow> string \<Rightarrow> time option" where
  "record_timestamp now r source =
     (case source_kind_of source of
        Some KAlert \<Rightarrow> row_time_attr r ''created_at''
      | Some KNetEvent \<Rightarrow> row_time_attr r ''timestamp''
      | Some KVuln \<Rightarrow> row_time_attr r ''last_seen_at''
      | Some KExposure \<Rightarrow> row_time_attr r ''last_seen_at''
      | Some KStep \<Rightarrow> row_time_attr r ''timestamp''
      | Some KCase \<Rightarrow> row_time_attr r ''last_seen_at''
      | None \<Rightarrow> Some now)"

text \<open>The time used as a sort key and in the windows.\<close>

definition row_ts :: "time \<Rightarrow> string \<Rightarrow> corr_row \<Rightarrow> time" where
  "row_ts now source r = (case record_timestamp now r source of Some t \<Rightarrow> t | None \<Rightarrow> now)"

lemma row_time_attrs [simp]:
  "row_time_attr (RAlert a) ''created_at'' = Some (al_created_at a)"
  "row_time_attr (RNetEvent e) ''timestamp'' = Some (ne_timestamp e)"
  "row_time_attr (RVuln v) ''last_seen_at'' = Some (vf_last_seen_at v)"
  "row_time_attr (RExposure f) ''last_seen_at'' = Some (ef_last_seen_at f)"
  "row_time_attr (RStep s) ''timestamp'' = Some (cs_timestamp s)"
  "row_time_attr (RCase c) ''last_seen_at'' = Some (cc_last_seen_at c)"
  by (simp_all add: row_time_attr_def dict_get_def alert_attrs_def net_event_attrs_def
      vuln_attrs_def exposure_attrs_def step_attrs_def case_attrs_def)

lemma record_timestamp_selected:
  "r \<in> set (select_records ds source) \<Longrightarrow> record_timestamp now r source \<noteq> None"
proof (cases "source_kind_of source")
  case (Some k)
  assume "r \<in> set (select_records ds source)"
  with Some show ?thesis
    by (cases k) (auto simp: select_records_def record_timestamp_def)
qed (simp add: select_records_def)

lemma source_kind_alerts [simp]: "source_kind_of ''alerts'' = Some KAlert"
  by (simp add: source_kind_of_def kind_of_name_def norm_source_def py_defs)

lemma row_ts_alert [simp]: "row_ts now ''alerts'' (RAlert a) = al_created_at a"
  by (simp add: row_ts_def record_timestamp_def)

section \<open>Small concrete data\<close>

text \<open>An alert, a dataset and a rule for the concrete instances of the theorems.\<close>

definition demo_alert :: "int \<Rightarrow> time \<Rightarrow> string \<Rightarrow> alert_dto" where
  "demo_alert i t rid =
     \<lparr>al_id = i, al_created_at = t, al_rule_id = rid, al_severity = ''high'', al_src_ip = Some ''10.0.0.5'',
      al_dst_ip = None, al_dst_port = None, al_mitre_tactic = None, al_mitre_technique_id = None,
      al_mitre_technique = None, al_confidence = 80, al_description = ''d'', al_details = [],
      al_detector_type = None, al_rule_version = None, al_rule_hash = None, al_ruleset_version = None,
      al_status = ''open'', al_disposition = None, al_priority = None, al_assigned_to = None,
      al_investigation_id = None, al_acknowledged_at = None, al_acknowledged_by = None, al_closed_at = None,
      al_closed_by = None, al_triage_notes = None, al_risk_score = None, al_false_positive_reason = None\<rparr>"

definition demo_dataset :: correlation_dataset where
  "demo_dataset =
     \<lparr>ds_alerts = [], ds_net_events = [], ds_vuln_findings = [], ds_exposure_findings = [],
      ds_attack_chain_steps = [], ds_attack_chain_cases = [], ds_entity_states = [], ds_entity_baseline = None\<rparr>"

definition demo_rule :: "int \<Rightarrow> int \<Rightarrow> correlation_rule" where
  "demo_rule w n =
     \<lparr>cr_id = 7, cr_name = ''brute'', cr_description = None, cr_enabled = True, cr_severity = ''high'',
      cr_strategy = ''threshold'', cr_group_by = ''src_ip'', cr_window_seconds = w, cr_min_alerts = n,
      cr_include_patterns = [], cr_exclude_patterns = [], cr_stages = [], cr_entity = None,
      cr_strategy_config = None, cr_risk_config = None, cr_evidence_config = None,
      cr_lifecycle_config = None, cr_created_at = 0, cr_updated_at = 0\<rparr>"

end
