(* ===== verification/Corr_Base.thy ===== *)
theory Corr_Base
  imports Corr_Records
begin

text \<open>
  The shared operations of the correlation engines (\<open>features/correlations/engines/base.py\<close>):
  rule-id patterns, grouping, tumbling segments, reading fields of evidence records, entity
  resolution, evidence items, field filters and the de-duplicated alert sample. The theorems: the
  normal form of pattern lists, exclusion before inclusion, what a segmentation is, what grouping
  keeps, and the sample.
\<close>

section \<open>Patterns\<close>

definition or_int :: "int \<Rightarrow> int \<Rightarrow> int" where
  "or_int i d = (if i = 0 then d else i)"

definition or_text :: "string \<Rightarrow> string \<Rightarrow> string" where
  "or_text s d = (if s = [] then d else s)"

text \<open>\<open>coerce_int\<close>: any exception gives the default.\<close>

definition coerce_int :: "pyval \<Rightarrow> int \<Rightarrow> int" where
  "coerce_int v d = (case int_of_py v of Inr i \<Rightarrow> i | Inl _ \<Rightarrow> d)"

fun norm_loop :: "string list \<Rightarrow> pyval list \<Rightarrow> string list" where
  "norm_loop seen [] = []"
| "norm_loop seen (raw # v) =
     (let s = py_strip (str_or raw []) in
      if s = [] then norm_loop seen v
      else let k = py_lower s in
        if k \<in> set seen then norm_loop seen v else s # norm_loop (k # seen) v)"

definition norm_patterns :: "pyval list \<Rightarrow> string list" where
  "norm_patterns v = norm_loop [] v"

text \<open>The same on an untyped value of a stage: it is iterated first.\<close>

definition norm_patterns_of :: "pyval \<Rightarrow> py_error + string list" where
  "norm_patterns_of v = ebind (iter_or v) (\<lambda>xs. Inr (norm_patterns xs))"

definition match_any :: "string \<Rightarrow> string list \<Rightarrow> bool" where
  "match_any rule_id patterns =
     (patterns \<noteq> [] \<and> list_ex (\<lambda>p. fnmatchcase (py_lower rule_id) (py_lower p)) patterns)"

definition passes_filter :: "string \<Rightarrow> string list \<Rightarrow> string list \<Rightarrow> bool" where
  "passes_filter rule_id inc exc =
     (if exc \<noteq> [] \<and> match_any rule_id exc then False
      else if inc = [] then True
      else match_any rule_id inc)"

section \<open>Grouping by alert fields\<close>

definition opt_or :: "string option \<Rightarrow> string \<Rightarrow> string" where
  "opt_or x d = (case x of None \<Rightarrow> d | Some s \<Rightarrow> or_text s d)"

text \<open>The arrow between source and destination is one code point above 255; here it is its UTF-8 bytes.\<close>

definition arrow :: string where
  "arrow = [CHR 0xE2, CHR 0x86, CHR 0x92]"

definition group_value :: "alert_dto \<Rightarrow> string \<Rightarrow> string" where
  "group_value a group_by =
     (let g = py_strip (py_lower group_by);
          src = opt_or (al_src_ip a) ''-'';
          dst = opt_or (al_dst_ip a) ''-'';
          port = (case al_dst_port a of Some p \<Rightarrow> int_str p | None \<Rightarrow> ''-'')
      in if g \<in> set [''src'', ''src_ip'', ''source''] then src
         else if g \<in> set [''dst'', ''dst_ip'', ''destination''] then dst
         else if g \<in> set [''dst_port'', ''port''] then port
         else if g \<in> set [''src_dst'', ''src+dst'', ''pair''] then src @ arrow @ dst
         else if g \<in> set [''src_dst_port'', ''tuple''] then src @ arrow @ dst @ '':'' @ port
         else ''all'')"

section \<open>Tumbling segments\<close>

text \<open>
  \<open>segment_by_window\<close> reads \<open>created_at\<close> of each alert: here \<open>key\<close> is the time of an element.
  Times are in microseconds, the window in seconds. \<open>total_seconds()\<close> is a float; it is exact, and so
  are the comparisons, for differences below 2^53 microseconds (285 years).
\<close>

definition within :: "int \<Rightarrow> time \<Rightarrow> time \<Rightarrow> bool" where
  "within w t0 t1 = (t1 - t0 \<le> w * 1000000)"

fun segment_loop :: "('a \<Rightarrow> time) \<Rightarrow> int \<Rightarrow> 'a list \<Rightarrow> time \<Rightarrow> 'a list \<Rightarrow> 'a list list" where
  "segment_loop key w cur seg_start [] = (if cur \<noteq> [] then [cur] else [])"
| "segment_loop key w cur seg_start (a # rest) =
     (if within w seg_start (key a) then segment_loop key w (cur @ [a]) seg_start rest
      else cur # segment_loop key w [a] (key a) rest)"

definition segment_by_window :: "('a \<Rightarrow> time) \<Rightarrow> 'a list \<Rightarrow> int \<Rightarrow> 'a list list" where
  "segment_by_window key alerts window_seconds =
     (case sort_key key alerts of
        [] \<Rightarrow> []
      | a # rest \<Rightarrow> segment_loop key (max 1 window_seconds) [a] (key a) rest)"

section \<open>Stage hits\<close>

definition stage_name :: "pydict \<Rightarrow> string" where
  "stage_name st = or_text (py_strip (str_or (pget st ''name'') [])) ''stage''"

definition count_matching :: "('a \<Rightarrow> bool) \<Rightarrow> 'a list \<Rightarrow> int" where
  "count_matching p xs = int (length (filter p xs))"

definition compute_stage_hits :: "alert_dto list \<Rightarrow> pydict list \<Rightarrow> py_error + (string \<times> int) list" where
  "compute_stage_hits seg stages =
     efold (\<lambda>hits st.
       ebind (norm_patterns_of (pget st ''patterns'')) (\<lambda>pats.
         Inr (dict_set hits (stage_name st)
           (if pats = [] then 0 else count_matching (\<lambda>a. match_any (al_rule_id a) pats) seg))))
       [] stages"

fun stage_requirements_met :: "(string \<times> int) list \<Rightarrow> pydict list \<Rightarrow> py_error + bool" where
  "stage_requirements_met hits [] = Inr True"
| "stage_requirements_met hits (st # stages) =
     ebind (int_or (pget st ''min_count'') 1) (\<lambda>min_count.
       if (case dict_get hits (stage_name st) of None \<Rightarrow> 0 | Some n \<Rightarrow> n) < max 1 min_count then Inr False
       else stage_requirements_met hits stages)"

section \<open>Scores and texts\<close>

text \<open>\<open>severity_baseline_score\<close> of \<open>detections/domain/scoring.py\<close>; \<open>severity_score\<close> is its name here.\<close>

definition severity_baseline_score :: "string \<Rightarrow> int" where
  "severity_baseline_score severity =
     (let s = py_lower (py_strip severity) in
      if s = ''critical'' then 95 else if s = ''high'' then 78 else if s = ''medium'' then 52
      else if s = ''low'' then 30 else if s = ''info'' then 12 else 40)"

definition severity_score :: "string \<Rightarrow> int" where
  "severity_score v = severity_baseline_score v"

definition stable_json :: "pyval \<Rightarrow> string" where
  "stable_json data = json_dumps data"

definition summarize_timedelta_seconds :: "int \<Rightarrow> string" where
  "summarize_timedelta_seconds seconds =
     (let total = max 0 seconds in
      if total \<ge> 86400 then int_str (total div 86400) @ ''d''
      else if total \<ge> 3600 then int_str (total div 3600) @ ''h''
      else if total \<ge> 60 then int_str (total div 60) @ ''m''
      else int_str total @ ''s'')"

section \<open>Reading a path in nested data\<close>

text \<open>
  \<open>getattr(v, part, None)\<close> of a value that is neither a dictionary nor a list: \<open>None\<close>. The methods
  and number attributes of the built-in types (\<open>"x".upper\<close>, \<open>(3).real\<close>) are not in the model.
\<close>

fun deep_get_loop :: "pyval \<Rightarrow> string list \<Rightarrow> pyval" where
  "deep_get_loop current [] = current"
| "deep_get_loop current (raw_part # parts) =
     (let part = py_strip raw_part in
      if part = [] then deep_get_loop current parts
      else case current of
        PDict d \<Rightarrow> deep_get_loop (pget d part) parts
      | PList xs \<Rightarrow>
          (case py_int part of
             None \<Rightarrow> PNone
           | Some i \<Rightarrow> (case py_index xs i of None \<Rightarrow> PNone | Some v \<Rightarrow> deep_get_loop v parts))
      | _ \<Rightarrow> deep_get_loop PNone parts)"

definition deep_get :: "pyval \<Rightarrow> string \<Rightarrow> pyval" where
  "deep_get v path = deep_get_loop v (py_split (CHR ''.'') path)"

text \<open>\<open>None\<close> unless the value is a dictionary; a key with dots is tried as it is first.\<close>

definition mapping_value :: "pyval \<Rightarrow> string \<Rightarrow> pyval" where
  "mapping_value m field =
     (case m of
        PDict d \<Rightarrow> (case dict_get d field of Some v \<Rightarrow> v | None \<Rightarrow> deep_get m field)
      | _ \<Rightarrow> PNone)"

section \<open>Reading a field of a record\<close>

text \<open>\<open>getattr(record, name, {}) or {}\<close>, the first value that is not \<open>None\<close>, \<open>fld.startswith(p)\<close> with the rest.\<close>

definition attr_dict :: "corr_row \<Rightarrow> string \<Rightarrow> pyval" where
  "attr_dict r name = py_or (row_get r name) (PDict [])"

definition first_not_none :: "pyval \<Rightarrow> pyval \<Rightarrow> pyval" where
  "first_not_none v w = (if v = PNone then w else v)"

fun first_bucket :: "pydict \<Rightarrow> string \<Rightarrow> string list \<Rightarrow> pyval" where
  "first_bucket details fld [] = PNone"
| "first_bucket details fld (b # bs) =
     first_not_none (mapping_value (pget details b) fld) (first_bucket details fld bs)"

definition extract_alert_value :: "corr_row \<Rightarrow> string \<Rightarrow> pyval" where
  "extract_alert_value r field =
     (let fld = py_strip field; details = attr_dict r ''details'' in
      if fld = [] then PNone
      else if py_startswith fld ''details.'' then deep_get details (drop 8 fld)
      else first_not_none (row_get r fld)
        (first_not_none (mapping_value details fld)
          (first_bucket (dict_or_empty details) fld [''group_key'', ''enrichment'', ''mitre'', ''rule_meta''])))"

definition extract_net_event_value :: "corr_row \<Rightarrow> string \<Rightarrow> pyval" where
  "extract_net_event_value r field =
     (let fld = py_strip field; extra = attr_dict r ''extra'' in
      if fld = [] then PNone
      else if py_startswith fld ''extra.'' then deep_get extra (drop 6 fld)
      else first_not_none (row_get r fld)
        (first_not_none (mapping_value extra fld)
          (if fld = ''confidence'' then py_or (row_get r ''heuristic_confidence'') (mapping_value extra ''confidence'')
           else PNone)))"

definition extract_vuln_value :: "corr_row \<Rightarrow> string \<Rightarrow> pyval" where
  "extract_vuln_value r field =
     (let fld = py_strip field in
      if fld = [] then PNone
      else if py_startswith fld ''asset.'' then deep_get (attr_dict r ''asset'') (drop 6 fld)
      else if py_startswith fld ''evidence.'' then deep_get (attr_dict r ''evidence'') (drop 9 fld)
      else if py_startswith fld ''details.'' then deep_get (attr_dict r ''evidence'') (drop 8 fld)
      else first_not_none (row_get r fld)
        (if fld = ''agent_id'' then row_get r ''asset_agent_id'' else PNone))"

definition extract_exposure_value :: "corr_row \<Rightarrow> string \<Rightarrow> pyval" where
  "extract_exposure_value r field =
     (let fld = py_strip field in
      if fld = [] then PNone
      else if py_startswith fld ''extra_data.'' then deep_get (attr_dict r ''extra_data'') (drop 11 fld)
      else if py_startswith fld ''details.'' then deep_get (attr_dict r ''extra_data'') (drop 8 fld)
      else row_get r fld)"

definition extract_attack_chain_case_value :: "corr_row \<Rightarrow> string \<Rightarrow> pyval" where
  "extract_attack_chain_case_value r field =
     (let fld = py_strip field; context = attr_dict r ''context'' in
      if fld = [] then PNone
      else if py_startswith fld ''context.'' then deep_get context (drop 8 fld)
      else first_not_none (row_get r fld) (mapping_value context fld))"

text \<open>The case of a step: \<open>dataset.attack_chain_case_map.get(int(step.case_id or 0))\<close>.\<close>

definition step_case :: "correlation_dataset \<Rightarrow> corr_row \<Rightarrow> chain_case option" where
  "step_case ds r =
     dict_get (attack_chain_case_map ds) (case int_or (row_get r ''case_id'') 0 of Inr i \<Rightarrow> i | Inl _ \<Rightarrow> 0)"

definition extract_attack_chain_step_value :: "correlation_dataset \<Rightarrow> corr_row \<Rightarrow> string \<Rightarrow> pyval" where
  "extract_attack_chain_step_value ds r field =
     (let fld = py_strip field; details = attr_dict r ''details'' in
      if fld = [] then PNone
      else if py_startswith fld ''details.'' then deep_get details (drop 8 fld)
      else if py_startswith fld ''case.'' \<and> step_case ds r \<noteq> None
        then extract_attack_chain_case_value (RCase (the (step_case ds r))) (drop 5 fld)
      else first_not_none (row_get r fld)
        (first_not_none (mapping_value details fld)
          (case step_case ds r of
             None \<Rightarrow> PNone
           | Some c \<Rightarrow>
               if fld \<in> set [''agent_id'', ''case_agent_id''] then PStr (cc_agent_id c)
               else if fld \<in> set [''suspect_ip'', ''case_suspect_ip''] then opt_str (cc_suspect_ip c)
               else if fld = ''max_stage'' then PStr (cc_max_stage c)
               else if fld = ''score'' then PInt (cc_score c)
               else PNone)))"

definition extract_source_value :: "correlation_dataset \<Rightarrow> corr_row \<Rightarrow> string \<Rightarrow> string \<Rightarrow> pyval" where
  "extract_source_value ds r field source =
     (case source_kind_of source of
        Some KAlert \<Rightarrow> extract_alert_value r field
      | Some KNetEvent \<Rightarrow> extract_net_event_value r field
      | Some KVuln \<Rightarrow> extract_vuln_value r field
      | Some KExposure \<Rightarrow> extract_exposure_value r field
      | Some KStep \<Rightarrow> extract_attack_chain_step_value ds r field
      | Some KCase \<Rightarrow> extract_attack_chain_case_value r field
      | None \<Rightarrow> PNone)"

text \<open>\<open>str(extract(...) or default).strip()\<close>.\<close>

definition source_text :: "correlation_dataset \<Rightarrow> corr_row \<Rightarrow> string \<Rightarrow> string \<Rightarrow> string" where
  "source_text ds r field source = py_strip (str_or (extract_source_value ds r field source) [])"

section \<open>Entities and groups\<close>

text \<open>
  \<open>resolve_entity\<close>: the group label, the group value, the entity type and the entity value. The
  fall-back for alerts reads the record as an alert.
\<close>

type_synonym entity_key = "string \<times> string \<times> string \<times> string"

definition entity_cfg :: "correlation_rule \<Rightarrow> pydict" where
  "entity_cfg rule = (case cr_entity rule of None \<Rightarrow> [] | Some d \<Rightarrow> d)"

definition entity_fields :: "correlation_rule \<Rightarrow> string list" where
  "entity_fields rule =
     (case pget (entity_cfg rule) ''fields'' of
        PList (x # xs) \<Rightarrow>
          map py_str (filter (\<lambda>item. py_strip (str_or item []) \<noteq> []) (x # xs))
      | _ \<Rightarrow> (let f = py_strip (str_or (pget (entity_cfg rule) ''field'') []) in
              if f = [] then [] else [f]))"

definition resolve_entity :: "correlation_rule \<Rightarrow> corr_row \<Rightarrow> string \<Rightarrow> correlation_dataset \<Rightarrow> entity_key" where
  "resolve_entity rule r source ds =
     (let cfg = entity_cfg rule;
          group_label = str_or (pget cfg ''group_by'') (or_text (cr_group_by rule) ''entity'');
          entity_type = str_or (pget cfg ''type'') (or_text group_label ''entity'');
          fields = entity_fields rule;
          by_fields = (\<lambda>fs.
            let values = filter (\<lambda>t. t \<noteq> []) (map (\<lambda>f. source_text ds r f source) fs);
                v = (if values = [] then ''-'' else py_join '' | '' values)
            in (group_label, v, entity_type, v))
      in if fields \<noteq> [] then by_fields fields
         else case (source_kind_of source, r) of
           (Some KAlert, RAlert a) \<Rightarrow>
             (let gb = or_text (cr_group_by rule) ''src_ip''; fallback = group_value a gb
              in (gb, fallback, gb, fallback))
         | _ \<Rightarrow> by_fields [or_text (cr_group_by rule) ''entity''])"

text \<open>The groups in the order of their first record, each with its records in order.\<close>

definition group_records ::
  "correlation_rule \<Rightarrow> correlation_dataset \<Rightarrow> string \<Rightarrow> corr_row list \<Rightarrow> (entity_key \<times> corr_row list) list" where
  "group_records rule ds source rows =
     foldl (\<lambda>g r. dict_push g (resolve_entity rule r source ds) r) [] rows"

section \<open>Evidence\<close>

record correlation_evidence =
  ev_evidence_type :: string
  ev_timestamp :: time
  ev_alert_id :: pyval
  ev_net_event_id :: pyval
  ev_rule_id :: pyval
  ev_stage :: pyval
  ev_src_ip :: pyval
  ev_dst_ip :: pyval
  ev_dst_port :: pyval
  ev_details :: pydict

definition evidence_payload :: "correlation_evidence \<Rightarrow> pyval" where
  "evidence_payload e = PDict
     [(''evidence_type'', PStr (ev_evidence_type e)), (''timestamp'', PStr (iso_format ''T'' (ev_timestamp e))),
      (''alert_id'', ev_alert_id e), (''net_event_id'', ev_net_event_id e), (''rule_id'', ev_rule_id e),
      (''stage'', ev_stage e), (''src_ip'', ev_src_ip e), (''dst_ip'', ev_dst_ip e),
      (''dst_port'', ev_dst_port e), (''details'', PDict (ev_details e))]"

definition evidence_signature :: "correlation_evidence \<Rightarrow> string" where
  "evidence_signature e = stable_json (evidence_payload e)"

definition setdefault_attr :: "corr_row \<Rightarrow> pydict \<Rightarrow> string \<times> string \<Rightarrow> pydict" where
  "setdefault_attr r payload kn = dict_setdefault payload (fst kn) (row_get r (snd kn))"

definition mk_evidence :: "string \<Rightarrow> time \<Rightarrow> pyval \<Rightarrow> pydict \<Rightarrow> correlation_evidence" where
  "mk_evidence ty ts stage payload =
     \<lparr>ev_evidence_type = ty, ev_timestamp = ts, ev_alert_id = PNone, ev_net_event_id = PNone,
      ev_rule_id = PNone, ev_stage = stage, ev_src_ip = PNone, ev_dst_ip = PNone, ev_dst_port = PNone,
      ev_details = payload\<rparr>"

definition with_endpoints :: "corr_row \<Rightarrow> correlation_evidence \<Rightarrow> correlation_evidence" where
  "with_endpoints r e =
     e\<lparr>ev_src_ip := row_get r ''src_ip'', ev_dst_ip := row_get r ''dst_ip'', ev_dst_port := row_get r ''dst_port''\<rparr>"

text \<open>The engines pass no \<open>details\<close>; the payload starts from them all the same.\<close>

definition build_evidence_item ::
  "time \<Rightarrow> corr_row \<Rightarrow> string \<Rightarrow> correlation_dataset \<Rightarrow> pyval \<Rightarrow> pydict \<Rightarrow> correlation_evidence" where
  "build_evidence_item now r source ds stage details =
     (let normalized = norm_source source;
          ts = row_ts now normalized r;
          fill = foldl (setdefault_attr r) details
      in case kind_of_name normalized of
        Some KAlert \<Rightarrow>
          with_endpoints r (mk_evidence ''alert'' ts stage
            (fill [(''description'', ''description''), (''severity'', ''severity'')]))
            \<lparr>ev_alert_id := row_get r ''id'', ev_rule_id := row_get r ''rule_id''\<rparr>
      | Some KNetEvent \<Rightarrow>
          with_endpoints r (mk_evidence ''net_event'' ts stage
            (fill [(''event_type'', ''event_type''), (''agent_id'', ''agent_id'')]))
            \<lparr>ev_net_event_id := row_get r ''id''\<rparr>
      | Some KVuln \<Rightarrow>
          mk_evidence ''vulnerability'' ts stage
            (fill [(''finding_id'', ''id''), (''asset_key'', ''asset_key''),
                   (''asset_agent_id'', ''asset_agent_id''), (''cve'', ''cve''), (''severity'', ''severity'')])
      | Some KExposure \<Rightarrow>
          mk_evidence ''exposure_finding'' ts stage
            (dict_setdefault
              (fill [(''finding_id'', ''id''), (''finding_key'', ''finding_key''), (''asset_key'', ''asset_key''),
                     (''agent_id'', ''agent_id'')])
              ''reason_codes'' (PList (list_or_empty (row_get r ''reason_codes''))))
      | Some KStep \<Rightarrow>
          with_endpoints r (mk_evidence ''attack_chain_step'' ts (py_or stage (row_get r ''stage''))
            (dict_setdefault
              (dict_setdefault (fill [(''case_id'', ''case_id''), (''label'', ''label'')])
                ''kind'' (extract_attack_chain_step_value ds r ''kind''))
              ''technique_id'' (extract_attack_chain_step_value ds r ''technique_id'')))
            \<lparr>ev_net_event_id := row_get r ''event_id''\<rparr>
      | _ \<Rightarrow>
          (mk_evidence ''attack_chain_case'' ts stage
            (fill [(''case_id'', ''id''), (''agent_id'', ''agent_id''), (''suspect_ip'', ''suspect_ip''),
                   (''score'', ''score''), (''max_stage'', ''max_stage'')]))
            \<lparr>ev_src_ip := row_get r ''suspect_ip''\<rparr>)"

section \<open>Field filters\<close>

definition empty_value :: "pyval \<Rightarrow> bool" where
  "empty_value v = (v = PNone \<or> v = PStr [] \<or> v = PList [] \<or> v = PDict [])"

text \<open>
  One filter: \<open>Inr True\<close> lets the loop go on, \<open>Inr False\<close> is the \<open>return False\<close>. An operator
  the code does not name lets the record pass.
\<close>

definition field_filter_holds :: "pyval \<Rightarrow> string \<Rightarrow> pyval \<Rightarrow> py_error + bool" where
  "field_filter_holds actual operator expected =
     (if operator = ''exists'' then Inr (\<not> empty_value actual)
      else if operator = ''truthy'' then Inr (truthy actual)
      else if operator = ''eq'' then Inr (py_eq actual expected)
      else if operator = ''neq'' then Inr (\<not> py_eq actual expected)
      else if operator = ''in'' then ebind (iter_or expected) (\<lambda>xs. Inr (py_in actual xs))
      else if operator = ''contains'' then
        (case actual of
           PList xs \<Rightarrow> Inr (py_in expected xs)
         | _ \<Rightarrow> Inr (py_contains (str_or actual []) (str_or expected [])))
      else if operator = ''contains_any'' then
        ebind (iter_or expected) (\<lambda>values.
          case actual of
            PList xs \<Rightarrow> Inr (list_ex (\<lambda>item. py_in item xs) values)
          | _ \<Rightarrow> Inr (list_ex (\<lambda>item. py_contains (str_or actual []) (str_or item [])) values))
      else if operator = ''gte'' then Inr (\<not> coerce_int actual (- (10 ^ 9)) < coerce_int expected 0)
      else if operator = ''lte'' then Inr (\<not> coerce_int actual (10 ^ 9) > coerce_int expected 0)
      else Inr True)"

fun field_filters_loop :: "correlation_dataset \<Rightarrow> corr_row \<Rightarrow> string \<Rightarrow> pyval list \<Rightarrow> py_error + bool" where
  "field_filters_loop ds r source [] = Inr True"
| "field_filters_loop ds r source (flt # flts) =
     ebind (as_dict flt) (\<lambda>d.
       let field_name = py_strip (str_or (pget d ''field'') []);
           operator = py_lower (py_strip (str_or (py_or (pget d ''op'') (pget d ''operator'')) ''eq''));
           actual = extract_source_value ds r field_name source
       in ebind (field_filter_holds actual operator (pget d ''value'')) (\<lambda>ok.
            if ok then field_filters_loop ds r source flts else Inr False))"

definition apply_field_filters :: "corr_row \<Rightarrow> string \<Rightarrow> correlation_dataset \<Rightarrow> pyval \<Rightarrow> py_error + bool" where
  "apply_field_filters r source ds filters =
     ebind (iter_or filters) (field_filters_loop ds r source)"

fun filter_loop ::
  "correlation_dataset \<Rightarrow> string \<Rightarrow> string list \<Rightarrow> string list \<Rightarrow> pyval \<Rightarrow> corr_row list \<Rightarrow> py_error + corr_row list" where
  "filter_loop ds source inc exc flts [] = Inr []"
| "filter_loop ds source inc exc flts (r # rs) =
     (if source_kind_of source = Some KAlert \<and> \<not> passes_filter (str_or (row_get r ''rule_id'') []) inc exc
      then filter_loop ds source inc exc flts rs
      else ebind (apply_field_filters r source ds flts) (\<lambda>ok.
        if \<not> ok then filter_loop ds source inc exc flts rs
        else ebind (filter_loop ds source inc exc flts rs) (\<lambda>out. Inr (r # out))))"

definition filter_records ::
  "corr_row list \<Rightarrow> string \<Rightarrow> correlation_dataset \<Rightarrow> pyval list \<Rightarrow> pyval list \<Rightarrow> pyval \<Rightarrow> py_error + corr_row list" where
  "filter_records records source ds include_patterns exclude_patterns field_filters =
     filter_loop ds source (norm_patterns include_patterns) (norm_patterns exclude_patterns) field_filters records"

section \<open>The alert sample\<close>

text \<open>
  Newest first, the first row of every id, cut at the limit, then oldest first. Rows without an id
  do not occur among alerts; the \<open>None\<close> branch of the code is the \<open>PNone\<close> one here.
\<close>

fun dedupe_loop :: "('a \<Rightarrow> pyval) \<Rightarrow> nat \<Rightarrow> pyval list \<Rightarrow> 'a list \<Rightarrow> 'a list \<Rightarrow> 'a list" where
  "dedupe_loop ident limit seen out [] = out"
| "dedupe_loop ident limit seen out (row # rows) =
     (if ident row \<in> set seen then dedupe_loop ident limit seen out rows
      else (let seen' = (if ident row = PNone then seen else ident row # seen); out' = out @ [row] in
        if limit \<le> length out' then out' else dedupe_loop ident limit seen' out' rows))"

definition dedupe_alert_rows :: "(corr_row \<Rightarrow> time) \<Rightarrow> corr_row list \<Rightarrow> int \<Rightarrow> corr_row list" where
  "dedupe_alert_rows created_at rows sample_limit =
     rev (dedupe_loop (\<lambda>r. row_get r ''id'') (nat (max 1 sample_limit)) [] [] (sort_desc created_at rows))"

section \<open>Matches and incidents\<close>

record correlation_match =
  cm_correlation_rule_id :: int
  cm_correlation_rule_name :: string
  cm_severity :: string
  cm_group_by :: string
  cm_group_value :: string
  cm_started_at :: time
  cm_ended_at :: time
  cm_alert_count :: int
  cm_unique_rules :: "string list"
  cm_stage_hits :: "(string \<times> int) list"
  cm_entity_type :: "string option"
  cm_entity_value :: "string option"
  cm_risk_score :: "int option"
  cm_confidence :: "int option"
  cm_summary :: "string option"
  cm_context :: pydict
  cm_sample_alert_rows :: "corr_row list"
  cm_evidence_items :: "correlation_evidence list"

definition incident_key :: "correlation_match \<Rightarrow> string" where
  "incident_key m =
     ''cr'' @ int_str (cm_correlation_rule_id m) @ '':'' @ cm_group_value m @ '':'' @ iso_format ''T'' (cm_started_at m)"

text \<open>\<open>alert_ref\<close>: the fields of an alert an incident shows.\<close>

record correlation_alert_ref =
  ar_id :: pyval
  ar_created_at :: time
  ar_rule_id :: pyval
  ar_severity :: pyval
  ar_src_ip :: pyval
  ar_dst_ip :: pyval
  ar_dst_port :: pyval
  ar_description :: pyval

definition alert_ref :: "(corr_row \<Rightarrow> time) \<Rightarrow> corr_row \<Rightarrow> correlation_alert_ref" where
  "alert_ref created_at a =
     \<lparr>ar_id = row_get a ''id'', ar_created_at = created_at a, ar_rule_id = row_get a ''rule_id'',
      ar_severity = row_get a ''severity'', ar_src_ip = row_get a ''src_ip'', ar_dst_ip = row_get a ''dst_ip'',
      ar_dst_port = row_get a ''dst_port'', ar_description = row_get a ''description''\<rparr>"

record correlation_incident_out =
  ci_id :: string
  ci_correlation_rule_id :: int
  ci_correlation_rule_name :: string
  ci_severity :: string
  ci_group_by :: string
  ci_group_value :: string
  ci_entity_type :: "string option"
  ci_entity_value :: "string option"
  ci_started_at :: time
  ci_ended_at :: time
  ci_alert_count :: int
  ci_unique_rules :: "string list"
  ci_stage_hits :: "(string \<times> int) list"
  ci_risk_score :: "int option"
  ci_confidence :: "int option"
  ci_summary :: "string option"
  ci_context :: pydict
  ci_sample_alerts :: "correlation_alert_ref list"
  ci_evidence_items :: "correlation_evidence list"

definition to_out :: "(corr_row \<Rightarrow> time) \<Rightarrow> correlation_match \<Rightarrow> correlation_incident_out" where
  "to_out created_at m =
     \<lparr>ci_id = incident_key m, ci_correlation_rule_id = cm_correlation_rule_id m,
      ci_correlation_rule_name = cm_correlation_rule_name m, ci_severity = cm_severity m,
      ci_group_by = cm_group_by m, ci_group_value = cm_group_value m,
      ci_entity_type = cm_entity_type m, ci_entity_value = cm_entity_value m,
      ci_started_at = cm_started_at m, ci_ended_at = cm_ended_at m,
      ci_alert_count = max 0 (cm_alert_count m),
      ci_unique_rules = sorted_set (filter (\<lambda>s. py_strip s \<noteq> []) (cm_unique_rules m)),
      ci_stage_hits = cm_stage_hits m, ci_risk_score = cm_risk_score m, ci_confidence = cm_confidence m,
      ci_summary = cm_summary m, ci_context = cm_context m,
      ci_sample_alerts = map (alert_ref created_at) (sort_desc created_at (cm_sample_alert_rows m)),
      ci_evidence_items = sort_desc ev_timestamp (cm_evidence_items m)\<rparr>"

text \<open>\<open>sorted({str(row.rule_id or "") for row in rows if ...})\<close>, and \<open>hasattr(row, "rule_id")\<close>.\<close>

definition unique_rules_of :: "corr_row list \<Rightarrow> string list" where
  "unique_rules_of rows =
     sorted_set (filter (\<lambda>s. py_strip s \<noteq> []) (map (\<lambda>r. str_or (row_get r ''rule_id'') []) rows))"

definition alert_rows_of :: "corr_row list \<Rightarrow> corr_row list" where
  "alert_rows_of rows = filter (\<lambda>r. row_has r ''rule_id'') rows"

text \<open>\<open>rule.strategy_config or {}\<close> and the typed settings every engine reads.\<close>

definition strategy_cfg :: "correlation_rule \<Rightarrow> pydict" where
  "strategy_cfg rule = (case cr_strategy_config rule of None \<Rightarrow> [] | Some d \<Rightarrow> d)"

definition rule_severity :: "correlation_rule \<Rightarrow> string \<Rightarrow> string" where
  "rule_severity rule d = or_text (cr_severity rule) d"

definition cfg_source :: "pydict \<Rightarrow> string" where
  "cfg_source cfg = py_lower (py_strip (str_or (pget cfg ''source'') ''alerts''))"

section \<open>Facts about patterns\<close>

lemma norm_loop_keys:
  "distinct (map py_lower (norm_loop seen v)) \<and> set (map py_lower (norm_loop seen v)) \<inter> set seen = {}"
  by (induction seen v rule: norm_loop.induct) (auto simp: Let_def)

lemma norm_loop_elem:
  "s \<in> set (norm_loop seen v) \<Longrightarrow> s \<noteq> [] \<and> py_strip s = s \<and> (\<exists>raw \<in> set v. s = py_strip (str_or raw []))"
  by (induction seen v rule: norm_loop.induct) (auto simp: Let_def split: if_splits)

lemma norm_loop_covers:
  "raw \<in> set v \<Longrightarrow> py_strip (str_or raw []) \<noteq> [] \<Longrightarrow>
   py_lower (py_strip (str_or raw [])) \<in> set (map py_lower (norm_loop seen v)) \<union> set seen"
proof (induction seen v rule: norm_loop.induct)
  case (2 seen raw' v)
  let ?s = "py_strip (str_or raw' [])"
  consider "?s = []" | "?s \<noteq> []" "py_lower ?s \<in> set seen" | "?s \<noteq> []" "py_lower ?s \<notin> set seen"
    by blast
  then show ?case
  proof cases
    case 1
    with 2 show ?thesis by auto
  next
    case 2
    with "2.IH"(2)[OF refl _ refl] "2.prems" show ?thesis by auto
  next
    case 3
    with "2.IH"(3)[OF refl _ refl] "2.prems" show ?thesis by (auto simp: Let_def)
  qed
qed simp

lemma norm_loop_fixed:
  "list_all (\<lambda>s. s \<noteq> [] \<and> py_strip s = s) xs \<Longrightarrow> distinct (map py_lower xs) \<Longrightarrow>
   set (map py_lower xs) \<inter> set seen = {} \<Longrightarrow> norm_loop seen (map PStr xs) = xs"
  by (induction xs arbitrary: seen) (auto simp: Let_def)

lemma norm_patterns_idem: "norm_patterns (map PStr (norm_patterns v)) = norm_patterns v"
  unfolding norm_patterns_def
  using norm_loop_keys[of "[]" v] norm_loop_elem[of _ "[]" v]
  by (intro norm_loop_fixed) (auto simp: list_all_iff)

text \<open>\<open>norm_patterns\<close> yields non-empty, stripped patterns that differ in more than letter case;
  it keeps the letters of every non-blank input, adds nothing, and applying it again changes nothing.\<close>

theorem norm_patterns_normal_form:
  "distinct (map py_lower (norm_patterns v)) \<and>
   list_all (\<lambda>s. s \<noteq> [] \<and> py_strip s = s) (norm_patterns v) \<and>
   set (map py_lower (norm_patterns v)) =
     {py_lower (py_strip (str_or raw [])) | raw. raw \<in> set v \<and> py_strip (str_or raw []) \<noteq> []} \<and>
   norm_patterns (map PStr (norm_patterns v)) = norm_patterns v"
proof (intro conjI)
  show "distinct (map py_lower (norm_patterns v))"
    using norm_loop_keys[of "[]" v] by (simp add: norm_patterns_def)
  show "list_all (\<lambda>s. s \<noteq> [] \<and> py_strip s = s) (norm_patterns v)"
    by (auto simp: norm_patterns_def list_all_iff dest: norm_loop_elem)
  show "set (map py_lower (norm_patterns v)) =
     {py_lower (py_strip (str_or raw [])) | raw. raw \<in> set v \<and> py_strip (str_or raw []) \<noteq> []}"
    using norm_loop_covers[of _ v "[]"]
    by (auto simp: norm_patterns_def dest!: norm_loop_elem)
qed (rule norm_patterns_idem)

section \<open>Facts about filters\<close>

lemma passes_filter_iff:
  "passes_filter rid inc exc \<longleftrightarrow>
     \<not> match_any rid exc \<and> (inc = [] \<or> match_any rid inc)"
  by (auto simp: passes_filter_def match_any_def)

definition record_passes ::
  "correlation_dataset \<Rightarrow> string \<Rightarrow> string list \<Rightarrow> string list \<Rightarrow> pyval \<Rightarrow> corr_row \<Rightarrow> bool" where
  "record_passes ds source inc exc flts r =
     ((source_kind_of source = Some KAlert \<longrightarrow> passes_filter (str_or (row_get r ''rule_id'') []) inc exc) \<and>
      apply_field_filters r source ds flts = Inr True)"

lemma filter_loop_filter:
  "filter_loop ds source inc exc flts rs = Inr out \<Longrightarrow> out = filter (record_passes ds source inc exc flts) rs"
proof (induction rs arbitrary: out)
  case (Cons r rs)
  show ?case
  proof (cases "source_kind_of source = Some KAlert \<and> \<not> passes_filter (str_or (row_get r ''rule_id'') []) inc exc")
    case True
    with Cons show ?thesis by (simp add: record_passes_def)
  next
    case False
    with Cons.prems obtain ok where ok: "apply_field_filters r source ds flts = Inr ok"
      by (auto simp: bind_simps)
    from False Cons ok show ?thesis
      by (cases ok) (auto simp: record_passes_def bind_simps)
  qed
qed simp

text \<open>A successful \<open>filter_records\<close> returns exactly the records that pass, in order: an alert
  whose rule id matches an exclude pattern never passes, whatever the include patterns say, and every
  returned record satisfies all field filters.\<close>

theorem filter_records_exact:
  assumes "filter_records records source ds inc exc flts = Inr out"
  shows "out = filter (record_passes ds source (norm_patterns inc) (norm_patterns exc) flts) records \<and>
    (\<forall>r \<in> set out. r \<in> set records \<and> apply_field_filters r source ds flts = Inr True \<and>
       (source_kind_of source = Some KAlert \<longrightarrow>
          \<not> match_any (str_or (row_get r ''rule_id'') []) (norm_patterns exc) \<and>
          (norm_patterns inc = [] \<or> match_any (str_or (row_get r ''rule_id'') []) (norm_patterns inc))))"
proof -
  from assms have "out = filter (record_passes ds source (norm_patterns inc) (norm_patterns exc) flts) records"
    unfolding filter_records_def by (rule filter_loop_filter)
  then show ?thesis by (auto simp: record_passes_def passes_filter_iff)
qed

section \<open>Facts about segments\<close>

lemma concat_segment_loop: "cur \<noteq> [] \<Longrightarrow> concat (segment_loop key w cur start rest) = cur @ rest"
  by (induction key w cur start rest rule: segment_loop.induct) auto

definition good_segment :: "('a \<Rightarrow> time) \<Rightarrow> int \<Rightarrow> 'a list \<Rightarrow> bool" where
  "good_segment key w seg = (seg \<noteq> [] \<and> list_all (\<lambda>a. within w (key (hd seg)) (key a)) seg)"

lemma segment_loop_good:
  "good_segment key w cur \<Longrightarrow> start = key (hd cur) \<Longrightarrow> 0 \<le> w \<Longrightarrow>
   list_all (good_segment key w) (segment_loop key w cur start rest)"
proof (induction key w cur start rest rule: segment_loop.induct)
  case (1 key w cur start)
  then show ?case by simp
next
  case (2 key w cur start a rest)
  have one: "good_segment key w [a]" using "2.prems"(3) by (simp add: good_segment_def within_def)
  show ?case
  proof (cases "within w start (key a)")
    case True
    with "2.prems" have "good_segment key w (cur @ [a])" and "start = key (hd (cur @ [a]))"
      by (auto simp: good_segment_def)
    with "2.IH"(1)[OF True] "2.prems"(3) True show ?thesis by simp
  next
    case False
    with "2.IH"(2)[OF False one] "2.prems" show ?thesis by simp
  qed
qed

lemma segment_loop_hd: "cur \<noteq> [] \<Longrightarrow> \<exists>seg segs. segment_loop key w cur start rest = seg # segs \<and> hd seg = hd cur"
proof (induction rest arbitrary: cur)
  case (Cons a rest)
  with Cons.IH[of "cur @ [a]"] show ?case by (cases "within w start (key a)") simp_all
qed simp

text \<open>Consecutive segments: the next one starts outside the window of the one before.\<close>

fun far_apart :: "('a \<Rightarrow> time) \<Rightarrow> int \<Rightarrow> 'a list list \<Rightarrow> bool" where
  "far_apart key w (s1 # s2 # segs) = (\<not> within w (key (hd s1)) (key (hd s2)) \<and> far_apart key w (s2 # segs))"
| "far_apart key w segs = True"

lemma segment_loop_far:
  "cur \<noteq> [] \<Longrightarrow> far_apart key w (segment_loop key w cur (key (hd cur)) rest)"
proof (induction rest arbitrary: cur)
  case (Cons a rest)
  show ?case
  proof (cases "within w (key (hd cur)) (key a)")
    case True
    with Cons.prems Cons.IH[of "cur @ [a]"] show ?thesis by simp
  next
    case False
    obtain seg segs where s: "segment_loop key w [a] (key a) rest = seg # segs" "hd seg = a"
      using segment_loop_hd[of "[a]" key w "key a" rest] by auto
    with Cons.IH[of "[a]"] False show ?thesis by simp
  qed
qed simp

lemma segment_by_window_facts:
  "concat (segment_by_window key alerts w) = sort_key key alerts \<and>
   list_all (good_segment key (max 1 w)) (segment_by_window key alerts w) \<and>
   far_apart key (max 1 w) (segment_by_window key alerts w)"
proof (cases "sort_key key alerts")
  case Nil
  then show ?thesis by (simp add: segment_by_window_def)
next
  case (Cons a rest)
  have "good_segment key (max 1 w) [a]" by (simp add: good_segment_def within_def)
  then have good: "list_all (good_segment key (max 1 w)) (segment_loop key (max 1 w) [a] (key a) rest)"
    by (rule segment_loop_good) simp_all
  have far: "far_apart key (max 1 w) (segment_loop key (max 1 w) [a] (key a) rest)"
    using segment_loop_far[of "[a]" key "max 1 w" rest] by simp
  have "segment_by_window key alerts w = segment_loop key (max 1 w) [a] (key a) rest"
    using Cons by (simp add: segment_by_window_def)
  then show ?thesis
    using good far Cons concat_segment_loop[of "[a]" key "max 1 w" "key a" rest] by simp
qed

text \<open>\<open>segment_by_window\<close> cuts the alerts, sorted by time, into consecutive non-empty segments,
  loses and repeats nothing, keeps every alert of a segment within the window of the segment's first
  alert, and starts a new segment only outside the window of the previous one.\<close>

theorem segment_by_window_correct:
  "concat (segment_by_window key alerts w) = sort_key key alerts \<and>
   list_all (good_segment key (max 1 w)) (segment_by_window key alerts w) \<and>
   far_apart key (max 1 w) (segment_by_window key alerts w)"
  by (rule segment_by_window_facts)

section \<open>Facts about the alert sample\<close>

fun first_per_id :: "('a \<Rightarrow> pyval) \<Rightarrow> pyval list \<Rightarrow> 'a list \<Rightarrow> 'a list" where
  "first_per_id ident seen [] = []"
| "first_per_id ident seen (r # rs) =
     (if ident r \<in> set seen then first_per_id ident seen rs
      else r # first_per_id ident (if ident r = PNone then seen else ident r # seen) rs)"

lemma dedupe_loop_take:
  "length out < limit \<Longrightarrow>
   dedupe_loop ident limit seen out rows = out @ take (limit - length out) (first_per_id ident seen rows)"
proof (induction rows arbitrary: seen out)
  case (Cons r rows)
  let ?seen = "if ident r = PNone then seen else ident r # seen"
  show ?case
  proof (cases "ident r \<in> set seen")
    case True
    with Cons show ?thesis by simp
  next
    case False
    show ?thesis
    proof (cases "limit \<le> Suc (length out)")
      case True
      then have "limit - length out = Suc 0" using Cons.prems by simp
      with False True show ?thesis by (simp add: Let_def)
    next
      case nlim: False
      then have "limit - length out = Suc (limit - Suc (length out))" by simp
      with False nlim Cons.IH[of "out @ [r]" ?seen] show ?thesis by (simp add: Let_def)
    qed
  qed
qed simp

lemma first_per_id_subseq: "subseq (first_per_id ident seen rows) rows"
  by (induction ident seen rows rule: first_per_id.induct) auto

lemma first_per_id_fresh:
  "r \<in> set (first_per_id ident seen rows) \<Longrightarrow> ident r \<notin> set seen"
  by (induction ident seen rows rule: first_per_id.induct) (auto split: if_splits)

lemma first_per_id_distinct:
  "distinct (filter (\<lambda>v. v \<noteq> PNone) (map ident (first_per_id ident seen rows)))"
  by (induction ident seen rows rule: first_per_id.induct) (auto dest: first_per_id_fresh)

lemma first_per_id_covers:
  "r \<in> set rows \<Longrightarrow> ident r \<in> ident ` set (first_per_id ident seen rows) \<union> set seen"
  by (induction ident seen rows rule: first_per_id.induct) (auto split: if_splits)

lemma first_per_id_first:
  assumes "sorted (rev (map f rows))" and "r \<in> set rows" and "o1 \<in> set (first_per_id ident seen rows)"
    and "ident r = ident o1" and "ident r \<noteq> PNone"
  shows "(f r :: 'b::linorder) \<le> f o1"
  using assms
proof (induction rows arbitrary: seen)
  case (Cons a rows)
  show ?case
  proof (cases "ident a \<in> set seen")
    case True
    with Cons first_per_id_fresh[of o1 ident seen rows] show ?thesis
      by (auto simp: sorted_append)
  next
    case False
    with Cons first_per_id_fresh[of o1 ident "ident a # seen" rows] show ?thesis
      by (auto simp: sorted_append split: if_splits)
  qed
qed simp

lemma sorted_wrt_subseq: "subseq xs ys \<Longrightarrow> sorted_wrt P ys \<Longrightarrow> sorted_wrt P xs"
proof (induction rule: list_emb.induct)
  case (list_emb_Cons2 x y xs ys)
  then show ?case by (auto dest: list_emb_set)
qed auto

lemma subseq_set: "subseq xs ys \<Longrightarrow> set xs \<subseteq> set ys"
  by (auto dest: list_emb_set)

lemma sorted_rev_map_subseq:
  "subseq xs ys \<Longrightarrow> sorted (rev (map f ys)) \<Longrightarrow> sorted (rev (map f xs))"
  by (simp add: sorted_wrt_rev sorted_wrt_map sorted_wrt_subseq)

text \<open>\<open>dedupe_alert_rows\<close> returns at most the limit of rows (at least one is allowed), oldest first,
  all among the given rows and no id twice; each is the newest row of its id; and when the limit is
  not reached, every id is there.\<close>

theorem dedupe_alert_rows_correct:
  fixes rows :: "corr_row list"
  defines "ident \<equiv> (\<lambda>r. row_get r ''id'')"
  assumes "\<forall>r \<in> set rows. ident r \<noteq> PNone"
  shows "length (dedupe_alert_rows ts rows n) \<le> nat (max 1 n) \<and>
    sorted (map ts (dedupe_alert_rows ts rows n)) \<and>
    set (dedupe_alert_rows ts rows n) \<subseteq> set rows \<and>
    distinct (map ident (dedupe_alert_rows ts rows n)) \<and>
    (\<forall>r \<in> set rows. \<forall>s \<in> set (dedupe_alert_rows ts rows n). ident r = ident s \<longrightarrow> ts r \<le> ts s) \<and>
    (length (dedupe_alert_rows ts rows n) < nat (max 1 n) \<longrightarrow>
       ident ` set (dedupe_alert_rows ts rows n) = ident ` set rows)"
proof -
  let ?k = "nat (max 1 n)"
  let ?srt = "sort_desc ts rows"
  let ?all = "first_per_id ident [] ?srt"
  have eq: "dedupe_alert_rows ts rows n = rev (take ?k ?all)"
    using dedupe_loop_take[of "[]" ?k ident "[]" ?srt] by (simp add: dedupe_alert_rows_def ident_def)
  have sub: "subseq (take ?k ?all) ?srt"
    by (meson first_per_id_subseq prefix_imp_subseq subseq_order.order_trans take_is_prefix)
  have srt: "sorted (rev (map ts (take ?k ?all)))"
    by (rule sorted_rev_map_subseq[OF sub]) (rule sorted_sort_desc)
  have inc: "set (take ?k ?all) \<subseteq> set rows"
    using subseq_set[OF sub] by simp
  have nn: "filter (\<lambda>v. v \<noteq> PNone) (map ident ?all) = map ident ?all"
    using subseq_set[OF first_per_id_subseq[of ident "[]" ?srt]] assms(2) by (auto simp: filter_id_conv)
  have dis: "distinct (map ident ?all)"
    using first_per_id_distinct[of ident "[]" ?srt] nn by simp
  have newest: "ts r \<le> ts s" if "r \<in> set rows" "s \<in> set (take ?k ?all)" "ident r = ident s" for r s
    using first_per_id_first[OF sorted_sort_desc, of r ts rows s ident "[]"] that assms(2) in_set_takeD
    by fastforce
  have cover: "ident ` set (take ?k ?all) = ident ` set rows" if "length (take ?k ?all) < ?k"
  proof -
    have "take ?k ?all = ?all" using that by simp
    moreover have "ident ` set rows \<subseteq> ident ` set ?all"
      using first_per_id_covers[of _ ?srt ident "[]"] by auto
    ultimately show ?thesis using inc by auto
  qed
  have "distinct (map ident (rev (take ?k ?all)))"
    using dis unfolding rev_map[symmetric] distinct_rev by (simp add: take_map[symmetric])
  then show ?thesis
    unfolding eq using srt inc newest cover by (auto simp: rev_map)
qed

theorem dedupe_alert_rows_correct_witness:
  "length (dedupe_alert_rows (row_ts 0 ''alerts'')
     [RAlert (demo_alert 1 5 ''r''), RAlert (demo_alert 2 7 ''r''), RAlert (demo_alert 1 9 ''r'')] 2) \<le> 2"
  using dedupe_alert_rows_correct[of
    "[RAlert (demo_alert 1 5 ''r''), RAlert (demo_alert 2 7 ''r''), RAlert (demo_alert 1 9 ''r'')]"
    "row_ts 0 ''alerts''" 2]
  by (simp add: row_get_def pget_def dict_get_def alert_attrs_def demo_alert_def)

theorem filter_records_exact_witness:
  "filter_records [RAlert (demo_alert 1 5 ''ssh''), RAlert (demo_alert 2 7 ''dns'')] ''alerts'' demo_dataset
     [] [PStr ''ssh''] PNone = Inr [RAlert (demo_alert 2 7 ''dns'')] \<and>
   \<not> match_any ''dns'' (norm_patterns [PStr ''ssh''])"
proof -
  have ids: "str_or (row_get (RAlert (demo_alert i t s)) ''rule_id'') [] = s" for i t s
    by (simp add: row_get_def pget_def dict_get_def alert_attrs_def demo_alert_def)
  have pats: "norm_patterns [PStr ''ssh''] = [''ssh''] \<and> norm_patterns [] = []"
    by (simp add: norm_patterns_def py_defs)
  have run: "filter_records [RAlert (demo_alert 1 5 ''ssh''), RAlert (demo_alert 2 7 ''dns'')] ''alerts'' demo_dataset
     [] [PStr ''ssh''] PNone = Inr [RAlert (demo_alert 2 7 ''dns'')]"
    using ids pats by (simp add: filter_records_def passes_filter_def match_any_def apply_field_filters_def
        fnmatchcase_def py_defs)
  have "\<not> match_any (str_or (row_get (RAlert (demo_alert 2 7 ''dns'')) ''rule_id'') []) (norm_patterns [PStr ''ssh''])"
    using filter_records_exact[OF run] by simp
  with run ids show ?thesis by simp
qed

end
