(* ===== verification/Corr_Windows.thy ===== *)
theory Corr_Windows
  imports Corr_Base
begin

text \<open>
  The sliding windows of the correlation engines: \<open>_latest_rolling_alert_window\<close> (threshold),
  \<open>_latest_window\<close> (new and rare entities) and \<open>_latest_cardinality_window\<close>. Each moves two indices
  over the rows sorted by time and keeps the last window that qualifies. They are proved equal to a
  reference that filters the rows before each right end, and they meet the contract of the locale
  \<open>window_selector\<close>, which is all the engines rely on.
\<close>

section \<open>The two indices\<close>

function advance_left :: "('a \<Rightarrow> time) \<Rightarrow> int \<Rightarrow> 'a list \<Rightarrow> nat \<Rightarrow> nat \<Rightarrow> nat" where
  "advance_left key w ordered right left =
     (if left \<le> right \<and> \<not> within w (key (ordered ! left)) (key (ordered ! right))
      then advance_left key w ordered right (Suc left) else left)"
  by pat_completeness auto
termination
  by (relation "measure (\<lambda>(key, w, ordered, right, left). Suc right - left)") auto

declare advance_left.simps [simp del]

definition slice :: "'a list \<Rightarrow> nat \<Rightarrow> nat \<Rightarrow> 'a list" where
  "slice xs left right = take (Suc right - left) (drop left xs)"

definition slide_step ::
  "('a \<Rightarrow> time) \<Rightarrow> int \<Rightarrow> int \<Rightarrow> 'a list \<Rightarrow> nat \<times> 'a list \<Rightarrow> nat \<Rightarrow> nat \<times> 'a list" where
  "slide_step key w threshold ordered st right =
     (case st of (left, best) \<Rightarrow>
        let left' = advance_left key w ordered right left;
            current = slice ordered left' right
        in (left', if threshold \<le> int (length current) then current else best))"

definition latest_rolling_alert_window :: "time \<Rightarrow> corr_row list \<Rightarrow> int \<Rightarrow> int \<Rightarrow> corr_row list" where
  "latest_rolling_alert_window now rows window_seconds min_alerts =
     (if rows = [] then []
      else let key = row_ts now ''alerts'';
               ordered = sort_key key rows
           in snd (foldl (slide_step key (max 1 window_seconds) (max 1 min_alerts) ordered)
                (0, []) [0..<length ordered]))"

definition latest_window :: "time \<Rightarrow> corr_row list \<Rightarrow> string \<Rightarrow> int \<Rightarrow> int \<Rightarrow> corr_row list" where
  "latest_window now rows source window_seconds min_items =
     (if rows = [] then []
      else let key = row_ts now source;
               ordered = sort_key key rows
           in snd (foldl (slide_step key (max 1 window_seconds) (max 1 min_items) ordered)
                (0, []) [0..<length ordered]))"

section \<open>The window with a counter of values\<close>

text \<open>A \<open>Counter\<close>: a missing key counts zero.\<close>

definition counter_get :: "(string \<times> int) list \<Rightarrow> string \<Rightarrow> int" where
  "counter_get c v = (case dict_get c v of None \<Rightarrow> 0 | Some n \<Rightarrow> n)"

definition counter_inc :: "string \<Rightarrow> (string \<times> int) list \<Rightarrow> (string \<times> int) list" where
  "counter_inc v c = (if v = [] then c else dict_set c v (counter_get c v + 1))"

definition counter_dec :: "string \<Rightarrow> (string \<times> int) list \<Rightarrow> (string \<times> int) list" where
  "counter_dec v c =
     (if v = [] then c
      else let c' = dict_set c v (counter_get c v - 1) in
        if counter_get c' v \<le> 0 then filter (\<lambda>kv. fst kv \<noteq> v) c' else c')"

function advance_counting ::
  "('a \<Rightarrow> time) \<Rightarrow> ('a \<Rightarrow> string) \<Rightarrow> int \<Rightarrow> 'a list \<Rightarrow> nat \<Rightarrow> nat \<Rightarrow> (string \<times> int) list \<Rightarrow>
     nat \<times> (string \<times> int) list" where
  "advance_counting key val w ordered right left counts =
     (if left \<le> right \<and> \<not> within w (key (ordered ! left)) (key (ordered ! right))
      then advance_counting key val w ordered right (Suc left) (counter_dec (val (ordered ! left)) counts)
      else (left, counts))"
  by pat_completeness auto
termination
  by (relation "measure (\<lambda>(key, val, w, ordered, right, left, counts). Suc right - left)") auto

declare advance_counting.simps [simp del]

type_synonym 'a cardinality_state = "nat \<times> (string \<times> int) list \<times> 'a list \<times> string list \<times> int"

definition cardinality_step ::
  "('a \<Rightarrow> time) \<Rightarrow> ('a \<Rightarrow> string) \<Rightarrow> int \<Rightarrow> int \<Rightarrow> int \<Rightarrow> 'a list \<Rightarrow> 'a cardinality_state \<Rightarrow> nat \<Rightarrow>
     'a cardinality_state" where
  "cardinality_step key val w min_count distinct_threshold ordered st right =
     (case st of (left, counts, best_rows, best_values, best_distinct) \<Rightarrow>
        case advance_counting key val w ordered right left (counter_inc (val (ordered ! right)) counts) of
          (left', counts') \<Rightarrow>
            let current_rows = slice ordered left' right;
                distinct_values = sort (map fst counts')
            in if min_count \<le> int (length current_rows) \<and> distinct_threshold \<le> int (length distinct_values)
               then (left', counts', current_rows, distinct_values, int (length distinct_values))
               else (left', counts', best_rows, best_values, best_distinct))"

definition latest_cardinality_window ::
  "time \<Rightarrow> corr_row list \<Rightarrow> string \<Rightarrow> correlation_dataset \<Rightarrow> string \<Rightarrow> int \<Rightarrow> int \<Rightarrow> int \<Rightarrow>
     corr_row list \<times> int \<times> string list" where
  "latest_cardinality_window now rows source ds value_field window_seconds threshold min_alerts =
     (if rows = [] then ([], 0, [])
      else let key = row_ts now source;
               val = (\<lambda>r. source_text ds r value_field source);
               ordered = sort_key key rows
           in case foldl (cardinality_step key val (max 1 window_seconds) (max 1 min_alerts) (max 1 threshold) ordered)
                (0, [], [], [], 0) [0..<length ordered] of
                (_, _, best_rows, best_values, best_distinct) \<Rightarrow> (best_rows, best_distinct, best_values))"

section \<open>The reference windows\<close>

text \<open>The rows up to a right end that lie in its window, and the last of a list of candidates.\<close>

definition window_ending :: "('a \<Rightarrow> time) \<Rightarrow> int \<Rightarrow> 'a list \<Rightarrow> nat \<Rightarrow> 'a list" where
  "window_ending key w ordered right =
     filter (\<lambda>r. within w (key r) (key (ordered ! right))) (take (Suc right) ordered)"

definition last_or :: "'a \<Rightarrow> 'a list \<Rightarrow> 'a" where
  "last_or d xs = (if xs = [] then d else last xs)"

definition last_qualifying :: "('a \<Rightarrow> time) \<Rightarrow> int \<Rightarrow> ('a list \<Rightarrow> bool) \<Rightarrow> 'a list \<Rightarrow> 'a list" where
  "last_qualifying key w ok ordered =
     last_or [] (filter ok (map (window_ending key w ordered) [0..<length ordered]))"

section \<open>The indices find the reference window\<close>

lemma slice_eq: "slice xs left right = drop left (take (Suc right) xs)"
  by (simp add: slice_def drop_take)

lemma advance_left_spec:
  "\<lbrakk>left \<le> right; 0 \<le> w\<rbrakk> \<Longrightarrow>
   left \<le> advance_left key w ordered right left \<and> advance_left key w ordered right left \<le> right \<and>
   (\<forall>i. left \<le> i \<and> i < advance_left key w ordered right left \<longrightarrow>
      \<not> within w (key (ordered ! i)) (key (ordered ! right))) \<and>
   within w (key (ordered ! advance_left key w ordered right left)) (key (ordered ! right))"
proof (induction key w ordered right left rule: advance_left.induct)
  case (1 key w ordered right left)
  show ?case
  proof (cases "within w (key (ordered ! left)) (key (ordered ! right))")
    case True
    then show ?thesis using "1.prems" by (subst (1 2 3 4) advance_left.simps) auto
  next
    case False
    then have "left \<noteq> right" using "1.prems"(2) by (auto simp: within_def)
    then have lt: "Suc left \<le> right" using "1.prems"(1) by simp
    have step: "advance_left key w ordered right left = advance_left key w ordered right (Suc left)"
      using False "1.prems" by (subst advance_left.simps) simp
    have IH: "Suc left \<le> advance_left key w ordered right (Suc left) \<and> advance_left key w ordered right (Suc left) \<le> right \<and>
      (\<forall>i. Suc left \<le> i \<and> i < advance_left key w ordered right (Suc left) \<longrightarrow>
        \<not> within w (key (ordered ! i)) (key (ordered ! right))) \<and>
      within w (key (ordered ! advance_left key w ordered right (Suc left))) (key (ordered ! right))"
      using "1.IH" False "1.prems" lt by blast
    have "\<forall>i. left \<le> i \<and> i < advance_left key w ordered right (Suc left) \<longrightarrow>
        \<not> within w (key (ordered ! i)) (key (ordered ! right))"
      using IH False by (metis Suc_leI le_neq_implies_less)
    moreover have "left \<le> advance_left key w ordered right (Suc left)" using IH by linarith
    ultimately show ?thesis unfolding step using IH by blast
  qed
qed

text \<open>A left index is good for a right end when nothing before it is in the window.\<close>

definition left_ok :: "('a \<Rightarrow> time) \<Rightarrow> int \<Rightarrow> 'a list \<Rightarrow> nat \<Rightarrow> nat \<Rightarrow> bool" where
  "left_ok key w ordered right left =
     (left \<le> right \<and> (\<forall>i < left. \<not> within w (key (ordered ! i)) (key (ordered ! right))))"

lemma left_ok_mono:
  assumes "sorted (map key ordered)" and "left_ok key w ordered r left" and "r \<le> right" and "right < length ordered"
  shows "left_ok key w ordered right left"
proof -
  have "key (ordered ! r) \<le> key (ordered ! right)"
    using assms(1,3,4) by (metis (no_types) le_less_trans length_map nth_map sorted_nth_mono)
  with assms(2,3) show ?thesis by (fastforce simp: left_ok_def within_def)
qed

lemma slice_is_window:
  assumes "sorted (map key ordered)" and "right < length ordered" and "left_ok key w ordered right left"
    and "within w (key (ordered ! left)) (key (ordered ! right))"
  shows "slice ordered left right = window_ending key w ordered right"
proof -
  let ?P = "\<lambda>r. within w (key r) (key (ordered ! right))"
  let ?t = "take (Suc right) ordered"
  have len: "length ?t = Suc right" using assms(2) by simp
  have lt: "left \<le> right" using assms(3) by (simp add: left_ok_def)
  have "filter ?P (take left ?t) = []"
    using assms(3) len lt by (fastforce simp: filter_empty_conv left_ok_def in_set_conv_nth)
  moreover have "filter ?P (drop left ?t) = drop left ?t"
  proof (rule filter_True, rule ballI)
    fix x assume "x \<in> set (drop left ?t)"
    then obtain i where i: "i < Suc right - left" "x = ordered ! (left + i)"
      using len lt by (auto simp: in_set_conv_nth)
    then have "key (ordered ! left) \<le> key x"
      using assms(1,2) lt sorted_nth_mono[of "map key ordered" left "left + i"] by simp
    with assms(4) show "?P x" by (simp add: within_def)
  qed
  moreover have "filter ?P ?t = filter ?P (take left ?t) @ filter ?P (drop left ?t)"
    by (metis append_take_drop_id filter_append)
  ultimately show ?thesis by (simp add: slice_eq window_ending_def)
qed

lemma advance_left_window:
  assumes "sorted (map key ordered)" and "right < length ordered" and "left_ok key w ordered right left" and "0 \<le> w"
  shows "left_ok key w ordered right (advance_left key w ordered right left)"
    and "slice ordered (advance_left key w ordered right left) right = window_ending key w ordered right"
proof -
  have le: "left \<le> right" using assms(3) by (simp add: left_ok_def)
  note spec = advance_left_spec[OF le assms(4), of key ordered]
  show ok: "left_ok key w ordered right (advance_left key w ordered right left)"
    unfolding left_ok_def using spec assms(3) by (metis left_ok_def not_le)
  show "slice ordered (advance_left key w ordered right left) right = window_ending key w ordered right"
    using slice_is_window[OF assms(1,2) ok] spec by blast
qed

lemma last_or_snoc [simp]: "last_or d (xs @ [x]) = x"
  by (simp add: last_or_def)

lemma last_or_Nil [simp]: "last_or d [] = d"
  by (simp add: last_or_def)

lemma last_or_filter: "last_or d (filter p xs) = d \<or> last_or d (filter p xs) \<in> set xs \<and> p (last_or d (filter p xs))"
proof (cases "filter p xs = []")
  case False
  have "last (filter p xs) \<in> {x \<in> set xs. p x}" using last_in_set[OF False] by (simp only: set_filter)
  with False show ?thesis unfolding last_or_def by simp
qed (simp add: last_or_def)

lemma slide_fold:
  assumes "sorted (map key ordered)" and "0 \<le> w" and "n \<le> length ordered"
  shows "\<exists>left. foldl (slide_step key w t ordered) (0, []) [0..<n] =
      (left, last_or [] (filter (\<lambda>c. t \<le> int (length c)) (map (window_ending key w ordered) [0..<n]))) \<and>
    (n = 0 \<longrightarrow> left = 0) \<and> (0 < n \<longrightarrow> left_ok key w ordered (n - 1) left)"
  using assms(3)
proof (induction n)
  case (Suc n)
  then obtain left where st: "foldl (slide_step key w t ordered) (0, []) [0..<n] =
      (left, last_or [] (filter (\<lambda>c. t \<le> int (length c)) (map (window_ending key w ordered) [0..<n])))"
    and l0: "n = 0 \<longrightarrow> left = 0" and l1: "0 < n \<longrightarrow> left_ok key w ordered (n - 1) left"
    by auto
  have n: "n < length ordered" using Suc.prems by simp
  have ok: "left_ok key w ordered n left"
  proof (cases "n = 0")
    case True
    with l0 show ?thesis by (simp add: left_ok_def)
  next
    case False
    with l1 left_ok_mono[OF assms(1) _ _ n, of w "n - 1" left] show ?thesis by simp
  qed
  note adv = advance_left_window[OF assms(1) n ok assms(2)]
  have "foldl (slide_step key w t ordered) (0, []) [0..<Suc n] =
      slide_step key w t ordered (foldl (slide_step key w t ordered) (0, []) [0..<n]) n" by simp
  also have "\<dots> = (advance_left key w ordered n left,
      last_or [] (filter (\<lambda>c. t \<le> int (length c)) (map (window_ending key w ordered) [0..<Suc n])))"
    unfolding st slide_step_def using adv(2) by (simp add: Let_def)
  finally show ?case using adv(1) by simp
qed simp

lemma slide_is_last_qualifying:
  assumes "0 \<le> w"
  shows "snd (foldl (slide_step key w t (sort_key key rows)) (0, []) [0..<length (sort_key key rows)]) =
    last_qualifying key w (\<lambda>c. t \<le> int (length c)) (sort_key key rows)"
  using slide_fold[of key "sort_key key rows" w "length (sort_key key rows)" t] assms
  by (auto simp: last_qualifying_def)

section \<open>The contract of a window selector\<close>

text \<open>
  What the engines rely on: the selected rows are among the given ones, in time order, span no more
  than the window, and are at least \<open>n\<close> unless nothing is selected.
\<close>

locale window_selector =
  fixes ts :: "'a \<Rightarrow> time" and w :: int and n :: int and sel :: "'a list \<Rightarrow> 'a list"
  assumes sel_subset: "set (sel rows) \<subseteq> set rows"
    and sel_sorted: "sorted (map ts (sel rows))"
    and sel_span: "sel rows \<noteq> [] \<Longrightarrow> within w (ts (hd (sel rows))) (ts (last (sel rows)))"
    and sel_count: "sel rows \<noteq> [] \<Longrightarrow> n \<le> int (length (sel rows))"
begin

lemma sel_all_within:
  assumes "r \<in> set (sel rows)" and "s \<in> set (sel rows)"
  shows "ts s - ts r \<le> w * 1000000"
proof -
  have ne: "sel rows \<noteq> []" using assms by auto
  have mono: "\<And>i j. i \<le> j \<Longrightarrow> j < length (sel rows) \<Longrightarrow> ts (sel rows ! i) \<le> ts (sel rows ! j)"
    using sel_sorted[of rows] by (metis (no_types) le_less_trans length_map nth_map sorted_nth_mono)
  have "ts (hd (sel rows)) \<le> ts r"
    using assms(1) ne mono[of 0] by (metis hd_conv_nth in_set_conv_nth le0)
  moreover have "ts s \<le> ts (last (sel rows))"
  proof -
    obtain i where "i < length (sel rows)" "s = sel rows ! i" using assms(2) by (metis in_set_conv_nth)
    then show ?thesis using mono[of i "length (sel rows) - 1"] ne by (simp add: last_conv_nth)
  qed
  ultimately show ?thesis using sel_span[OF ne] by (simp add: within_def)
qed

lemma sel_first_last: "sel rows \<noteq> [] \<Longrightarrow> ts (hd (sel rows)) \<le> ts (last (sel rows))"
  using sel_sorted[of rows] by (cases "sel rows") auto

lemma sel_empty: "sel [] = []"
  using sel_subset[of "[]"] by simp

end

lemma window_ending_contract:
  assumes "sorted (map key ordered)" and "right < length ordered" and "0 \<le> w"
  shows "set (window_ending key w ordered right) \<subseteq> set ordered"
    and "sorted (map key (window_ending key w ordered right))"
    and "last (window_ending key w ordered right) = ordered ! right"
    and "within w (key (hd (window_ending key w ordered right))) (key (last (window_ending key w ordered right)))"
proof -
  let ?P = "\<lambda>r. within w (key r) (key (ordered ! right))"
  have eq: "window_ending key w ordered right = filter ?P (take right ordered) @ [ordered ! right]"
    using assms(2,3) by (simp add: window_ending_def take_Suc_conv_app_nth within_def)
  show sub: "set (window_ending key w ordered right) \<subseteq> set ordered"
    by (auto simp: window_ending_def dest: in_set_takeD)
  show "sorted (map key (window_ending key w ordered right))"
    using assms(1) unfolding window_ending_def
    by (metis sorted_filter sorted_wrt_take take_map)
  show lst: "last (window_ending key w ordered right) = ordered ! right"
    unfolding eq by simp
  have "hd (window_ending key w ordered right) \<in> set (window_ending key w ordered right)"
    unfolding eq by (metis append_is_Nil_conv hd_in_set list.distinct(1))
  then show "within w (key (hd (window_ending key w ordered right))) (key (last (window_ending key w ordered right)))"
    unfolding lst by (simp add: window_ending_def)
qed

lemma last_qualifying_cases:
  "last_qualifying key w ok ordered = [] \<or>
   (\<exists>right < length ordered. last_qualifying key w ok ordered = window_ending key w ordered right \<and>
      ok (window_ending key w ordered right))"
proof (cases "filter ok (map (window_ending key w ordered) [0..<length ordered]) = []")
  case False
  then have "last_qualifying key w ok ordered \<in> set (filter ok (map (window_ending key w ordered) [0..<length ordered]))"
    unfolding last_qualifying_def last_or_def by (simp only: if_False last_in_set not_False_eq_True)
  then show ?thesis by auto
qed (simp add: last_qualifying_def)

lemma last_qualifying_selector:
  assumes "0 \<le> w" and "\<And>c. ok c \<Longrightarrow> n \<le> int (length c)"
  shows "window_selector key w n (\<lambda>rows. last_qualifying key w ok (sort_key key rows))"
proof
  fix rows
  let ?o = "sort_key key rows"
  let ?q = "last_qualifying key w ok ?o"
  have srt: "sorted (map key ?o)" by simp
  consider "?q = []" | right where "right < length ?o" "?q = window_ending key w ?o right" "ok ?q"
    using last_qualifying_cases[of key w ok ?o] by metis
  note c = this
  show "set ?q \<subseteq> set rows"
    using c window_ending_contract(1)[OF srt _ assms(1)] by cases auto
  show "sorted (map key ?q)"
    using c window_ending_contract(2)[OF srt _ assms(1)] by cases auto
  show "within w (key (hd ?q)) (key (last ?q))" if "?q \<noteq> []"
    using c that window_ending_contract(4)[OF srt _ assms(1)] by cases auto
  show "n \<le> int (length ?q)" if "?q \<noteq> []"
    using c that assms(2) by cases auto
qed

lemma latest_window_eq:
  "latest_window now rows source w n =
     last_qualifying (row_ts now source) (max 1 w) (\<lambda>c. max 1 n \<le> int (length c)) (sort_key (row_ts now source) rows)"
  using slide_is_last_qualifying[of "max 1 w" "row_ts now source" "max 1 n" rows]
  unfolding latest_window_def Let_def by (cases "rows = []") (simp_all add: last_qualifying_def)

lemma latest_rolling_alert_window_eq:
  "latest_rolling_alert_window now rows w n = latest_window now rows ''alerts'' w n"
  by (simp add: latest_rolling_alert_window_def latest_window_def)

interpretation rolling: window_selector "row_ts now source" "max 1 w" "max 1 n"
  "\<lambda>rows. latest_window now rows source w n" for now source w n
  unfolding latest_window_eq by (rule last_qualifying_selector) auto

lemma last_qualifying_Nil_iff:
  assumes "\<And>c. ok c \<Longrightarrow> c \<noteq> []"
  shows "last_qualifying key w ok ordered = [] \<longleftrightarrow>
    (\<forall>right < length ordered. \<not> ok (window_ending key w ordered right))"
proof -
  let ?f = "filter ok (map (window_ending key w ordered) [0..<length ordered])"
  have "last ?f \<noteq> []" if "?f \<noteq> []"
    using last_in_set[OF that] assms by (simp only: set_filter mem_Collect_eq) blast
  then have "last_qualifying key w ok ordered = [] \<longleftrightarrow> ?f = []"
    by (auto simp: last_qualifying_def last_or_def)
  then show ?thesis by (auto simp: filter_empty_conv)
qed

lemma latest_window_Nil_iff:
  "latest_window now rows source w n = [] \<longleftrightarrow>
     (\<forall>right < length rows. int (length (window_ending (row_ts now source) (max 1 w)
        (sort_key (row_ts now source) rows) right)) < max 1 n)"
proof -
  have "last_qualifying (row_ts now source) (max 1 w) (\<lambda>c. max 1 n \<le> int (length c)) (sort_key (row_ts now source) rows) = [] \<longleftrightarrow>
    (\<forall>right < length (sort_key (row_ts now source) rows). \<not> max 1 n \<le> int (length (window_ending (row_ts now source) (max 1 w)
        (sort_key (row_ts now source) rows) right)))"
    by (rule last_qualifying_Nil_iff) auto
  then show ?thesis
    unfolding latest_window_eq by (simp only: not_le length_sort)
qed

text \<open>The two-index loop of the rolling windows returns what filtering would: the latest right end
  whose rows within the window reach the threshold, and nothing exactly when no right end does.\<close>

theorem latest_window_is_reference:
  "latest_window now rows source w n =
     last_qualifying (row_ts now source) (max 1 w) (\<lambda>c. max 1 n \<le> int (length c)) (sort_key (row_ts now source) rows) \<and>
   latest_rolling_alert_window now rows w n = latest_window now rows ''alerts'' w n \<and>
   (latest_window now rows source w n \<noteq> [] \<longleftrightarrow>
     (\<exists>right < length rows. max 1 n \<le> int (length (window_ending (row_ts now source) (max 1 w)
        (sort_key (row_ts now source) rows) right))))"
  using latest_window_eq latest_rolling_alert_window_eq latest_window_Nil_iff by (meson not_le)

section \<open>The counter holds the distinct values of the window\<close>

definition occurrences :: "('a \<Rightarrow> string) \<Rightarrow> string \<Rightarrow> 'a list \<Rightarrow> nat" where
  "occurrences val v xs = length (filter (\<lambda>x. val x = v) xs)"

definition counts_of :: "('a \<Rightarrow> string) \<Rightarrow> (string \<times> int) list \<Rightarrow> 'a list \<Rightarrow> bool" where
  "counts_of val c xs =
     (distinct (map fst c) \<and>
      (\<forall>v. dict_get c v = (if v = [] \<or> occurrences val v xs = 0 then None else Some (int (occurrences val v xs)))))"

definition window_values :: "('a \<Rightarrow> string) \<Rightarrow> 'a list \<Rightarrow> string list" where
  "window_values val xs = sorted_set (filter (\<lambda>v. v \<noteq> []) (map val xs))"

lemma occurrences_zero: "occurrences val v xs = 0 \<longleftrightarrow> v \<notin> val ` set xs"
  by (auto simp: occurrences_def filter_empty_conv)

lemma counts_of_keys: "counts_of val c xs \<Longrightarrow> sort (map fst c) = window_values val xs"
proof -
  assume c: "counts_of val c xs"
  have "v \<in> fst ` set c \<longleftrightarrow> v \<noteq> [] \<and> v \<in> val ` set xs" for v
    using c dict_get_None_iff[of c v] unfolding counts_of_def
    by (metis occurrences_zero option.distinct(1))
  then have "set (sort (map fst c)) = set (window_values val xs)"
    by (auto simp: window_values_def)
  then show ?thesis
    using c by (intro sorted_distinct_set_unique) (simp_all add: counts_of_def window_values_def)
qed

lemma counts_of_Nil [simp]: "counts_of val [] []"
  by (simp add: counts_of_def occurrences_def)

lemma counts_of_inc: "counts_of val c xs \<Longrightarrow> counts_of val (counter_inc (val x) c) (xs @ [x])"
  by (auto simp: counts_of_def counter_inc_def counter_get_def occurrences_def distinct_dict_set)

lemma dict_get_remove: "dict_get (filter (\<lambda>kv. fst kv \<noteq> k) d) k' = (if k' = k then None else dict_get d k')"
  by (induction d) (auto simp: dict_get_def)

lemma counts_of_dec: "counts_of val c (x # xs) \<Longrightarrow> counts_of val (counter_dec (val x) c) xs"
proof -
  assume c: "counts_of val c (x # xs)"
  have d: "distinct (map fst (filter p (dict_set c k n)))" for p k n
    using c by (simp add: counts_of_def distinct_map_filter distinct_dict_set)
  have g: "dict_get c v = (if v = [] \<or> occurrences val v (x # xs) = 0 then None
      else Some (int (occurrences val v (x # xs))))" for v
    using c by (simp add: counts_of_def)
  show ?thesis
    using d distinct_dict_set[of c] c
    by (auto simp: counts_of_def counter_dec_def counter_get_def dict_get_remove g occurrences_def Let_def)
qed

lemma advance_counting_eq:
  "left \<le> right \<Longrightarrow> right < length ordered \<Longrightarrow> 0 \<le> w \<Longrightarrow> counts_of val counts (slice ordered left right) \<Longrightarrow>
   \<exists>counts'. advance_counting key val w ordered right left counts =
     (advance_left key w ordered right left, counts') \<and>
     counts_of val counts' (slice ordered (advance_left key w ordered right left) right)"
proof (induction key val w ordered right left counts rule: advance_counting.induct)
  case (1 key val w ordered right left counts)
  show ?case
  proof (cases "within w (key (ordered ! left)) (key (ordered ! right))")
    case True
    then show ?thesis using "1.prems" by (simp add: advance_counting.simps[of key val] advance_left.simps[of key])
  next
    case False
    then have "left \<noteq> right" using "1.prems"(3) by (auto simp: within_def)
    then have lt: "Suc left \<le> right" using "1.prems"(1) by simp
    have "slice ordered left right = ordered ! left # slice ordered (Suc left) right"
      using lt "1.prems"(2) by (simp add: slice_def Cons_nth_drop_Suc[symmetric] Suc_diff_le)
    then have "counts_of val (counter_dec (val (ordered ! left)) counts) (slice ordered (Suc left) right)"
      using "1.prems"(4) by (simp add: counts_of_dec)
    with "1.IH" "1.prems" False lt show ?thesis
      by (simp add: advance_counting.simps[of key val w ordered right left] advance_left.simps[of key w ordered right left])
  qed
qed

definition card_ok :: "('a \<Rightarrow> string) \<Rightarrow> int \<Rightarrow> int \<Rightarrow> 'a list \<Rightarrow> bool" where
  "card_ok val min_count thr c = (min_count \<le> int (length c) \<and> thr \<le> int (length (window_values val c)))"

definition card_result :: "('a \<Rightarrow> string) \<Rightarrow> 'a list \<Rightarrow> 'a list \<times> string list \<times> int" where
  "card_result val c = (c, window_values val c, int (length (window_values val c)))"

lemma card_fold:
  assumes "sorted (map key ordered)" and "0 \<le> w" and "n \<le> length ordered"
  shows "\<exists>left counts. foldl (cardinality_step key val w m t ordered) (0, [], [], [], 0) [0..<n] =
      (left, counts, card_result val
        (last_or [] (filter (card_ok val m t) (map (window_ending key w ordered) [0..<n])))) \<and>
    counts_of val counts (drop left (take n ordered)) \<and>
    (n = 0 \<longrightarrow> left = 0) \<and> (0 < n \<longrightarrow> left_ok key w ordered (n - 1) left)"
  using assms(3)
proof (induction n)
  case 0
  then show ?case by (simp add: card_result_def window_values_def sorted_set_def)
next
  case (Suc n)
  let ?best = "last_or [] (filter (card_ok val m t) (map (window_ending key w ordered) [0..<n]))"
  obtain left counts where st: "foldl (cardinality_step key val w m t ordered) (0, [], [], [], 0) [0..<n] =
      (left, counts, card_result val ?best)"
    and c: "counts_of val counts (drop left (take n ordered))"
    and l0: "n = 0 \<longrightarrow> left = 0" and l1: "0 < n \<longrightarrow> left_ok key w ordered (n - 1) left"
    using Suc by auto
  have n: "n < length ordered" using Suc.prems by simp
  have ok: "left_ok key w ordered n left"
  proof (cases "n = 0")
    case True
    with l0 show ?thesis by (simp add: left_ok_def)
  next
    case False
    with l1 left_ok_mono[OF assms(1) _ _ n, of w "n - 1" left] show ?thesis by simp
  qed
  then have le: "left \<le> n" by (simp add: left_ok_def)
  have "slice ordered left n = drop left (take n ordered) @ [ordered ! n]"
    using n le by (simp add: slice_eq take_Suc_conv_app_nth)
  then have "counts_of val (counter_inc (val (ordered ! n)) counts) (slice ordered left n)"
    using counts_of_inc[OF c, of "ordered ! n"] by simp
  then obtain counts' where adv: "advance_counting key val w ordered n left (counter_inc (val (ordered ! n)) counts) =
     (advance_left key w ordered n left, counts')"
    and c': "counts_of val counts' (slice ordered (advance_left key w ordered n left) n)"
    using advance_counting_eq[OF le n assms(2), of val _ key] by blast
  note win = advance_left_window[OF assms(1) n ok assms(2)]
  have keys: "sort (map fst counts') = window_values val (window_ending key w ordered n)"
    using counts_of_keys[OF c'] win(2) by simp
  have klen: "length counts' = length (window_values val (window_ending key w ordered n))"
    unfolding keys[symmetric] by simp
  have step: "foldl (cardinality_step key val w m t ordered) (0, [], [], [], 0) [0..<Suc n] =
      cardinality_step key val w m t ordered (left, counts, card_result val ?best) n"
    using st by simp
  have "cardinality_step key val w m t ordered (left, counts, card_result val ?best) n =
      (advance_left key w ordered n left, counts', card_result val
        (last_or [] (filter (card_ok val m t) (map (window_ending key w ordered) [0..<Suc n]))))"
    unfolding cardinality_step_def card_result_def
    by (simp add: adv win(2) keys klen card_ok_def Let_def)
  with c' win(1) show ?case unfolding step by (simp add: slice_eq)
qed

lemma latest_cardinality_window_eq:
  "latest_cardinality_window now rows source ds value_field w thr n =
     (let val = (\<lambda>r. source_text ds r value_field source);
          win = last_qualifying (row_ts now source) (max 1 w) (card_ok val (max 1 n) (max 1 thr))
                  (sort_key (row_ts now source) rows)
      in (win, int (length (window_values val win)), window_values val win))"
proof (cases "rows = []")
  case True
  then show ?thesis
    by (simp add: latest_cardinality_window_def last_qualifying_def window_values_def sorted_set_def)
next
  case False
  let ?ts = "row_ts now source" and ?val = "\<lambda>r. source_text ds r value_field source"
  let ?o = "sort_key ?ts rows"
  obtain left counts where "foldl (cardinality_step ?ts ?val (max 1 w) (max 1 n) (max 1 thr) ?o)
      (0, [], [], [], 0) [0..<length ?o] =
      (left, counts, card_result ?val (last_qualifying ?ts (max 1 w) (card_ok ?val (max 1 n) (max 1 thr)) ?o))"
    using card_fold[of ?ts ?o "max 1 w" "length ?o" ?val "max 1 n" "max 1 thr"]
    unfolding last_qualifying_def by (metis max.cobounded1 le_refl order.trans sorted_sort_key zero_le_one)
  with False show ?thesis
    by (simp add: latest_cardinality_window_def card_result_def Let_def)
qed

text \<open>C17: The cardinality window is the latest one with enough rows and enough distinct non-empty
  values; the counter that is updated as both ends move gives exactly the sorted distinct values of
  that window and their number.\<close>

theorem latest_cardinality_window_is_reference:
  "latest_cardinality_window now rows source ds value_field w thr n =
     (let val = (\<lambda>r. source_text ds r value_field source);
          win = last_qualifying (row_ts now source) (max 1 w) (card_ok val (max 1 n) (max 1 thr))
                  (sort_key (row_ts now source) rows)
      in (win, int (length (window_values val win)), window_values val win))"
  by (rule latest_cardinality_window_eq)

end
