(* ===== verification/Corr_Engines.thy ===== *)
theory Corr_Engines
  imports Corr_Windows
begin

text \<open>
  The engines that select one window per entity: \<open>ThresholdEngine\<close> (rolling, and tumbling in its
  compatibility mode), \<open>CardinalityEngine\<close>, \<open>NewEntityEngine\<close> and \<open>RareEntityEngine\<close>. Each is the
  whole \<open>build\<close>: settings, filter, groups, selection and the match it reports. The only exceptions are
  those of reading the settings and of the filters. The theorems say what a reported match means.
\<close>

section \<open>Common parts of build\<close>

definition rule_window :: "correlation_rule \<Rightarrow> int \<Rightarrow> int" where
  "rule_window rule d = or_int (cr_window_seconds rule) d"

definition rule_min_alerts :: "correlation_rule \<Rightarrow> int \<Rightarrow> int" where
  "rule_min_alerts rule d = or_int (cr_min_alerts rule) d"

text \<open>\<open>sev\<close> is the engine's default severity; \<open>severity_score\<close> gets the rule's own text.\<close>

definition base_match :: "correlation_rule \<Rightarrow> string \<Rightarrow> entity_key \<Rightarrow> time \<Rightarrow> time \<Rightarrow> correlation_match" where
  "base_match rule sev k started ended =
     (case k of (group_by, group_val, entity_type, entity_value) \<Rightarrow>
       \<lparr>cm_correlation_rule_id = cr_id rule, cm_correlation_rule_name = cr_name rule,
        cm_severity = rule_severity rule sev, cm_group_by = group_by, cm_group_value = group_val,
        cm_started_at = started, cm_ended_at = ended, cm_alert_count = 0, cm_unique_rules = [],
        cm_stage_hits = [], cm_entity_type = Some entity_type, cm_entity_value = Some entity_value,
        cm_risk_score = None, cm_confidence = None, cm_summary = None, cm_context = [],
        cm_sample_alert_rows = [], cm_evidence_items = []\<rparr>)"

definition filter_for_rule ::
  "correlation_rule \<Rightarrow> correlation_dataset \<Rightarrow> string \<Rightarrow> py_error + corr_row list" where
  "filter_for_rule rule ds source =
     filter_records (select_records ds source) source ds (cr_include_patterns rule) (cr_exclude_patterns rule)
       (pget (strategy_cfg rule) ''field_filters'')"

section \<open>Threshold\<close>

definition tumbling_selected :: "time \<Rightarrow> corr_row list \<Rightarrow> int \<Rightarrow> int \<Rightarrow> corr_row list" where
  "tumbling_selected now rows window_seconds min_alerts =
     last_or [] (filter (\<lambda>seg. min_alerts \<le> int (length seg))
       (segment_by_window (row_ts now ''alerts'') rows window_seconds))"

definition threshold_match ::
  "bool \<Rightarrow> time \<Rightarrow> correlation_rule \<Rightarrow> correlation_dataset \<Rightarrow> int \<Rightarrow> entity_key \<Rightarrow> corr_row list \<Rightarrow> correlation_match" where
  "threshold_match compat_mode now rule ds sample_limit k selected =
     (case k of (group_by, group_val, entity_type, entity_value) \<Rightarrow>
       let ts = row_ts now ''alerts''; n = int (length selected);
           window_seconds = rule_window rule 600; min_alerts = rule_min_alerts rule 2
       in (base_match rule ''high'' k (ts (hd selected)) (ts (last selected)))
          \<lparr>cm_alert_count := n,
           cm_unique_rules := unique_rules_of selected,
           cm_risk_score := Some (min 100 (severity_score (cr_severity rule) + max 0 (n - min_alerts) * 3)),
           cm_confidence := Some (min 99 (55 + min 35 (n * 4))),
           cm_summary := Some (int_str n @ '' matching alerts for '' @ entity_type @ '' '' @ group_val @
             '' within '' @ summarize_timedelta_seconds window_seconds @ ''.''),
           cm_context := [(''strategy'', PStr (if compat_mode then ''burst'' else ''threshold'')),
             (''window_seconds'', PInt window_seconds), (''min_alerts'', PInt min_alerts)],
           cm_sample_alert_rows := dedupe_alert_rows ts selected sample_limit,
           cm_evidence_items := map (\<lambda>a. build_evidence_item now a ''alerts'' ds PNone []) selected\<rparr>)"

definition threshold_selected :: "bool \<Rightarrow> time \<Rightarrow> correlation_rule \<Rightarrow> corr_row list \<Rightarrow> corr_row list" where
  "threshold_selected compat_mode now rule rows =
     (if compat_mode then tumbling_selected now rows (rule_window rule 600) (rule_min_alerts rule 2)
      else latest_rolling_alert_window now rows (rule_window rule 600) (rule_min_alerts rule 2))"

definition threshold_build ::
  "bool \<Rightarrow> time \<Rightarrow> correlation_rule \<Rightarrow> correlation_dataset \<Rightarrow> int \<Rightarrow> py_error + correlation_match list" where
  "threshold_build compat_mode now rule ds sample_limit =
     ebind (filter_for_rule rule ds ''alerts'') (\<lambda>filtered.
       Inr (concat (map (\<lambda>(k, rows).
         let selected = threshold_selected compat_mode now rule rows in
         if int (length selected) < rule_min_alerts rule 2 then []
         else [threshold_match compat_mode now rule ds sample_limit k selected])
         (group_records rule ds ''alerts'' filtered))))"

section \<open>Cardinality\<close>

definition cardinality_match ::
  "time \<Rightarrow> correlation_rule \<Rightarrow> correlation_dataset \<Rightarrow> int \<Rightarrow> string \<Rightarrow> string \<Rightarrow> int \<Rightarrow> entity_key \<Rightarrow>
     corr_row list \<times> int \<times> string list \<Rightarrow> correlation_match" where
  "cardinality_match now rule ds sample_limit source value_field threshold k sel =
     (case (k, sel) of ((group_by, group_val, entity_type, entity_value), (selected, distinct_count, distinct_values)) \<Rightarrow>
       let ts = row_ts now source; n = int (length selected); window_seconds = rule_window rule 600
       in (base_match rule ''high'' k (ts (hd selected)) (ts (last selected)))
          \<lparr>cm_alert_count := (if source = ''alerts'' then n else max n distinct_count),
           cm_unique_rules := unique_rules_of selected,
           cm_risk_score := Some (min 100 (severity_score (cr_severity rule) + distinct_count * 4)),
           cm_confidence := Some (min 99 (58 + min 34 (distinct_count * 5))),
           cm_summary := Some (entity_type @ '' '' @ group_val @ '' touched '' @ int_str distinct_count @
             '' distinct '' @ value_field @ '' values within '' @ summarize_timedelta_seconds window_seconds @ ''.''),
           cm_context := [(''strategy'', PStr ''cardinality''), (''source'', PStr source),
             (''value_field'', PStr value_field), (''distinct_count'', PInt distinct_count),
             (''distinct_values'', PList (map PStr (take 25 distinct_values))),
             (''window_seconds'', PInt window_seconds), (''threshold'', PInt threshold)],
           cm_sample_alert_rows :=
             (if source = ''alerts'' then dedupe_alert_rows ts (alert_rows_of selected) sample_limit else []),
           cm_evidence_items := map (\<lambda>r. build_evidence_item now r source ds PNone []) selected\<rparr>)"

definition cardinality_value_field :: "correlation_rule \<Rightarrow> string" where
  "cardinality_value_field rule =
     py_strip (str_or (py_or (pget (strategy_cfg rule) ''field'') (pget (strategy_cfg rule) ''distinct_field'')) ''dst_ip'')"

definition cardinality_build ::
  "time \<Rightarrow> correlation_rule \<Rightarrow> correlation_dataset \<Rightarrow> int \<Rightarrow> py_error + correlation_match list" where
  "cardinality_build now rule ds sample_limit =
     (let cfg = strategy_cfg rule;
          source = cfg_source cfg;
          value_field = cardinality_value_field rule
      in ebind (int_or (pget cfg ''threshold'') (rule_min_alerts rule 2)) (\<lambda>threshold.
         ebind (filter_for_rule rule ds source) (\<lambda>filtered.
           Inr (concat (map (\<lambda>(k, rows).
             let sel = latest_cardinality_window now rows source ds value_field
                   (rule_window rule 600) threshold (rule_min_alerts rule 2) in
             if fst sel = [] then []
             else [cardinality_match now rule ds sample_limit source value_field threshold k sel])
             (group_records rule ds source filtered))))))"

section \<open>New entities\<close>

text \<open>\<open>int(delta.total_seconds())\<close> cuts towards zero.\<close>

definition trunc_seconds :: "time \<Rightarrow> int" where
  "trunc_seconds us = (if us < 0 then - ((- us) div 1000000) else us div 1000000)"

definition preferred_state :: "correlation_dataset \<Rightarrow> string \<Rightarrow> string \<Rightarrow> entity_state option" where
  "preferred_state ds entity_type entity_value =
     (case entity_baseline_for ds entity_type entity_value of
        Some b \<Rightarrow> Some b
      | None \<Rightarrow> entity_state_for ds entity_type entity_value)"

definition new_entity_reason :: "entity_state option \<Rightarrow> int \<Rightarrow> time \<Rightarrow> string option" where
  "new_entity_reason preferred long_absent_seconds latest_ts =
     (case preferred of
        None \<Rightarrow> Some ''first_seen''
      | Some st \<Rightarrow>
          if long_absent_seconds > 0 then
            (case es_last_seen_at st of
               None \<Rightarrow> None
             | Some seen \<Rightarrow>
                 if trunc_seconds (latest_ts - seen) \<ge> long_absent_seconds then Some ''long_absent'' else None)
          else None)"

definition new_entity_match ::
  "time \<Rightarrow> correlation_rule \<Rightarrow> correlation_dataset \<Rightarrow> int \<Rightarrow> string \<Rightarrow> int \<Rightarrow> entity_key \<Rightarrow> corr_row list \<Rightarrow>
     entity_state option \<Rightarrow> string \<Rightarrow> correlation_match" where
  "new_entity_match now rule ds sample_limit source long_absent_seconds k selected preferred reason =
     (case k of (group_by, group_val, entity_type, entity_value) \<Rightarrow>
       let ts = row_ts now source; alert_rows = alert_rows_of selected
       in (base_match rule ''medium'' k (ts (hd selected)) (ts (last selected)))
          \<lparr>cm_alert_count := int (length (if alert_rows = [] then selected else alert_rows)),
           cm_unique_rules := unique_rules_of alert_rows,
           cm_risk_score := Some (min 100 (severity_score (cr_severity rule) + (if reason = ''first_seen'' then 20 else 28))),
           cm_confidence := Some (if reason = ''first_seen'' then 74 else 80),
           cm_summary := Some
             (if reason = ''first_seen'' then ''Entity '' @ entity_value @ '' is first seen in correlation scope.''
              else ''Entity '' @ entity_value @ '' reappeared after '' @
                summarize_timedelta_seconds long_absent_seconds @ '' of inactivity.''),
           cm_context := [(''strategy'', PStr ''new_entity''), (''source'', PStr source), (''reason'', PStr reason),
             (''long_absent_seconds'', PInt long_absent_seconds),
             (''previous_last_seen_at'',
               (case preferred of
                  None \<Rightarrow> PNone
                | Some st \<Rightarrow> (case es_last_seen_at st of None \<Rightarrow> PNone | Some t \<Rightarrow> PStr (iso_format ''T'' t))))],
           cm_sample_alert_rows := (if alert_rows = [] then [] else dedupe_alert_rows ts alert_rows sample_limit),
           cm_evidence_items := map (\<lambda>r. build_evidence_item now r source ds PNone []) selected\<rparr>)"

definition new_entity_group ::
  "time \<Rightarrow> correlation_rule \<Rightarrow> correlation_dataset \<Rightarrow> int \<Rightarrow> string \<Rightarrow> int \<Rightarrow> entity_key \<times> corr_row list \<Rightarrow>
     correlation_match list" where
  "new_entity_group now rule ds sample_limit source long_absent_seconds grp =
     (case grp of (k, rows) \<Rightarrow> case k of (_, _, entity_type, entity_value) \<Rightarrow>
       let selected = latest_window now rows source (rule_window rule 600) (rule_min_alerts rule 1) in
       if selected = [] then []
       else let preferred = preferred_state ds entity_type entity_value;
                latest_ts = row_ts now source (last selected)
            in case new_entity_reason preferred long_absent_seconds latest_ts of
                 None \<Rightarrow> []
               | Some reason \<Rightarrow>
                   [new_entity_match now rule ds sample_limit source long_absent_seconds k selected preferred reason])"

definition new_entity_build ::
  "time \<Rightarrow> correlation_rule \<Rightarrow> correlation_dataset \<Rightarrow> int \<Rightarrow> py_error + correlation_match list" where
  "new_entity_build now rule ds sample_limit =
     (let cfg = strategy_cfg rule; source = cfg_source cfg in
      ebind (int_or (py_or (pget cfg ''long_absent_seconds'') (pget cfg ''absent_seconds'')) 0) (\<lambda>long_absent_seconds.
      ebind (filter_for_rule rule ds source) (\<lambda>filtered.
        Inr (concat (map (new_entity_group now rule ds sample_limit source long_absent_seconds)
          (group_records rule ds source filtered))))))"

section \<open>Rare entities\<close>

record rare_settings =
  rs_source :: string
  rs_scope_field :: string
  rs_target_field :: string
  rs_max_occurrences :: int
  rs_min_baseline_observations :: int
  rs_min_distinct_values :: int
  rs_window_seconds :: int
  rs_min_alerts :: int

definition rare_settings_of :: "correlation_rule \<Rightarrow> py_error + rare_settings" where
  "rare_settings_of rule =
     (let cfg = strategy_cfg rule in
      ebind (int_or (pget cfg ''max_occurrences'') 1) (\<lambda>max_occurrences.
      ebind (int_or (pget cfg ''min_baseline_observations'') 25) (\<lambda>min_baseline.
      ebind (int_or (pget cfg ''min_distinct_values'') 8) (\<lambda>min_distinct.
      ebind (int_or (pget cfg ''baseline_window_seconds'') (rule_window rule 3600)) (\<lambda>window_seconds.
        Inr \<lparr>rs_source = cfg_source cfg,
          rs_scope_field = py_strip (str_or (pget cfg ''scope_field'') []),
          rs_target_field = py_strip (py_str (py_or (py_or (pget cfg ''target_field'') (pget cfg ''field''))
            (PStr (cr_group_by rule)))),
          rs_max_occurrences = max 1 max_occurrences,
          rs_min_baseline_observations = max 1 min_baseline,
          rs_min_distinct_values = max 1 min_distinct,
          rs_window_seconds = window_seconds,
          rs_min_alerts = rule_min_alerts rule 1\<rparr>)))))"

definition rare_scope :: "rare_settings \<Rightarrow> correlation_dataset \<Rightarrow> corr_row \<Rightarrow> string" where
  "rare_scope rs ds r =
     or_text (py_strip (str_or (extract_source_value ds r (rs_scope_field rs) (rs_source rs)) ''__global__'')) ''__global__''"

definition rare_values :: "rare_settings \<Rightarrow> correlation_dataset \<Rightarrow> corr_row list \<Rightarrow> (string \<times> corr_row list) list" where
  "rare_values rs ds window_rows =
     foldl (\<lambda>m r. let v = source_text ds r (rs_target_field rs) (rs_source rs) in
              if v = [] then m else dict_push m v r) [] window_rows"

definition rare_match ::
  "time \<Rightarrow> correlation_rule \<Rightarrow> correlation_dataset \<Rightarrow> int \<Rightarrow> rare_settings \<Rightarrow> string \<Rightarrow> string \<Rightarrow> corr_row list \<Rightarrow>
     nat \<Rightarrow> nat \<Rightarrow> entity_key \<Rightarrow> entity_state option \<Rightarrow> correlation_match" where
  "rare_match now rule ds sample_limit rs scope_value target_value target_rows observations distinct_values k baseline =
     (let ts = row_ts now (rs_source rs); alert_rows = alert_rows_of target_rows; n = int (length target_rows)
      in (base_match rule ''medium'' k (ts (hd target_rows)) (ts (last target_rows)))
         \<lparr>cm_alert_count := int (length (if alert_rows = [] then target_rows else alert_rows)),
          cm_unique_rules := unique_rules_of alert_rows,
          cm_risk_score := Some (min 100 (severity_score (cr_severity rule) + 18)),
          cm_confidence := Some 76,
          cm_summary := Some (''Rare '' @ rs_target_field rs @ '' value '' @ target_value @
            '' observed within scope '' @ scope_value @ ''. Only '' @ int_str n @ '' occurrence(s) in '' @
            int_str (int observations) @ '' observations.''),
          cm_context := [(''strategy'', PStr ''rare_entity''), (''source'', PStr (rs_source rs)),
            (''scope_field'', PStr (rs_scope_field rs)), (''scope_value'', PStr scope_value),
            (''target_field'', PStr (rs_target_field rs)), (''target_value'', PStr target_value),
            (''observed_count'', PInt n), (''baseline_observations'', PInt (int observations)),
            (''distinct_values'', PInt (int distinct_values)),
            (''max_occurrences'', PInt (rs_max_occurrences rs)),
            (''baseline_window_seconds'', PInt (rs_window_seconds rs)),
            (''baseline_last_seen_at'',
              (case baseline of
                 None \<Rightarrow> PNone
               | Some st \<Rightarrow> (case es_last_seen_at st of None \<Rightarrow> PNone | Some t \<Rightarrow> PStr (iso_format ''T'' t)))),
            (''baseline_count_30d'',
              (case baseline of
                 None \<Rightarrow> PNone
               | Some st \<Rightarrow> PInt (case es_count_30d st of None \<Rightarrow> 0 | Some c \<Rightarrow> c)))],
          cm_sample_alert_rows := (if alert_rows = [] then [] else dedupe_alert_rows ts alert_rows sample_limit),
          cm_evidence_items := map (\<lambda>r. build_evidence_item now r (rs_source rs) ds PNone []) target_rows\<rparr>)"

definition rare_target ::
  "time \<Rightarrow> correlation_rule \<Rightarrow> correlation_dataset \<Rightarrow> int \<Rightarrow> rare_settings \<Rightarrow> string \<Rightarrow> nat \<Rightarrow> nat \<Rightarrow>
     string \<times> corr_row list \<Rightarrow> correlation_match list" where
  "rare_target now rule ds sample_limit rs scope_value observations distinct_values target =
     (case target of (target_value, target_rows) \<Rightarrow>
       if int (length target_rows) > rs_max_occurrences rs then []
       else case resolve_entity rule (last target_rows) (rs_source rs) ds of
         (group_by, group_val, entity_type, entity_value) \<Rightarrow>
           let scoped = (group_val = ''-'' \<and> rs_scope_field rs \<noteq> []);
               group_val' = (if scoped then scope_value @ '' | '' @ target_value else group_val);
               entity_value' = (if scoped then group_val' else entity_value);
               baseline = entity_baseline_for ds entity_type entity_value'
           in case baseline of
                Some st \<Rightarrow>
                  if (case es_count_30d st of None \<Rightarrow> 0 | Some c \<Rightarrow> c) > rs_max_occurrences rs then []
                  else [rare_match now rule ds sample_limit rs scope_value target_value target_rows
                          observations distinct_values (group_by, group_val', entity_type, entity_value') baseline]
              | None \<Rightarrow>
                  [rare_match now rule ds sample_limit rs scope_value target_value target_rows
                     observations distinct_values (group_by, group_val', entity_type, entity_value') baseline])"

definition rare_bucket ::
  "time \<Rightarrow> correlation_rule \<Rightarrow> correlation_dataset \<Rightarrow> int \<Rightarrow> rare_settings \<Rightarrow> string \<times> corr_row list \<Rightarrow>
     correlation_match list" where
  "rare_bucket now rule ds sample_limit rs bucket =
     (case bucket of (scope_value, rows) \<Rightarrow>
       let window_rows = latest_window now rows (rs_source rs) (rs_window_seconds rs) (rs_min_alerts rs) in
       if int (length window_rows) < rs_min_baseline_observations rs then []
       else let values = rare_values rs ds window_rows in
         if int (length values) < rs_min_distinct_values rs then []
         else concat (map (rare_target now rule ds sample_limit rs scope_value (length window_rows) (length values)) values))"

definition rare_entity_build ::
  "time \<Rightarrow> correlation_rule \<Rightarrow> correlation_dataset \<Rightarrow> int \<Rightarrow> py_error + correlation_match list" where
  "rare_entity_build now rule ds sample_limit =
     ebind (rare_settings_of rule) (\<lambda>rs.
     ebind (filter_for_rule rule ds (rs_source rs)) (\<lambda>filtered.
       let buckets = foldl (\<lambda>m r. dict_push m (rare_scope rs ds r) r) [] filtered in
       Inr (concat (map (rare_bucket now rule ds sample_limit rs) buckets))))"

section \<open>The selections meet the contract\<close>

lemma tumbling_selector:
  "window_selector (row_ts now ''alerts'') (max 1 w) n (\<lambda>rows. tumbling_selected now rows w n)"
proof
  fix rows
  let ?ts = "row_ts now ''alerts''"
  let ?segs = "segment_by_window ?ts rows w"
  let ?q = "tumbling_selected now rows w n"
  note cor = segment_by_window_facts[of ?ts rows w]
  have c: "?q = [] \<or> ?q \<in> set ?segs \<and> n \<le> int (length ?q)"
    unfolding tumbling_selected_def using last_or_filter[of "[]" "\<lambda>seg. n \<le> int (length seg)" ?segs] by blast
  have sub: "set seg \<subseteq> set rows" if "seg \<in> set ?segs" for seg
  proof -
    have "set seg \<subseteq> set (concat ?segs)" using that by auto
    then show ?thesis using cor by simp
  qed
  have srt: "sorted (map ?ts seg)" if mem: "seg \<in> set ?segs" for seg
  proof -
    obtain a b where "?segs = a @ seg # b" using split_list[OF mem] by blast
    then have "sort_key ?ts rows = concat a @ seg @ concat b" using cor by (metis concat.simps(2) concat_append)
    then show ?thesis using sorted_sort_key[of ?ts rows] by (simp add: sorted_append)
  qed
  have span: "within (max 1 w) (?ts (hd seg)) (?ts (last seg))" if "seg \<in> set ?segs" for seg
    using that cor by (auto simp: list_all_iff good_segment_def)
  show "set ?q \<subseteq> set rows" using c sub by auto
  show "sorted (map ?ts ?q)" using c srt by auto
  show "within (max 1 w) (?ts (hd ?q)) (?ts (last ?q))" if "?q \<noteq> []" using c span that by blast
  show "n \<le> int (length ?q)" if "?q \<noteq> []" using c that by blast
qed

interpretation tumbling: window_selector "row_ts now ''alerts''" "max 1 w" n
  "\<lambda>rows. tumbling_selected now rows w n" for now w n
  by (rule tumbling_selector)

lemma cardinality_selector:
  "window_selector (row_ts now source) (max 1 w) (max 1 n)
     (\<lambda>rows. fst (latest_cardinality_window now rows source ds field w thr n))"
  unfolding latest_cardinality_window_eq Let_def fst_conv
  by (rule last_qualifying_selector) (auto simp: card_ok_def)

interpretation distinct_values: window_selector "row_ts now source" "max 1 w" "max 1 n"
  "\<lambda>rows. fst (latest_cardinality_window now rows source ds field w thr n)" for now source w n ds field thr
  by (rule cardinality_selector)

lemma threshold_selector:
  "window_selector (row_ts now ''alerts'') (max 1 (rule_window rule 600)) (rule_min_alerts rule 2)
     (threshold_selected compat_mode now rule)"
proof (cases compat_mode)
  case True
  then have "threshold_selected compat_mode now rule =
      (\<lambda>rows. tumbling_selected now rows (rule_window rule 600) (rule_min_alerts rule 2))"
    by (simp add: threshold_selected_def fun_eq_iff)
  with tumbling_selector show ?thesis by simp
next
  case False
  then have eq: "threshold_selected compat_mode now rule =
      (\<lambda>rows. latest_window now rows ''alerts'' (rule_window rule 600) (rule_min_alerts rule 2))"
    by (simp add: threshold_selected_def latest_rolling_alert_window_eq fun_eq_iff)
  show ?thesis
    unfolding eq latest_window_eq by (rule last_qualifying_selector) auto
qed

interpretation threshold: window_selector "row_ts now ''alerts''" "max 1 (rule_window rule 600)"
  "rule_min_alerts rule 2" "threshold_selected compat_mode now rule" for now rule compat_mode
  by (rule threshold_selector)

section \<open>Scores\<close>

lemma severity_score_range: "12 \<le> severity_score s \<and> severity_score s \<le> 95"
  by (simp add: severity_score_def severity_baseline_score_def Let_def)

definition match_key :: "correlation_match \<Rightarrow> entity_key" where
  "match_key m = (cm_group_by m, cm_group_value m, the (cm_entity_type m), the (cm_entity_value m))"

lemma base_match_key [simp]:
  "match_key (base_match rule sev k s e) = k"
  "cm_started_at (base_match rule sev k s e) = s"
  "cm_ended_at (base_match rule sev k s e) = e"
  by (cases k; simp add: base_match_def match_key_def)+

lemma group_records_mem:
  "(k, rs) \<in> set (group_records rule ds source rows) \<longleftrightarrow>
     rs = filter (\<lambda>r. resolve_entity rule r source ds = k) rows \<and> rs \<noteq> []"
  unfolding group_records_def by (rule group_fold_mem)

lemma threshold_match_fields:
  "match_key (threshold_match c now rule ds lim k sel) = k"
  "cm_alert_count (threshold_match c now rule ds lim k sel) = int (length sel)"
  "cm_started_at (threshold_match c now rule ds lim k sel) = row_ts now ''alerts'' (hd sel)"
  "cm_ended_at (threshold_match c now rule ds lim k sel) = row_ts now ''alerts'' (last sel)"
  "cm_risk_score (threshold_match c now rule ds lim k sel) =
     Some (min 100 (severity_score (cr_severity rule) + max 0 (int (length sel) - rule_min_alerts rule 2) * 3))"
  "cm_confidence (threshold_match c now rule ds lim k sel) = Some (min 99 (55 + min 35 (int (length sel) * 4)))"
  by (cases k; simp add: threshold_match_def base_match_def match_key_def Let_def)+

lemma concat_groups_mem:
  "m \<in> set (concat (map f gs)) \<longleftrightarrow> (\<exists>k rows. (k, rows) \<in> set gs \<and> m \<in> set (f (k, rows)))"
  by (simp add: Bex_def del: split_paired_Ex) (metis surj_pair)

lemma single_unless: "m \<in> set (if b then [] else [x]) \<longleftrightarrow> \<not> b \<and> m = x"
  by simp

lemma threshold_build_mem:
  assumes "threshold_build c now rule ds lim = Inr ms"
  obtains filtered where "filter_for_rule rule ds ''alerts'' = Inr filtered"
    and "\<And>m. m \<in> set ms \<longleftrightarrow> (\<exists>k rows. rows = filter (\<lambda>r. resolve_entity rule r ''alerts'' ds = k) filtered \<and>
       rows \<noteq> [] \<and> rule_min_alerts rule 2 \<le> int (length (threshold_selected c now rule rows)) \<and>
       m = threshold_match c now rule ds lim k (threshold_selected c now rule rows))"
proof -
  obtain filtered where f: "filter_for_rule rule ds ''alerts'' = Inr filtered"
    and ms: "ms = concat (map (\<lambda>(k, rows).
         let selected = threshold_selected c now rule rows in
         if int (length selected) < rule_min_alerts rule 2 then []
         else [threshold_match c now rule ds lim k selected])
         (group_records rule ds ''alerts'' filtered))"
    using assms unfolding threshold_build_def bind_simps by auto
  show thesis
  proof (rule that[OF f])
    fix m
    show "m \<in> set ms \<longleftrightarrow> (\<exists>k rows. rows = filter (\<lambda>r. resolve_entity rule r ''alerts'' ds = k) filtered \<and>
       rows \<noteq> [] \<and> rule_min_alerts rule 2 \<le> int (length (threshold_selected c now rule rows)) \<and>
       m = threshold_match c now rule ds lim k (threshold_selected c now rule rows))"
      unfolding ms concat_groups_mem group_records_mem prod.case Let_def single_unless not_less
      by (simp only: conj_assoc)
  qed
qed

lemma tumbling_selected_nonempty:
  "rows \<noteq> [] \<Longrightarrow> n \<le> int (length (tumbling_selected now rows w n)) \<Longrightarrow> tumbling_selected now rows w n \<noteq> []"
proof
  let ?ts = "row_ts now ''alerts''"
  let ?segs = "segment_by_window ?ts rows w"
  assume ne: "rows \<noteq> []" and n: "n \<le> int (length (tumbling_selected now rows w n))"
    and e: "tumbling_selected now rows w n = []"
  note cor = segment_by_window_facts[of ?ts rows w]
  have "?segs \<noteq> []" using cor ne by (metis concat.simps(1) length_0_conv length_sort)
  moreover have good: "\<And>seg. seg \<in> set ?segs \<Longrightarrow> seg \<noteq> []" using cor by (simp add: list_all_iff good_segment_def)
  moreover have "filter (\<lambda>seg. n \<le> int (length seg)) ?segs = ?segs" using n e by (auto simp: filter_id_conv)
  ultimately have "tumbling_selected now rows w n \<in> set ?segs" by (simp add: tumbling_selected_def last_or_def)
  then show False using good e by blast
qed

lemma threshold_selected_nonempty:
  "rule_min_alerts rule 2 \<le> int (length (threshold_selected c now rule rows)) \<Longrightarrow> rows \<noteq> [] \<Longrightarrow>
   threshold_selected c now rule rows \<noteq> []"
proof (cases c)
  case False
  let ?ts = "row_ts now ''alerts''" and ?w = "max 1 (rule_window rule 600)"
  let ?o = "sort_key ?ts rows"
  assume n: "rule_min_alerts rule 2 \<le> int (length (threshold_selected c now rule rows))" and ne: "rows \<noteq> []"
  show ?thesis
  proof
    assume e: "threshold_selected c now rule rows = []"
    have "?o \<noteq> []" using ne by (metis length_0_conv length_sort)
    then have "0 < length (window_ending ?ts ?w ?o 0)"
      by (cases ?o) (simp_all add: window_ending_def within_def)
    moreover have "int (length (window_ending ?ts ?w ?o 0)) < max 1 (rule_min_alerts rule 2)"
      using e False ne by (simp add: threshold_selected_def latest_rolling_alert_window_eq latest_window_Nil_iff del: max_less_iff_conj)
    ultimately show False using n e by (simp add: max_def split: if_splits)
  qed
qed (simp add: threshold_selected_def tumbling_selected_nonempty)

section \<open>What a reported threshold match means\<close>


text \<open>A concrete run: three alerts of one source within ten minutes, threshold two.\<close>

definition demo_burst :: correlation_dataset where
  "demo_burst = demo_dataset\<lparr>ds_alerts := [demo_alert 1 0 ''r'', demo_alert 2 1000000 ''r'', demo_alert 3 2000000 ''r'']\<rparr>"

lemma demo_burst_filtered:
  "filter_for_rule (demo_rule 600 2) demo_burst ''alerts'' =
     Inr [RAlert (demo_alert 1 0 ''r''), RAlert (demo_alert 2 1000000 ''r''), RAlert (demo_alert 3 2000000 ''r'')]"
  by (simp add: filter_for_rule_def filter_records_def select_records_def demo_burst_def demo_dataset_def
      demo_rule_def norm_patterns_def strategy_cfg_def pget_def passes_filter_def apply_field_filters_def)

lemma demo_resolve:
  "resolve_entity (demo_rule w n) (RAlert (demo_alert i t rid)) ''alerts'' ds =
     (''src_ip'', ''10.0.0.5'', ''src_ip'', ''10.0.0.5'')"
  by (simp add: resolve_entity_def entity_fields_def entity_cfg_def demo_rule_def pget_def group_value_def
      demo_alert_def py_defs or_text_def opt_or_def Let_def str_or_def py_or_def)

lemma demo_groups:
  "group_records (demo_rule w n) ds ''alerts''
     [RAlert (demo_alert 1 0 ''r''), RAlert (demo_alert 2 1000000 ''r''), RAlert (demo_alert 3 2000000 ''r'')] =
   [((''src_ip'', ''10.0.0.5'', ''src_ip'', ''10.0.0.5''),
     [RAlert (demo_alert 1 0 ''r''), RAlert (demo_alert 2 1000000 ''r''), RAlert (demo_alert 3 2000000 ''r'')])]"
  by (simp add: group_records_def demo_resolve dict_push_def dict_get_def)

lemma demo_window:
  "latest_window 0 [RAlert (demo_alert 1 0 ''r''), RAlert (demo_alert 2 1000000 ''r''), RAlert (demo_alert 3 2000000 ''r'')]
     ''alerts'' 600 2 =
   [RAlert (demo_alert 1 0 ''r''), RAlert (demo_alert 2 1000000 ''r''), RAlert (demo_alert 3 2000000 ''r'')]"
proof -
  have t: "al_created_at (demo_alert i t rid) = t" for i t rid by (simp add: demo_alert_def)
  show ?thesis
    by (simp add: latest_window_def slide_step_def advance_left.simps slice_def within_def t upt_rec numeral_2_eq_2)
qed


lemma length_filter_imp: "(\<And>x. x \<in> set xs \<Longrightarrow> P x \<Longrightarrow> Q x) \<Longrightarrow> length (filter P xs) \<le> length (filter Q xs)"
  by (induction xs) (auto simp: le_SucI)

text \<open>A set of rows within one window makes the latest window non-empty.\<close>

lemma burst_selected:
  fixes now source
  defines "ts \<equiv> row_ts now source"
  assumes n: "max 1 n \<le> int (length (filter (\<lambda>r. t0 \<le> ts r \<and> ts r \<le> t0 + max 1 w * 1000000) rows))"
  shows "latest_window now rows source w n \<noteq> []"
proof -
  let ?t1 = "t0 + max 1 w * 1000000"
  let ?o = "sort_key ts rows"
  let ?p = "takeWhile (\<lambda>r. ts r \<le> ?t1) ?o"
  have srt: "sorted (map ts ?o)" by simp
  have drop: "\<not> ts r \<le> ?t1" if mem: "r \<in> set (dropWhile (\<lambda>r. ts r \<le> ?t1) ?o)" for r
  proof -
    let ?d = "dropWhile (\<lambda>r. ts r \<le> ?t1) ?o"
    have "sorted (map ts (?p @ ?d))" using srt by simp
    then have sd: "sorted (map ts ?d)" unfolding map_append sorted_append by blast
    obtain a d where d: "?d = a # d" using mem by (cases ?d) (simp_all only: list.set empty_iff)
    have "\<not> ts a \<le> ?t1" using d by (metis dropWhile_eq_Cons_conv)
    with sd mem d show ?thesis by force
  qed
  have p: "?p = filter (\<lambda>r. ts r \<le> ?t1) ?o"
    using drop by (rule takeWhile_eq_filter)
  have "filter (\<lambda>r. t0 \<le> ts r) ?p = sort_key ts (filter (\<lambda>r. t0 \<le> ts r \<and> ts r \<le> ?t1) rows)"
    unfolding p by (simp add: filter_sort conj_commute)
  then have len: "length (filter (\<lambda>r. t0 \<le> ts r) ?p) =
      length (filter (\<lambda>r. t0 \<le> ts r \<and> ts r \<le> ?t1) rows)" by simp
  then have "?p \<noteq> []" using n by auto
  then obtain right where right: "length ?p = Suc right" by (cases ?p) auto
  have lt: "right < length ?o"
    using right length_takeWhile_le[of "\<lambda>r. ts r \<le> ?t1" ?o] by simp
  have tk: "take (Suc right) ?o = ?p" using right by (metis takeWhile_eq_take)
  have "?o ! right \<in> set ?p"
    using right by (metis lessI nth_mem takeWhile_nth)
  then have up: "ts (?o ! right) \<le> ?t1" by (meson set_takeWhileD)
  have "length (filter (\<lambda>r. t0 \<le> ts r) ?p) \<le> length (window_ending ts (max 1 w) ?o right)"
    unfolding window_ending_def tk by (rule length_filter_imp) (use up in \<open>simp add: within_def\<close>)
  with n len have "\<not> int (length (window_ending ts (max 1 w) ?o right)) < max 1 n" by linarith
  then show ?thesis
    using lt unfolding latest_window_Nil_iff ts_def by auto
qed

text \<open>C2: The rolling threshold engine misses no burst: when at least the minimum number of the filtered
  alerts of one entity lie within one window, it reports a match for that entity.\<close>

theorem threshold_detects_every_burst:
  assumes "filter_for_rule rule ds ''alerts'' = Inr filtered"
    and "max 1 (rule_min_alerts rule 2) \<le> int (length (filter (\<lambda>r. resolve_entity rule r ''alerts'' ds = k \<and>
      t0 \<le> row_ts now ''alerts'' r \<and> row_ts now ''alerts'' r \<le> t0 + max 1 (rule_window rule 600) * 1000000) filtered))"
  shows "\<exists>ms m. threshold_build False now rule ds lim = Inr ms \<and> m \<in> set ms \<and> match_key m = k"
proof -
  let ?rows = "filter (\<lambda>r. resolve_entity rule r ''alerts'' ds = k) filtered"
  let ?sel = "threshold_selected False now rule ?rows"
  have "?sel = latest_window now ?rows ''alerts'' (rule_window rule 600) (rule_min_alerts rule 2)"
    by (simp add: threshold_selected_def latest_rolling_alert_window_eq)
  moreover have "latest_window now ?rows ''alerts'' (rule_window rule 600) (rule_min_alerts rule 2) \<noteq> []"
    using assms(2) by (intro burst_selected[of _ t0]) (simp add: conj_commute conj_left_commute del: max_less_iff_conj)
  ultimately have sel: "?sel \<noteq> []" by simp
  then have rows: "?rows \<noteq> []" using threshold.sel_empty[of False now rule] by metis
  have n: "rule_min_alerts rule 2 \<le> int (length ?sel)" by (rule threshold.sel_count[OF sel])
  obtain ms where ms: "threshold_build False now rule ds lim = Inr ms"
    using assms(1) by (simp add: threshold_build_def)
  have "threshold_match False now rule ds lim k ?sel \<in> set ms"
    using threshold_build_mem[OF ms] assms(1) rows n by (metis sum.inject(2))
  with ms show ?thesis using threshold_match_fields(1) by blast
qed

theorem threshold_detects_every_burst_witness:
  "\<exists>ms m. threshold_build False 0 (demo_rule 600 2) demo_burst 5 = Inr ms \<and> m \<in> set ms \<and>
     match_key m = (''src_ip'', ''10.0.0.5'', ''src_ip'', ''10.0.0.5'')"
proof -
  have r: "rule_min_alerts (demo_rule 600 2) 2 = 2" "rule_window (demo_rule 600 2) 600 = 600"
    by (simp_all add: rule_min_alerts_def rule_window_def demo_rule_def or_int_def)
  have t: "al_created_at (demo_alert i t rid) = t" for i t rid by (simp add: demo_alert_def)
  show ?thesis
    by (rule threshold_detects_every_burst[OF demo_burst_filtered, of _ 0])
      (simp add: r t demo_resolve)
qed

section \<open>When a new entity is reported\<close>

lemma new_entity_match_key [simp]:
  "match_key (new_entity_match now rule ds lim source L k sel pref reason) = k"
  by (cases k) (simp add: new_entity_match_def base_match_def match_key_def Let_def)

lemma new_entity_group_mem:
  "m \<in> set (new_entity_group now rule ds lim source L ((gb, gv, et, ev), rows)) \<longleftrightarrow>
   (let sel = latest_window now rows source (rule_window rule 600) (rule_min_alerts rule 1) in
    sel \<noteq> [] \<and> (\<exists>reason. new_entity_reason (preferred_state ds et ev) L (row_ts now source (last sel)) = Some reason \<and>
      m = new_entity_match now rule ds lim source L (gb, gv, et, ev) sel (preferred_state ds et ev) reason))"
proof -
  let ?sel = "latest_window now rows source (rule_window rule 600) (rule_min_alerts rule 1)"
  show ?thesis
    by (cases "new_entity_reason (preferred_state ds et ev) L (row_ts now source (last ?sel))")
      (simp_all add: new_entity_group_def Let_def)
qed

lemma new_entity_reason_iff:
  "(\<exists>reason. new_entity_reason pref L latest = Some reason) \<longleftrightarrow>
   (case pref of None \<Rightarrow> True
    | Some st \<Rightarrow> L > 0 \<and> (\<exists>seen. es_last_seen_at st = Some seen \<and> L \<le> trunc_seconds (latest - seen)))"
  by (auto simp: new_entity_reason_def split: option.splits)



section \<open>When a rare entity is reported\<close>

lemma rare_values_mem:
  "(v, rs) \<in> set (rare_values st ds rows) \<longleftrightarrow>
    v \<noteq> [] \<and> rs \<noteq> [] \<and> rs = filter (\<lambda>r. source_text ds r (rs_target_field st) (rs_source st) = v) rows"
proof -
  let ?f = "\<lambda>r. source_text ds r (rs_target_field st) (rs_source st)"
  have "foldl (\<lambda>m r. let v = ?f r in if v = [] then m else dict_push m v r) m0 rows =
      foldl (\<lambda>g r. dict_push g (?f r) r) m0 (filter (\<lambda>r. ?f r \<noteq> []) rows)" for m0
    by (induction rows arbitrary: m0) (simp_all add: Let_def)
  then have "rare_values st ds rows = foldl (\<lambda>g r. dict_push g (?f r) r) [] (filter (\<lambda>r. ?f r \<noteq> []) rows)"
    by (simp add: rare_values_def)
  moreover have "filter (\<lambda>r. ?f r = v) (filter (\<lambda>r. ?f r \<noteq> []) rows) = (if v = [] then [] else filter (\<lambda>r. ?f r = v) rows)"
    by (induction rows) auto
  ultimately show ?thesis by (auto simp: group_fold_mem split: if_splits)
qed

lemma rare_values_distinct:
  "distinct (map fst (foldl (\<lambda>m r. let v = f r in if v = [] then m else dict_push m v r) [] rows))"
  by (induction rows rule: rev_induct) (auto simp: Let_def dict_push_def distinct_dict_set)

lemma rare_target_mem:
  "m \<in> set (rare_target now rule ds lim rs scope obs dv (v, rows)) \<Longrightarrow>
   int (length rows) \<le> rs_max_occurrences rs \<and>
   cm_evidence_items m = map (\<lambda>r. build_evidence_item now r (rs_source rs) ds PNone []) rows"
  by (cases "resolve_entity rule (last rows) (rs_source rs) ds")
    (auto simp: rare_target_def rare_match_def Let_def split: if_splits option.splits)

text \<open>A rare-entity match rests on one value of the target field seen at least once and at most
  \<open>max_occurrences\<close> times among the rows of a window that holds at least the configured number of
  baseline observations and of distinct values; the evidence is exactly the rows with that value.\<close>

theorem rare_entity_match_sound:
  assumes "rare_entity_build now rule ds lim = Inr ms" and "m \<in> set ms"
  shows "\<exists>rs win v. rare_settings_of rule = Inr rs \<and> v \<noteq> [] \<and>
    rs_min_baseline_observations rs \<le> int (length win) \<and>
    rs_min_distinct_values rs \<le> int (card (set (map (\<lambda>r. source_text ds r (rs_target_field rs) (rs_source rs)) win) - {[]})) \<and>
    (\<forall>r \<in> set win. \<forall>s \<in> set win.
       row_ts now (rs_source rs) s - row_ts now (rs_source rs) r \<le> max 1 (rs_window_seconds rs) * 1000000) \<and>
    (let target = filter (\<lambda>r. source_text ds r (rs_target_field rs) (rs_source rs) = v) win in
      target \<noteq> [] \<and> int (length target) \<le> rs_max_occurrences rs \<and>
      cm_evidence_items m = map (\<lambda>r. build_evidence_item now r (rs_source rs) ds PNone []) target)"
proof -
  obtain rs where rs: "rare_settings_of rule = Inr rs"
    using assms(1) unfolding rare_entity_build_def bind_simps by blast
  obtain filtered where f: "filter_for_rule rule ds (rs_source rs) = Inr filtered"
    using assms(1) rs unfolding rare_entity_build_def bind_simps by fastforce
  let ?buckets = "foldl (\<lambda>m r. dict_push m (rare_scope rs ds r) r) [] filtered"
  have ms: "ms = concat (map (rare_bucket now rule ds lim rs) ?buckets)"
    using assms(1) rs f by (simp add: rare_entity_build_def Let_def)
  obtain scope rows where m: "m \<in> set (rare_bucket now rule ds lim rs (scope, rows))"
    using assms(2) unfolding ms concat_groups_mem by blast
  let ?win = "latest_window now rows (rs_source rs) (rs_window_seconds rs) (rs_min_alerts rs)"
  let ?f = "\<lambda>r. source_text ds r (rs_target_field rs) (rs_source rs)"
  let ?vals = "rare_values rs ds ?win"
  have obs: "rs_min_baseline_observations rs \<le> int (length ?win)"
    and dv: "rs_min_distinct_values rs \<le> int (length ?vals)"
    and mem: "m \<in> set (concat (map (rare_target now rule ds lim rs scope (length ?win) (length ?vals)) ?vals))"
    using m by (simp_all add: rare_bucket_def Let_def not_less split: if_splits)
  obtain v trows where t: "(v, trows) \<in> set ?vals"
    and mt: "m \<in> set (rare_target now rule ds lim rs scope (length ?win) (length ?vals) (v, trows))"
    using mem unfolding concat_groups_mem by blast
  have tv: "v \<noteq> []" "trows \<noteq> []" "trows = filter (\<lambda>r. ?f r = v) ?win"
    using t unfolding rare_values_mem by blast+
  have keys: "fst ` set ?vals = set (map ?f ?win) - {[]}"
  proof (rule set_eqI)
    fix x
    have "x \<in> fst ` set ?vals \<longleftrightarrow> (\<exists>rs'. (x, rs') \<in> set ?vals)" by force
    also have "\<dots> \<longleftrightarrow> x \<in> set (map ?f ?win) - {[]}"
      unfolding rare_values_mem by (auto simp: filter_empty_conv)
    finally show "x \<in> fst ` set ?vals \<longleftrightarrow> x \<in> set (map ?f ?win) - {[]}" .
  qed
  have "distinct (map fst ?vals)"
    unfolding rare_values_def by (rule rare_values_distinct)
  then have "length ?vals = card (set (map ?f ?win) - {[]})"
    using distinct_card[of "map fst ?vals"] keys by simp
  then have "rs_min_distinct_values rs \<le> int (card (set (map ?f ?win) - {[]}))" using dv by simp
  moreover have "\<forall>r \<in> set ?win. \<forall>s \<in> set ?win.
       row_ts now (rs_source rs) s - row_ts now (rs_source rs) r \<le> max 1 (rs_window_seconds rs) * 1000000"
    using rolling.sel_all_within by blast
  ultimately show ?thesis
    using rs tv obs rare_target_mem[OF mt] unfolding Let_def by metis
qed

definition demo_rare_rule :: correlation_rule where
  "demo_rare_rule = (demo_rule 600 2)\<lparr>cr_strategy_config := Some
     [(''target_field'', PStr ''src_ip''), (''max_occurrences'', PInt 5),
      (''min_baseline_observations'', PInt 3), (''min_distinct_values'', PInt 1)]\<rparr>"

lemma demo_alert_src: "source_text ds (RAlert (demo_alert i t rid)) ''src_ip'' ''alerts'' = ''10.0.0.5''"
  by (simp add: source_text_def extract_source_value_def extract_alert_value_def row_get_def pget_def dict_get_def
      alert_attrs_def demo_alert_def opt_str_def first_not_none_def py_defs Let_def)

theorem rare_entity_match_sound_witness:
  "\<exists>ms m. rare_entity_build 0 demo_rare_rule demo_burst 5 = Inr ms \<and> m \<in> set ms \<and>
     (\<exists>rs. rare_settings_of demo_rare_rule = Inr rs \<and> int (length (cm_evidence_items m)) \<le> rs_max_occurrences rs)"
proof -
  let ?rows = "[RAlert (demo_alert 1 0 ''r''), RAlert (demo_alert 2 1000000 ''r''), RAlert (demo_alert 3 2000000 ''r'')]"
  let ?rs = "\<lparr>rs_source = ''alerts'', rs_scope_field = [], rs_target_field = ''src_ip'', rs_max_occurrences = 5,
     rs_min_baseline_observations = 3, rs_min_distinct_values = 1, rs_window_seconds = 600, rs_min_alerts = 2\<rparr>"
  have rs: "rare_settings_of demo_rare_rule = Inr ?rs"
    by (simp add: rare_settings_of_def demo_rare_rule_def demo_rule_def strategy_cfg_def cfg_source_def pget_def
        dict_get_def int_or_def py_or_def str_or_def rule_window_def rule_min_alerts_def or_int_def py_defs Let_def)
  have f: "filter_for_rule demo_rare_rule demo_burst ''alerts'' = Inr ?rows"
    by (simp add: filter_for_rule_def filter_records_def select_records_def demo_burst_def demo_dataset_def
        demo_rare_rule_def demo_rule_def norm_patterns_def strategy_cfg_def pget_def dict_get_def passes_filter_def
        apply_field_filters_def)
  have scope: "rare_scope ?rs ds (RAlert (demo_alert i t rid)) = ''__global__''" for ds i t rid
    by (simp add: rare_scope_def extract_source_value_def extract_alert_value_def str_or_def py_or_def or_text_def
        py_defs Let_def)
  have vals: "rare_values ?rs demo_burst ?rows = [(''10.0.0.5'', ?rows)]"
    by (simp add: rare_values_def demo_alert_src dict_push_def dict_get_def Let_def)
  have res: "resolve_entity demo_rare_rule (RAlert (demo_alert i t rid)) ''alerts'' ds =
      (''src_ip'', ''10.0.0.5'', ''src_ip'', ''10.0.0.5'')" for i t rid ds
    by (simp add: resolve_entity_def entity_fields_def entity_cfg_def demo_rare_rule_def demo_rule_def pget_def
        group_value_def demo_alert_def py_defs or_text_def opt_or_def Let_def str_or_def py_or_def)
  have base: "entity_baseline_for demo_burst a b = None" for a b
    by (simp add: entity_baseline_for_def demo_burst_def demo_dataset_def)
  obtain m where b: "rare_entity_build 0 demo_rare_rule demo_burst 5 = Inr [m]"
    by (simp add: rare_entity_build_def rs f scope dict_push_def dict_get_def rare_bucket_def demo_window vals
        rare_target_def res base Let_def)
  have "\<exists>rs. rare_settings_of demo_rare_rule = Inr rs \<and> int (length (cm_evidence_items m)) \<le> rs_max_occurrences rs"
    using rare_entity_match_sound[OF b, of m] unfolding Let_def by (metis length_map list.set_intros(1))
  with b show ?thesis by auto
qed

section \<open>What a cardinality match means\<close>

lemma cardinality_match_fields:
  "match_key (cardinality_match now rule ds lim src field thr k (sel, n, vals)) = k"
  "cm_risk_score (cardinality_match now rule ds lim src field thr k (sel, n, vals)) =
     Some (min 100 (severity_score (cr_severity rule) + n * 4))"
  "cm_evidence_items (cardinality_match now rule ds lim src field thr k (sel, n, vals)) =
     map (\<lambda>r. build_evidence_item now r src ds PNone []) sel"
  "cm_started_at (cardinality_match now rule ds lim src field thr k (sel, n, vals)) = row_ts now src (hd sel)"
  "cm_ended_at (cardinality_match now rule ds lim src field thr k (sel, n, vals)) = row_ts now src (last sel)"
  by (cases k; simp add: cardinality_match_def base_match_def match_key_def Let_def)+

text \<open>A cardinality match rests on rows of one entity that pass the filters, at least the minimum
  number of them within one window, and they carry at least \<open>threshold\<close> distinct non-empty values of the
  counted field; the risk score grows by four per distinct value and stays between 0 and 100.\<close>

theorem cardinality_match_sound:
  assumes "cardinality_build now rule ds lim = Inr ms" and "m \<in> set ms"
  shows "\<exists>source thr filtered sel d. source = cfg_source (strategy_cfg rule) \<and>
    int_or (pget (strategy_cfg rule) ''threshold'') (rule_min_alerts rule 2) = Inr thr \<and>
    filter_for_rule rule ds source = Inr filtered \<and> sel \<noteq> [] \<and> set sel \<subseteq> set filtered \<and>
    (\<forall>r \<in> set sel. resolve_entity rule r source ds = match_key m) \<and>
    max 1 (rule_min_alerts rule 2) \<le> int (length sel) \<and>
    d = int (card ((\<lambda>r. source_text ds r (cardinality_value_field rule) source) ` set sel - {[]})) \<and> max 1 thr \<le> d \<and>
    (\<forall>r \<in> set sel. \<forall>s \<in> set sel.
       row_ts now source s - row_ts now source r \<le> max 1 (rule_window rule 600) * 1000000) \<and>
    cm_evidence_items m = map (\<lambda>r. build_evidence_item now r source ds PNone []) sel \<and>
    cm_risk_score m = Some (min 100 (severity_score (cr_severity rule) + d * 4))"
proof -
  let ?src = "cfg_source (strategy_cfg rule)" and ?field = "cardinality_value_field rule"
  let ?val = "\<lambda>r. source_text ds r ?field ?src" and ?n = "rule_min_alerts rule 2" and ?w = "rule_window rule 600"
  obtain thr where thr: "int_or (pget (strategy_cfg rule) ''threshold'') ?n = Inr thr"
    using assms(1) unfolding cardinality_build_def Let_def bind_simps by blast
  obtain filtered where f: "filter_for_rule rule ds ?src = Inr filtered"
    using assms(1) thr unfolding cardinality_build_def Let_def bind_simps by fastforce
  let ?card = "\<lambda>rows. latest_cardinality_window now rows ?src ds ?field ?w thr ?n"
  have ms: "ms = concat (map (\<lambda>(k, rows). if fst (?card rows) = [] then []
      else [cardinality_match now rule ds lim ?src ?field thr k (?card rows)]) (group_records rule ds ?src filtered))"
    using assms(1) thr f by (simp add: cardinality_build_def Let_def)
  obtain k rows where rows: "rows = filter (\<lambda>r. resolve_entity rule r ?src ds = k) filtered"
    and ne: "fst (?card rows) \<noteq> []" and m: "m = cardinality_match now rule ds lim ?src ?field thr k (?card rows)"
    using assms(2) unfolding ms concat_groups_mem group_records_mem prod.case single_unless by metis
  let ?sel = "fst (?card rows)"
  have card: "?card rows = (?sel, int (length (window_values ?val ?sel)), window_values ?val ?sel)"
    by (simp add: latest_cardinality_window_eq Let_def)
  have ok: "card_ok ?val (max 1 ?n) (max 1 thr) ?sel"
    using ne last_qualifying_cases[of "row_ts now ?src" "max 1 ?w" "card_ok ?val (max 1 ?n) (max 1 thr)"]
    by (simp add: latest_cardinality_window_eq Let_def) metis
  have len: "length (window_values ?val ?sel) = card (?val ` set ?sel - {[]})"
  proof -
    have "set (window_values ?val ?sel) = ?val ` set ?sel - {[]}" by (auto simp: window_values_def)
    then show ?thesis using distinct_card[of "window_values ?val ?sel"] by (simp add: window_values_def)
  qed
  have sub: "set ?sel \<subseteq> set rows" by (rule distinct_values.sel_subset)
  have span: "\<forall>r \<in> set ?sel. \<forall>s \<in> set ?sel. row_ts now ?src s - row_ts now ?src r \<le> max 1 ?w * 1000000"
    using distinct_values.sel_all_within by blast
  have m2: "m = cardinality_match now rule ds lim ?src ?field thr k
      (?sel, int (card (?val ` set ?sel - {[]})), window_values ?val ?sel)"
    unfolding m by (rule arg_cong[where f = "cardinality_match now rule ds lim ?src ?field thr k"])
      (rule card[unfolded len])
  have mk: "match_key m = k" "cm_evidence_items m = map (\<lambda>r. build_evidence_item now r ?src ds PNone []) ?sel"
    "cm_risk_score m = Some (min 100 (severity_score (cr_severity rule) + int (card (?val ` set ?sel - {[]})) * 4))"
    unfolding m2 cardinality_match_fields by (rule refl)+
  have n: "max 1 ?n \<le> int (length ?sel)" and d: "max 1 thr \<le> int (card (?val ` set ?sel - {[]}))"
    using ok unfolding card_ok_def len by blast+
  have ent: "\<forall>r \<in> set ?sel. resolve_entity rule r ?src ds = match_key m"
    using sub unfolding mk(1) rows by auto
  have sub': "set ?sel \<subseteq> set filtered" using sub unfolding rows by auto
  show ?thesis
    by (rule exI[of _ ?src], rule exI[of _ thr], rule exI[of _ filtered], rule exI[of _ ?sel],
        rule exI[of _ "int (card (?val ` set ?sel - {[]}))"])
      (intro conjI refl thr f ne sub' ent n d span mk(2,3))
qed

definition demo_cardinality_rule :: correlation_rule where
  "demo_cardinality_rule = (demo_rule 600 2)\<lparr>cr_strategy_config := Some [(''field'', PStr ''src_ip''), (''threshold'', PInt 1)]\<rparr>"

lemma demo_card_window:
  "latest_cardinality_window 0
     [RAlert (demo_alert 1 0 ''r''), RAlert (demo_alert 2 1000000 ''r''), RAlert (demo_alert 3 2000000 ''r'')]
     ''alerts'' ds ''src_ip'' 600 1 2 =
   ([RAlert (demo_alert 1 0 ''r''), RAlert (demo_alert 2 1000000 ''r''), RAlert (demo_alert 3 2000000 ''r'')],
    1, [''10.0.0.5''])"
proof -
  have t: "al_created_at (demo_alert i t rid) = t" for i t rid by (simp add: demo_alert_def)
  show ?thesis
    by (simp add: latest_cardinality_window_def cardinality_step_def advance_counting.simps slice_def within_def t
        demo_alert_src counter_inc_def counter_get_def dict_get_def upt_rec Let_def numeral_2_eq_2)
qed

theorem cardinality_match_sound_witness:
  "\<exists>ms m. cardinality_build 0 demo_cardinality_rule demo_burst 5 = Inr ms \<and> m \<in> set ms \<and>
     2 \<le> length (cm_evidence_items m)"
proof -
  let ?rows = "[RAlert (demo_alert 1 0 ''r''), RAlert (demo_alert 2 1000000 ''r''), RAlert (demo_alert 3 2000000 ''r'')]"
  have cfg: "strategy_cfg demo_cardinality_rule = [(''field'', PStr ''src_ip''), (''threshold'', PInt 1)]"
    by (simp add: strategy_cfg_def demo_cardinality_rule_def demo_rule_def)
  have src: "cfg_source (strategy_cfg demo_cardinality_rule) = ''alerts''"
    by (simp add: cfg cfg_source_def pget_def dict_get_def py_defs str_or_def py_or_def)
  have field: "cardinality_value_field demo_cardinality_rule = ''src_ip''"
    by (simp add: cardinality_value_field_def cfg pget_def dict_get_def py_defs str_or_def py_or_def)
  have r: "rule_min_alerts demo_cardinality_rule 2 = 2" "rule_window demo_cardinality_rule 600 = 600"
    by (simp_all add: rule_min_alerts_def rule_window_def demo_cardinality_rule_def demo_rule_def or_int_def)
  have thr: "int_or (pget (strategy_cfg demo_cardinality_rule) ''threshold'') n = Inr 1" for n
    by (simp add: cfg pget_def dict_get_def int_or_def py_or_def)
  have f: "filter_for_rule demo_cardinality_rule demo_burst ''alerts'' = Inr ?rows"
    by (simp add: filter_for_rule_def strategy_cfg_def filter_records_def select_records_def demo_burst_def demo_dataset_def
        norm_patterns_def pget_def dict_get_def passes_filter_def apply_field_filters_def demo_cardinality_rule_def
        demo_rule_def)
  have res: "resolve_entity demo_cardinality_rule (RAlert (demo_alert i t rid)) ''alerts'' ds =
      (''src_ip'', ''10.0.0.5'', ''src_ip'', ''10.0.0.5'')" for i t rid ds
    by (simp add: resolve_entity_def entity_fields_def entity_cfg_def demo_cardinality_rule_def demo_rule_def pget_def
        group_value_def demo_alert_def py_defs or_text_def opt_or_def Let_def str_or_def py_or_def)
  obtain m where b: "cardinality_build 0 demo_cardinality_rule demo_burst 5 = Inr [m]"
    by (simp add: cardinality_build_def src field thr f group_records_def res dict_push_def dict_get_def r
        demo_card_window Let_def)
  have "2 \<le> length (cm_evidence_items m)"
    using cardinality_match_sound[OF b, of m] unfolding r by auto
  with b show ?thesis by auto
qed

end
