(* ===== verification/Corr_Sequence.thy ===== *)
theory Corr_Sequence
  imports Corr_Engines
begin

text \<open>
  The engines that look for an ordered combination of evidence: \<open>SequenceEngine\<close> (stages of alerts,
  with the compatibility mode of the strategy "chain") and \<open>TemporalJoinEngine\<close> (families of records
  of any kind). Both cut the records of an entity into segments, then choose for every stage the
  first slice of rows that fits behind the stage it follows. The sequence engine reports the last
  segment that satisfies the stages, the temporal join the first.
\<close>

section \<open>Choosing a slice\<close>

text \<open>
  The part the two engines share: the rows at or after the anchor and not too long after it, then
  the first \<open>min_count\<close> consecutive ones that span no more than \<open>maxspan\<close>.
\<close>

definition after_anchor :: "('a \<Rightarrow> time) \<Rightarrow> time option \<Rightarrow> int option \<Rightarrow> 'a \<Rightarrow> bool" where
  "after_anchor key anchor within_seconds row =
     (case anchor of
        None \<Rightarrow> True
      | Some t \<Rightarrow> \<not> key row < t \<and> (case within_seconds of None \<Rightarrow> True | Some w \<Rightarrow> within w t (key row)))"

fun first_slice :: "('a \<Rightarrow> time) \<Rightarrow> nat \<Rightarrow> int option \<Rightarrow> 'a list \<Rightarrow> 'a list" where
  "first_slice key min_count maxspan [] = []"
| "first_slice key min_count maxspan (c # cs) =
     (let window = take min_count (c # cs) in
      if length window < min_count then []
      else case maxspan of
        None \<Rightarrow> window
      | Some m \<Rightarrow>
          if within m (key (hd window)) (key (last window)) then window
          else first_slice key min_count maxspan cs)"

definition none_if_zero :: "int \<Rightarrow> int option" where
  "none_if_zero i = (if i = 0 then None else Some i)"

definition opt_pystr :: "string option \<Rightarrow> pyval" where
  "opt_pystr x = (case x of None \<Rightarrow> PNone | Some s \<Rightarrow> PStr s)"

definition text_or_none :: "string \<Rightarrow> string option" where
  "text_or_none s = (if s = [] then None else Some s)"

text \<open>\<open>_stage_id\<close> and \<open>_family_id\<close>: they differ in the word used for an unnamed entry.\<close>

definition entry_id :: "string \<Rightarrow> pydict \<Rightarrow> nat \<Rightarrow> string" where
  "entry_id word entry index =
     (let raw = py_strip (str_or (pget entry ''id'') []);
          fallback = word @ ''_'' @ nat_str (index + 1);
          name = py_replace_char (CHR '' '') (CHR ''_'') (py_lower (py_strip (str_or (pget entry ''name'') fallback)))
      in if raw \<noteq> [] then raw else or_text name fallback)"

definition entry_name :: "string \<Rightarrow> pydict \<Rightarrow> nat \<Rightarrow> string" where
  "entry_name word entry index =
     (let fallback = word @ '' '' @ nat_str (index + 1) in
      or_text (py_strip (str_or (pget entry ''name'') fallback)) fallback)"

section \<open>Sequence\<close>

record seq_stage =
  sg_id :: string
  sg_name :: string
  sg_include :: "string list"
  sg_exclude :: "string list"
  sg_min_count :: int
  sg_after :: "string option"
  sg_within :: "int option"
  sg_required :: bool
  sg_maxspan :: "int option"

definition stage_id :: "pydict \<Rightarrow> nat \<Rightarrow> string" where
  "stage_id stage index = entry_id ''stage'' stage index"

definition normalize_stage :: "pydict \<Rightarrow> nat \<Rightarrow> bool \<Rightarrow> int \<Rightarrow> string option \<Rightarrow> py_error + seq_stage" where
  "normalize_stage stage index compat_mode window_seconds previous_stage_id =
     ebind (norm_patterns_of (pget stage ''include_patterns'')) (\<lambda>inc0.
     ebind (if inc0 = [] then norm_patterns_of (pget stage ''patterns'') else Inr inc0) (\<lambda>inc.
     ebind (norm_patterns_of (pget stage ''exclude_patterns'')) (\<lambda>exc.
     ebind (int_or (pget stage ''min_count'') 1) (\<lambda>min_count.
     ebind (int_or (pget stage ''within_seconds'') window_seconds) (\<lambda>within_seconds.
     ebind (int_or (pget stage ''maxspan_seconds'') window_seconds) (\<lambda>maxspan.
       Inr \<lparr>sg_id = stage_id stage index, sg_name = entry_name ''Stage'' stage index,
         sg_include = inc, sg_exclude = exc, sg_min_count = max 1 min_count,
         sg_after = text_or_none (py_strip (str_or (py_or (pget stage ''after'') (opt_pystr previous_stage_id)) [])),
         sg_within = none_if_zero within_seconds,
         sg_required = (if compat_mode then True
           else (case dict_get stage ''required'' of None \<Rightarrow> True | Some v \<Rightarrow> truthy v)),
         sg_maxspan = none_if_zero maxspan\<rparr>))))))"

fun normalize_stages :: "bool \<Rightarrow> int \<Rightarrow> nat \<Rightarrow> string option \<Rightarrow> pydict list \<Rightarrow> py_error + seq_stage list" where
  "normalize_stages compat_mode window_seconds idx prev [] = Inr []"
| "normalize_stages compat_mode window_seconds idx prev (raw # raws) =
     ebind (normalize_stage raw idx compat_mode window_seconds prev) (\<lambda>st.
     ebind (normalize_stages compat_mode window_seconds (Suc idx) (Some (sg_id st)) raws) (\<lambda>sts.
       Inr (st # sts)))"

definition alert_matches_stage :: "corr_row \<Rightarrow> seq_stage \<Rightarrow> bool" where
  "alert_matches_stage a stage =
     passes_filter (str_or (row_get a ''rule_id'') []) (sg_include stage) (sg_exclude stage)"

definition select_stage_slice :: "(corr_row \<Rightarrow> time) \<Rightarrow> corr_row list \<Rightarrow> seq_stage \<Rightarrow> corr_row option \<Rightarrow> corr_row list" where
  "select_stage_slice ts rows stage anchor_end =
     first_slice ts (nat (max 1 (sg_min_count stage))) (sg_maxspan stage)
       (filter (\<lambda>r. alert_matches_stage r stage \<and> after_anchor ts (map_option ts anchor_end) (sg_within stage) r) rows)"

text \<open>
  The loop over the stages of one segment: \<open>None\<close> when a required stage has no slice, or follows a
  stage that has none; otherwise what was chosen, by stage id.
\<close>

type_synonym 'a chosen = "(string \<times> 'a list) list"

definition chosen_rows :: "'a chosen \<Rightarrow> string \<Rightarrow> 'a list" where
  "chosen_rows chosen sid = (case dict_get chosen sid of None \<Rightarrow> [] | Some rows \<Rightarrow> rows)"

fun choose_stages :: "(corr_row \<Rightarrow> time) \<Rightarrow> corr_row list \<Rightarrow> corr_row chosen \<Rightarrow> seq_stage list \<Rightarrow> corr_row chosen option" where
  "choose_stages ts segment chosen [] = Some chosen"
| "choose_stages ts segment chosen (st # sts) =
     (let prior = (case sg_after st of None \<Rightarrow> [] | Some aid \<Rightarrow> chosen_rows chosen aid)
      in if sg_after st \<noteq> None \<and> prior = [] \<and> sg_required st then None
         else (let sl = select_stage_slice ts segment st (if prior = [] then None else Some (last prior)) in
           if sl = [] then (if sg_required st then None else choose_stages ts segment chosen sts)
           else choose_stages ts segment (dict_set chosen (sg_id st) sl) sts))"

definition stage_hits_of :: "corr_row list \<Rightarrow> seq_stage list \<Rightarrow> (string \<times> int) list" where
  "stage_hits_of segment stages =
     foldl (\<lambda>h st. dict_set h (sg_name st) (count_matching (\<lambda>a. alert_matches_stage a st) segment)) [] stages"

text \<open>The loop over the segments: every satisfied segment replaces the one before.\<close>

definition match_segments ::
  "(corr_row \<Rightarrow> time) \<Rightarrow> seq_stage list \<Rightarrow> corr_row list list \<Rightarrow> (corr_row chosen \<times> (string \<times> int) list) option" where
  "match_segments ts stages segments =
     foldl (\<lambda>found segment.
       case choose_stages ts segment [] stages of
         None \<Rightarrow> found
       | Some chosen \<Rightarrow> if chosen = [] then found else Some (chosen, stage_hits_of segment stages)) None segments"

definition unique_by_id :: "corr_row list \<Rightarrow> corr_row list" where
  "unique_by_id rows = map snd (foldl (\<lambda>m r. dict_set m (row_get r ''id'') r) [] rows)"

definition stage_context :: "seq_stage \<Rightarrow> pyval" where
  "stage_context st = PDict
     [(''id'', PStr (sg_id st)), (''name'', PStr (sg_name st)), (''after'', opt_str (sg_after st)),
      (''within_seconds'', opt_int (sg_within st)), (''required'', PBool (sg_required st)),
      (''maxspan_seconds'', opt_int (sg_maxspan st))]"

definition sequence_match ::
  "bool \<Rightarrow> time \<Rightarrow> correlation_rule \<Rightarrow> correlation_dataset \<Rightarrow> int \<Rightarrow> seq_stage list \<Rightarrow> entity_key \<Rightarrow>
     corr_row chosen \<Rightarrow> (string \<times> int) list \<Rightarrow> correlation_match" where
  "sequence_match compat_mode now rule ds sample_limit stages k chosen hits =
     (case k of (group_by, group_val, entity_type, entity_value) \<Rightarrow>
       let ts = row_ts now ''alerts'';
           selected = sort_key ts (unique_by_id (concat (map snd chosen)));
           n = int (length chosen);
           window_seconds = rule_window rule 600
       in (base_match rule ''high'' k (ts (hd selected)) (ts (last selected)))
          \<lparr>cm_alert_count := int (length selected),
           cm_unique_rules := unique_rules_of selected,
           cm_stage_hits := hits,
           cm_risk_score := Some (min 100 (severity_score (cr_severity rule) + n * 5)),
           cm_confidence := Some (min 99 (62 + min 30 (n * 8))),
           cm_summary := Some (''Ordered sequence for '' @ entity_type @ '' '' @ group_val @ '' matched '' @ int_str n @
             '' stages within '' @ summarize_timedelta_seconds window_seconds @ ''.''),
           cm_context := [(''strategy'', PStr (if compat_mode then ''chain'' else ''sequence'')),
             (''window_seconds'', PInt window_seconds), (''stages'', PList (map stage_context stages))],
           cm_sample_alert_rows := dedupe_alert_rows ts selected sample_limit,
           cm_evidence_items := concat (map (\<lambda>st. map (\<lambda>a.
               build_evidence_item now a ''alerts'' ds (PStr (or_text (sg_name st) (sg_id st))) [])
             (chosen_rows chosen (sg_id st))) stages)\<rparr>)"

definition sequence_alerts :: "correlation_rule \<Rightarrow> correlation_dataset \<Rightarrow> corr_row list" where
  "sequence_alerts rule ds =
     filter (\<lambda>a. passes_filter (str_or (row_get a ''rule_id'') []) (norm_patterns (cr_include_patterns rule))
       (norm_patterns (cr_exclude_patterns rule))) (map RAlert (ds_alerts ds))"

definition sequence_build ::
  "bool \<Rightarrow> time \<Rightarrow> correlation_rule \<Rightarrow> correlation_dataset \<Rightarrow> int \<Rightarrow> py_error + correlation_match list" where
  "sequence_build compat_mode now rule ds sample_limit =
     (if cr_stages rule = [] then Inr []
      else ebind (normalize_stages compat_mode (rule_window rule 600) 0 None (cr_stages rule)) (\<lambda>stages.
        Inr (concat (map (\<lambda>(k, rows).
          case match_segments (row_ts now ''alerts'') stages
                 (segment_by_window (row_ts now ''alerts'') rows (rule_window rule 600)) of
            None \<Rightarrow> []
          | Some (chosen, hits) \<Rightarrow> [sequence_match compat_mode now rule ds sample_limit stages k chosen hits])
          (group_records rule ds ''alerts'' (sequence_alerts rule ds))))))"

section \<open>Temporal join\<close>

record family =
  fm_id :: string
  fm_name :: string
  fm_source :: string
  fm_include :: "pyval list"
  fm_exclude :: "pyval list"
  fm_filters :: "pyval list"
  fm_min_count :: int
  fm_after :: "string option"
  fm_within :: "int option"
  fm_required :: bool
  fm_maxspan :: "int option"

text \<open>
  \<open>dict(raw or {})\<close> of a family: text is a \<open>ValueError\<close>, any other value that is not a dictionary a
  \<open>TypeError\<close>. A list of key-value pairs, which \<open>dict\<close> would take, is not in the model.
\<close>

fun family_dict :: "pyval \<Rightarrow> py_error + pydict" where
  "family_dict (PDict d) = Inr d"
| "family_dict (PStr s) = (if s = [] then Inr [] else Inl ValueError)"
| "family_dict v = (if truthy v then Inl TypeError else Inr [])"

definition family_id :: "pydict \<Rightarrow> nat \<Rightarrow> string" where
  "family_id fam index = entry_id ''family'' fam index"

definition normalize_family :: "pydict \<Rightarrow> nat \<Rightarrow> string option \<Rightarrow> int \<Rightarrow> py_error + family" where
  "normalize_family fam index previous_family_id window_seconds =
     ebind (iter_or (pget fam ''include_patterns'')) (\<lambda>inc.
     ebind (iter_or (pget fam ''exclude_patterns'')) (\<lambda>exc.
     ebind (iter_or (pget fam ''field_filters'')) (\<lambda>flts.
     ebind (int_or (pget fam ''min_count'') 1) (\<lambda>min_count.
     ebind (int_or (pget fam ''within_seconds'') window_seconds) (\<lambda>within_seconds.
     ebind (int_or (pget fam ''maxspan_seconds'') window_seconds) (\<lambda>maxspan.
       Inr \<lparr>fm_id = family_id fam index, fm_name = entry_name ''Family'' fam index, fm_source = cfg_source fam,
         fm_include = inc, fm_exclude = exc, fm_filters = flts, fm_min_count = max 1 min_count,
         fm_after = text_or_none (py_strip (str_or (py_or (pget fam ''after'') (opt_pystr previous_family_id)) [])),
         fm_within = none_if_zero within_seconds,
         fm_required = (case dict_get fam ''required'' of None \<Rightarrow> True | Some v \<Rightarrow> truthy v),
         fm_maxspan = none_if_zero maxspan\<rparr>))))))"

fun normalize_families :: "int \<Rightarrow> nat \<Rightarrow> string option \<Rightarrow> pyval list \<Rightarrow> py_error + family list" where
  "normalize_families window_seconds idx prev [] = Inr []"
| "normalize_families window_seconds idx prev (raw # raws) =
     ebind (family_dict raw) (\<lambda>d.
     ebind (normalize_family d idx prev window_seconds) (\<lambda>fam.
     ebind (normalize_families window_seconds (Suc idx) (Some (fm_id fam)) raws) (\<lambda>fams.
       Inr (fam # fams))))"

definition select_family_slice :: "(corr_row \<Rightarrow> time) \<Rightarrow> corr_row list \<Rightarrow> family \<Rightarrow> time option \<Rightarrow> corr_row list" where
  "select_family_slice ts rows fam anchor_ts =
     first_slice ts (nat (max 1 (fm_min_count fam))) (fm_maxspan fam)
       (filter (after_anchor ts anchor_ts (fm_within fam)) rows)"

type_synonym family_rows = "(string \<times> corr_row list) list"

definition family_sources :: "family list \<Rightarrow> (string \<times> string) list" where
  "family_sources fams = foldl (\<lambda>m f. dict_set m (fm_id f) (fm_source f)) [] fams"

definition source_of :: "(string \<times> string) list \<Rightarrow> string \<Rightarrow> string" where
  "source_of srcs fid = (case dict_get srcs fid of None \<Rightarrow> [] | Some s \<Rightarrow> s)"

definition collect_families ::
  "correlation_rule \<Rightarrow> correlation_dataset \<Rightarrow> family list \<Rightarrow> py_error + (entity_key \<times> family_rows) list" where
  "collect_families rule ds fams =
     efold (\<lambda>g fam.
       ebind (filter_records (select_records ds (fm_source fam)) (fm_source fam) ds (fm_include fam) (fm_exclude fam)
               (PList (fm_filters fam))) (\<lambda>records.
         Inr (foldl (\<lambda>g r.
           let k = resolve_entity rule r (fm_source fam) ds in
           dict_set g k (dict_push (case dict_get g k of None \<Rightarrow> [] | Some m \<Rightarrow> m) (fm_id fam) r)) g records)))
       [] fams"

type_synonym sourced = "string \<times> corr_row"

definition sourced_ts :: "time \<Rightarrow> sourced \<Rightarrow> time" where
  "sourced_ts now p = row_ts now (fst p) (snd p)"

definition combined_rows :: "(string \<times> string) list \<Rightarrow> family list \<Rightarrow> family_rows \<Rightarrow> sourced list" where
  "combined_rows srcs fams fam_map =
     concat (map (\<lambda>f. map (\<lambda>r. (source_of srcs (fm_id f), r)) (chosen_rows fam_map (fm_id f))) fams)"

text \<open>
  The sort reads every row's time; two families with one id and different sources can make that fail.
\<close>

definition times_readable :: "time \<Rightarrow> sourced list \<Rightarrow> py_error + unit" where
  "times_readable now ps =
     (if list_all (\<lambda>p. record_timestamp now (snd p) (fst p) \<noteq> None) ps then Inr () else Inl AttributeError)"

text \<open>The engine's own segmentation loop: finished segments, the current one and its start.\<close>

definition join_step ::
  "('a \<Rightarrow> time) \<Rightarrow> int \<Rightarrow> 'a list list \<times> 'a list \<times> time option \<Rightarrow> 'a \<Rightarrow> 'a list list \<times> 'a list \<times> time option" where
  "join_step key w st p =
     (case st of (segments, current, start) \<Rightarrow>
        case start of
          None \<Rightarrow> (segments, [p], Some (key p))
        | Some t \<Rightarrow>
            if within w t (key p) then (segments, current @ [p], Some t)
            else (segments @ [current], [p], Some (key p)))"

definition join_segments :: "('a \<Rightarrow> time) \<Rightarrow> int \<Rightarrow> 'a list \<Rightarrow> 'a list list" where
  "join_segments key window_seconds ordered =
     (case foldl (join_step key (max 1 window_seconds)) ([], [], None) ordered of
        (segments, current, _) \<Rightarrow> if current \<noteq> [] then segments @ [current] else segments)"

definition per_family_rows ::
  "time \<Rightarrow> (string \<times> string) list \<Rightarrow> family_rows \<Rightarrow> sourced list \<Rightarrow> string \<Rightarrow> corr_row list" where
  "per_family_rows now srcs fam_map segment fid =
     sort_key (row_ts now (source_of srcs fid))
       (map snd (filter (\<lambda>p. source_of srcs fid = fst p \<and> snd p \<in> set (chosen_rows fam_map fid)) segment))"

fun choose_families ::
  "time \<Rightarrow> (string \<times> string) list \<Rightarrow> (string \<Rightarrow> corr_row list) \<Rightarrow> corr_row chosen \<Rightarrow> family list \<Rightarrow> corr_row chosen option" where
  "choose_families now srcs rows_of chosen [] = Some chosen"
| "choose_families now srcs rows_of chosen (fam # fams) =
     (let prior = (case fm_after fam of None \<Rightarrow> [] | Some aid \<Rightarrow> chosen_rows chosen aid);
          anchor = (case fm_after fam of
              None \<Rightarrow> None
            | Some aid \<Rightarrow> if prior = [] then None else Some (row_ts now (source_of srcs aid) (last prior)))
      in if fm_after fam \<noteq> None \<and> prior = [] \<and> fm_required fam then None
         else (let sl = select_family_slice (row_ts now (source_of srcs (fm_id fam))) (rows_of (fm_id fam)) fam anchor in
           if sl = [] then (if fm_required fam then None else choose_families now srcs rows_of chosen fams)
           else choose_families now srcs rows_of (dict_set chosen (fm_id fam) sl) fams))"

text \<open>The loop over the segments stops at the first one that is satisfied.\<close>

fun match_join ::
  "time \<Rightarrow> (string \<times> string) list \<Rightarrow> family_rows \<Rightarrow> family list \<Rightarrow> sourced list list \<Rightarrow>
     (corr_row chosen \<times> (string \<times> int) list) option" where
  "match_join now srcs fam_map fams [] = None"
| "match_join now srcs fam_map fams (segment # segments) =
     (let rows_of = per_family_rows now srcs fam_map segment in
      case choose_families now srcs rows_of [] fams of
        None \<Rightarrow> match_join now srcs fam_map fams segments
      | Some chosen \<Rightarrow>
          if chosen = [] then match_join now srcs fam_map fams segments
          else Some (chosen, foldl (\<lambda>h f. dict_set h (fm_name f) (int (length (rows_of (fm_id f))))) [] fams))"

definition family_context :: "family \<Rightarrow> pyval" where
  "family_context f = PDict
     [(''id'', PStr (fm_id f)), (''name'', PStr (fm_name f)), (''source'', PStr (fm_source f)),
      (''after'', opt_str (fm_after f)), (''within_seconds'', opt_int (fm_within f)),
      (''required'', PBool (fm_required f)), (''maxspan_seconds'', opt_int (fm_maxspan f))]"

definition join_match ::
  "time \<Rightarrow> correlation_rule \<Rightarrow> correlation_dataset \<Rightarrow> int \<Rightarrow> (string \<times> string) list \<Rightarrow> family list \<Rightarrow> entity_key \<Rightarrow>
     corr_row chosen \<Rightarrow> (string \<times> int) list \<Rightarrow> correlation_match list" where
  "join_match now rule ds sample_limit srcs fams k chosen hits =
     (case k of (group_by, group_val, entity_type, entity_value) \<Rightarrow>
       let pairs = sort_key (\<lambda>t. sourced_ts now (fst t))
             (concat (map (\<lambda>f. map (\<lambda>r. ((source_of srcs (fm_id f), r), fm_name f)) (chosen_rows chosen (fm_id f))) fams));
           alert_rows = map (\<lambda>t. snd (fst t)) (filter (\<lambda>t. fst (fst t) = ''alerts'') pairs);
           n = int (length chosen);
           window_seconds = rule_window rule 600
       in if pairs = [] then []
          else [(base_match rule ''high'' k (sourced_ts now (fst (hd pairs))) (sourced_ts now (fst (last pairs))))
            \<lparr>cm_alert_count := int (if alert_rows = [] then length pairs else length alert_rows),
             cm_unique_rules := unique_rules_of alert_rows,
             cm_stage_hits := hits,
             cm_risk_score := Some (min 100 (severity_score (cr_severity rule) + n * 6)),
             cm_confidence := Some (min 99 (64 + min 28 (n * 8))),
             cm_summary := Some (''Temporal join matched '' @ int_str n @ '' evidence families for '' @ entity_type @ '' '' @
               group_val @ '' within '' @ summarize_timedelta_seconds window_seconds @ ''.''),
             cm_context := [(''strategy'', PStr ''temporal_join''), (''window_seconds'', PInt window_seconds),
               (''families'', PList (map family_context fams))],
             cm_sample_alert_rows :=
               (if alert_rows = [] then [] else dedupe_alert_rows (row_ts now ''alerts'') alert_rows sample_limit),
             cm_evidence_items := map (\<lambda>t.
               build_evidence_item now (snd (fst t)) (fst (fst t)) ds (PStr (snd t)) []) pairs\<rparr>])"

definition raw_families :: "correlation_rule \<Rightarrow> pyval" where
  "raw_families rule =
     py_or (pget (case cr_evidence_config rule of None \<Rightarrow> [] | Some d \<Rightarrow> d) ''families'')
       (py_or (pget (strategy_cfg rule) ''families'') (PList []))"

definition join_group ::
  "time \<Rightarrow> correlation_rule \<Rightarrow> correlation_dataset \<Rightarrow> int \<Rightarrow> family list \<Rightarrow> entity_key \<times> family_rows \<Rightarrow>
     py_error + correlation_match list" where
  "join_group now rule ds sample_limit fams g =
     (case g of (k, fam_map) \<Rightarrow>
       let srcs = family_sources fams; combined = combined_rows srcs fams fam_map in
       if combined = [] then Inr []
       else ebind (times_readable now combined) (\<lambda>_.
         case match_join now srcs fam_map fams
                (join_segments (sourced_ts now) (rule_window rule 600) (sort_key (sourced_ts now) combined)) of
           None \<Rightarrow> Inr []
         | Some (chosen, hits) \<Rightarrow> Inr (join_match now rule ds sample_limit srcs fams k chosen hits)))"

definition temporal_join_build ::
  "time \<Rightarrow> correlation_rule \<Rightarrow> correlation_dataset \<Rightarrow> int \<Rightarrow> py_error + correlation_match list" where
  "temporal_join_build now rule ds sample_limit =
     (if \<not> truthy (raw_families rule) then Inr []
      else ebind (py_iter (raw_families rule)) (\<lambda>raws.
        ebind (normalize_families (rule_window rule 600) 0 None raws) (\<lambda>fams.
        ebind (collect_families rule ds fams) (\<lambda>groups.
        ebind (emap (join_group now rule ds sample_limit fams) groups) (\<lambda>outs. Inr (concat outs))))))"

section \<open>The slice is the first that fits\<close>

definition slice_fits :: "('a \<Rightarrow> time) \<Rightarrow> nat \<Rightarrow> int option \<Rightarrow> 'a list \<Rightarrow> nat \<Rightarrow> bool" where
  "slice_fits key n maxspan cands i =
     (i + n \<le> length cands \<and>
      (case maxspan of None \<Rightarrow> True
       | Some m \<Rightarrow> within m (key (cands ! i)) (key (cands ! (i + n - 1)))))"

lemma slice_fits_0:
  assumes "0 < n"
  shows "slice_fits key n maxspan (c # cs) 0 \<longleftrightarrow>
    \<not> length (take n (c # cs)) < n \<and>
    (case maxspan of None \<Rightarrow> True
     | Some m \<Rightarrow> within m (key (hd (take n (c # cs)))) (key (last (take n (c # cs)))))"
proof -
  have "take n (c # cs) \<noteq> []" using assms by simp
  moreover have "last (take n (c # cs)) = (c # cs) ! (n - 1)" if "n \<le> Suc (length cs)"
    using that assms by (simp add: last_conv_nth)
  moreover have "hd (take n (c # cs)) = c" using assms by simp
  ultimately show ?thesis
    by (auto simp: slice_fits_def not_less split: option.splits)
qed

lemma slice_fits_Suc: "0 < n \<Longrightarrow> slice_fits key n maxspan (c # cs) (Suc i) \<longleftrightarrow> slice_fits key n maxspan cs i"
  by (cases n; cases maxspan) (simp_all add: slice_fits_def)

lemma first_slice_cases:
  assumes "0 < n"
  shows "(first_slice key n maxspan cands = [] \<and> (\<forall>i. \<not> slice_fits key n maxspan cands i)) \<or>
    (\<exists>i. slice_fits key n maxspan cands i \<and> (\<forall>j < i. \<not> slice_fits key n maxspan cands j) \<and>
       first_slice key n maxspan cands = take n (drop i cands))"
proof (induction cands)
  case Nil
  then show ?case using assms by (simp add: slice_fits_def)
next
  case (Cons c cs)
  let ?w = "take n (c # cs)"
  have short: "first_slice key n maxspan (c # cs) = [] \<and> (\<forall>i. \<not> slice_fits key n maxspan (c # cs) i)"
    if "length ?w < n"
    using that by (auto simp: slice_fits_def Let_def)
  have hit: "first_slice key n maxspan (c # cs) = ?w" if "slice_fits key n maxspan (c # cs) 0"
    using that unfolding slice_fits_0[OF assms] by (auto simp: Let_def split: option.splits)
  have miss: "first_slice key n maxspan (c # cs) = first_slice key n maxspan cs"
    if "\<not> slice_fits key n maxspan (c # cs) 0" "\<not> length ?w < n"
    using that unfolding slice_fits_0[OF assms] by (auto simp: Let_def split: option.splits)
  show ?case
  proof (cases "length ?w < n \<or> slice_fits key n maxspan (c # cs) 0")
    case True
    with short hit show ?thesis by (metis drop0 not_less_zero)
  next
    case False
    then have eq: "first_slice key n maxspan (c # cs) = first_slice key n maxspan cs" using miss by blast
    from Cons.IH show ?thesis
    proof
      assume a: "first_slice key n maxspan cs = [] \<and> (\<forall>i. \<not> slice_fits key n maxspan cs i)"
      have "\<not> slice_fits key n maxspan (c # cs) i" for i
      proof (cases i)
        case 0
        with False show ?thesis by blast
      next
        case (Suc k)
        with a slice_fits_Suc[OF assms, of key maxspan c cs k] show ?thesis by simp
      qed
      with a eq show ?thesis by simp
    next
      assume "\<exists>i. slice_fits key n maxspan cs i \<and> (\<forall>j < i. \<not> slice_fits key n maxspan cs j) \<and>
       first_slice key n maxspan cs = take n (drop i cs)"
      then obtain i where i: "slice_fits key n maxspan cs i" "\<forall>j < i. \<not> slice_fits key n maxspan cs j"
        "first_slice key n maxspan cs = take n (drop i cs)" by blast
      have "\<not> slice_fits key n maxspan (c # cs) j" if "j < Suc i" for j
      proof (cases j)
        case 0
        with False show ?thesis by blast
      next
        case (Suc k)
        with that i(2) slice_fits_Suc[OF assms, of key maxspan c cs k] show ?thesis by simp
      qed
      with i eq slice_fits_Suc[OF assms] show ?thesis by (metis drop_Suc_Cons)
    qed
  qed
qed

text \<open>For a stage, the candidates are the segment's alerts that match its patterns, do not precede the
  anchor and follow it closely enough; the slice is the first run of \<open>min_count\<close> consecutive candidates
  whose span is allowed, and it is empty exactly when no run of candidates is.\<close>

theorem select_stage_slice_first:
  "let n = nat (max 1 (sg_min_count stage));
       cands = filter (\<lambda>r. alert_matches_stage r stage \<and> after_anchor ts (map_option ts anchor) (sg_within stage) r) rows;
       sl = select_stage_slice ts rows stage anchor
   in (sl = [] \<longleftrightarrow> (\<forall>i. \<not> slice_fits ts n (sg_maxspan stage) cands i)) \<and>
      (sl \<noteq> [] \<longrightarrow> length sl = n \<and> (\<exists>i. slice_fits ts n (sg_maxspan stage) cands i \<and>
         (\<forall>j < i. \<not> slice_fits ts n (sg_maxspan stage) cands j) \<and> sl = take n (drop i cands)))"
proof -
  let ?n = "nat (max 1 (sg_min_count stage))"
  let ?c = "filter (\<lambda>r. alert_matches_stage r stage \<and> after_anchor ts (map_option ts anchor) (sg_within stage) r) rows"
  have n: "0 < ?n" by simp
  have len: "length (take ?n (drop i ?c)) = ?n" if "slice_fits ts ?n (sg_maxspan stage) ?c i" for i
  proof -
    have "i + ?n \<le> length ?c" using that unfolding slice_fits_def by blast
    then show ?thesis unfolding length_take length_drop by linarith
  qed
  have ne: "take ?n (drop i ?c) \<noteq> []" if "slice_fits ts ?n (sg_maxspan stage) ?c i" for i
    using len[OF that] n by (metis less_irrefl list.size(3))
  from first_slice_cases[OF n, of ts "sg_maxspan stage" ?c] show ?thesis
  proof
    assume "first_slice ts ?n (sg_maxspan stage) ?c = [] \<and> (\<forall>i. \<not> slice_fits ts ?n (sg_maxspan stage) ?c i)"
    then show ?thesis unfolding select_stage_slice_def Let_def by blast
  next
    assume "\<exists>i. slice_fits ts ?n (sg_maxspan stage) ?c i \<and> (\<forall>j < i. \<not> slice_fits ts ?n (sg_maxspan stage) ?c j) \<and>
       first_slice ts ?n (sg_maxspan stage) ?c = take ?n (drop i ?c)"
    then obtain i where i: "slice_fits ts ?n (sg_maxspan stage) ?c i" "\<forall>j < i. \<not> slice_fits ts ?n (sg_maxspan stage) ?c j"
      "first_slice ts ?n (sg_maxspan stage) ?c = take ?n (drop i ?c)" by blast
    show ?thesis
      unfolding select_stage_slice_def Let_def i(3) using ne[OF i(1)] len[OF i(1)] i(1,2) by blast
  qed
qed

section \<open>Segments\<close>

lemma segment_loop_join:
  "cur \<noteq> [] \<Longrightarrow>
   (case foldl (join_step key w) (segs, cur, Some start) rest of
      (segments, current, _) \<Rightarrow> if current \<noteq> [] then segments @ [current] else segments) =
   segs @ segment_loop key w cur start rest"
proof (induction rest arbitrary: segs cur start)
  case (Cons a rest)
  show ?case
  proof (cases "within w start (key a)")
    case True
    with Cons.IH[of "cur @ [a]" segs start] show ?thesis by (simp add: join_step_def)
  next
    case False
    with Cons.IH[of "[a]" "segs @ [cur]" "key a"] show ?thesis by (simp add: join_step_def)
  qed
qed simp

text \<open>The temporal join's own segmentation loop cuts the ordered records exactly as
  \<open>segment_by_window\<close> does.\<close>

theorem join_segments_is_segment_by_window:
  "join_segments key w (sort_key key rows) = segment_by_window key rows w"
proof (cases "sort_key key rows")
  case Nil
  then show ?thesis by (simp add: join_segments_def segment_by_window_def)
next
  case (Cons a rest)
  then show ?thesis
    using segment_loop_join[of "[a]" key "max 1 w" "[]" "key a" rest]
    by (simp add: join_segments_def segment_by_window_def join_step_def)
qed

section \<open>The chosen stages\<close>

definition stage_chosen :: "(corr_row \<Rightarrow> time) \<Rightarrow> corr_row list \<Rightarrow> corr_row chosen \<Rightarrow> seq_stage \<Rightarrow> bool" where
  "stage_chosen ts segment chosen st =
     (let sl = chosen_rows chosen (sg_id st) in
      (sg_required st \<longrightarrow> sl \<noteq> []) \<and>
      (sl \<noteq> [] \<longrightarrow> (\<exists>anchor. sl = select_stage_slice ts segment st anchor \<and>
         (\<forall>aid. sg_required st \<and> sg_after st = Some aid \<longrightarrow>
            chosen_rows chosen aid \<noteq> [] \<and> anchor = Some (last (chosen_rows chosen aid))))))"

lemma stage_chosenD:
  assumes "stage_chosen ts segment chosen st" and "sg_required st"
  obtains anchor where "chosen_rows chosen (sg_id st) = select_stage_slice ts segment st anchor"
    "chosen_rows chosen (sg_id st) \<noteq> []"
    "\<forall>aid. sg_after st = Some aid \<longrightarrow> chosen_rows chosen aid \<noteq> [] \<and> anchor = Some (last (chosen_rows chosen aid))"
  using assms unfolding stage_chosen_def Let_def by blast

lemma chosen_rows_set: "chosen_rows (dict_set c k v) k' = (if k' = k then v else chosen_rows c k')"
  by (simp add: chosen_rows_def)

lemma choose_stages_chosen:
  "choose_stages ts segment chosen sts = Some final \<Longrightarrow> distinct (map sg_id sts) \<Longrightarrow>
   (\<forall>st \<in> set sts. chosen_rows chosen (sg_id st) = []) \<Longrightarrow>
   (\<forall>k. chosen_rows chosen k \<noteq> [] \<longrightarrow> chosen_rows final k = chosen_rows chosen k) \<and>
   (\<forall>k. k \<notin> sg_id ` set sts \<longrightarrow> chosen_rows final k = chosen_rows chosen k) \<and>
   (\<forall>st \<in> set sts. stage_chosen ts segment final st)"
proof (induction sts arbitrary: chosen)
  case (Cons st sts)
  define prior where "prior = (case sg_after st of None \<Rightarrow> [] | Some aid \<Rightarrow> chosen_rows chosen aid)"
  define anchor where "anchor = (if prior = [] then None else Some (last prior))"
  define sl where "sl = select_stage_slice ts segment st anchor"
  have run: "choose_stages ts segment chosen (st # sts) =
     (if sg_after st \<noteq> None \<and> prior = [] \<and> sg_required st then None
      else if sl = [] then (if sg_required st then None else choose_stages ts segment chosen sts)
      else choose_stages ts segment (dict_set chosen (sg_id st) sl) sts)"
    unfolding prior_def anchor_def sl_def choose_stages.simps Let_def by (rule refl)
  have go: "\<not> (sg_after st \<noteq> None \<and> prior = [] \<and> sg_required st)"
    using Cons.prems(1) unfolding run by (metis option.distinct(1))
  have dis: "distinct (map sg_id sts)" "sg_id st \<notin> sg_id ` set sts" using Cons.prems(2) by auto
  show ?case
  proof (cases "sl = []")
    case True
    with Cons.prems(1) go have nreq: "\<not> sg_required st" and r: "choose_stages ts segment chosen sts = Some final"
      unfolding run by (auto split: if_splits)
    have fresh: "\<forall>st \<in> set sts. chosen_rows chosen (sg_id st) = []" using Cons.prems(3) by simp
    note IH = Cons.IH[OF r dis(1) fresh]
    have "chosen_rows final (sg_id st) = []" using IH dis(2) Cons.prems(3) by simp
    then have "stage_chosen ts segment final st" using nreq by (simp add: stage_chosen_def)
    with IH show ?thesis by auto
  next
    case False
    with Cons.prems(1) go have r: "choose_stages ts segment (dict_set chosen (sg_id st) sl) sts = Some final"
      unfolding run by (auto split: if_splits)
    have fresh: "\<forall>st' \<in> set sts. chosen_rows (dict_set chosen (sg_id st) sl) (sg_id st') = []"
      using Cons.prems(3) dis(2) by (auto simp: chosen_rows_set image_iff)
    note IH = Cons.IH[OF r dis(1) fresh]
    have st: "chosen_rows final (sg_id st) = sl" using IH False by (simp add: chosen_rows_set)
    have keep: "chosen_rows final k = chosen_rows chosen k" if "chosen_rows chosen k \<noteq> []" for k
      using IH that Cons.prems(3) by (auto simp: chosen_rows_set split: if_splits)
    have "stage_chosen ts segment final st"
      unfolding stage_chosen_def Let_def st
    proof (intro conjI impI exI[of _ anchor] allI)
      show "sl = select_stage_slice ts segment st anchor" by (simp add: sl_def)
    next
      fix aid assume a: "sg_required st \<and> sg_after st = Some aid"
      with go have "prior \<noteq> []" by auto
      moreover have "prior = chosen_rows chosen aid" using a by (simp add: prior_def)
      ultimately show "chosen_rows final aid \<noteq> []" and "anchor = Some (last (chosen_rows final aid))"
        using keep by (auto simp: anchor_def)
    qed (use False in simp)
    moreover have "chosen_rows final k = chosen_rows chosen k" if "k \<notin> sg_id ` set (st # sts)" for k
      using IH that by (auto simp: chosen_rows_set)
    ultimately show ?thesis using IH keep by auto
  qed
qed simp

lemma match_segments_last:
  "match_segments ts stages segs =
     last_or None (map (\<lambda>seg. map_option (\<lambda>c. (c, stage_hits_of seg stages)) (choose_stages ts seg [] stages))
       (filter (\<lambda>seg. choose_stages ts seg [] stages \<notin> {None, Some []}) segs))"
  by (induction segs rule: rev_induct)
    (auto simp: match_segments_def split: option.splits)

lemma match_segments_SomeD:
  "match_segments ts stages segs = Some (chosen, hits) \<Longrightarrow>
   \<exists>seg \<in> set segs. choose_stages ts seg [] stages = Some chosen \<and> chosen \<noteq> [] \<and> hits = stage_hits_of seg stages"
  by (induction segs arbitrary: chosen hits rule: rev_induct)
    (auto simp: match_segments_def split: option.splits if_splits)

lemma sequence_build_mem:
  assumes "sequence_build c now rule ds lim = Inr ms" and "m \<in> set ms"
    and "normalize_stages c (rule_window rule 600) 0 None (cr_stages rule) = Inr stages"
  obtains k rows seg chosen where
    "rows = filter (\<lambda>r. resolve_entity rule r ''alerts'' ds = k) (sequence_alerts rule ds)"
    "seg \<in> set (segment_by_window (row_ts now ''alerts'') rows (rule_window rule 600))"
    "choose_stages (row_ts now ''alerts'') seg [] stages = Some chosen" "chosen \<noteq> []"
    "m = sequence_match c now rule ds lim stages k chosen (stage_hits_of seg stages)"
proof -
  let ?ts = "row_ts now ''alerts''"
  let ?segs = "\<lambda>rows. segment_by_window ?ts rows (rule_window rule 600)"
  have ne: "cr_stages rule \<noteq> []" using assms(1,2) by (auto simp: sequence_build_def)
  then have ms: "ms = concat (map (\<lambda>(k, rows). case match_segments ?ts stages (?segs rows) of
            None \<Rightarrow> []
          | Some (chosen, hits) \<Rightarrow> [sequence_match c now rule ds lim stages k chosen hits])
          (group_records rule ds ''alerts'' (sequence_alerts rule ds)))"
    using assms(1,3) by (simp add: sequence_build_def)
  obtain k rows where g: "(k, rows) \<in> set (group_records rule ds ''alerts'' (sequence_alerts rule ds))"
    and m: "m \<in> set (case match_segments ?ts stages (?segs rows) of None \<Rightarrow> []
          | Some (chosen, hits) \<Rightarrow> [sequence_match c now rule ds lim stages k chosen hits])"
    using assms(2) unfolding ms concat_groups_mem prod.case by blast
  obtain chosen hits where ch: "match_segments ?ts stages (?segs rows) = Some (chosen, hits)"
    and mm: "m = sequence_match c now rule ds lim stages k chosen hits"
    using m by (cases "match_segments ?ts stages (?segs rows)") auto
  obtain seg where seg: "seg \<in> set (?segs rows)" "choose_stages ?ts seg [] stages = Some chosen" "chosen \<noteq> []"
    "hits = stage_hits_of seg stages"
    using match_segments_SomeD[OF ch] by blast
  have rows: "rows = filter (\<lambda>r. resolve_entity rule r ''alerts'' ds = k) (sequence_alerts rule ds)"
    using g unfolding group_records_mem by blast
  show thesis by (rule that[OF rows seg(1-3)]) (use mm seg(4) in simp)
qed

lemma select_stage_slice_rows:
  assumes "a \<in> set (select_stage_slice ts rows st anchor)"
  shows "a \<in> set rows \<and> alert_matches_stage a st \<and>
    (\<forall>p. anchor = Some p \<longrightarrow> ts p \<le> ts a \<and> (\<forall>w. sg_within st = Some w \<longrightarrow> within w (ts p) (ts a)))"
proof -
  let ?c = "filter (\<lambda>r. alert_matches_stage r st \<and> after_anchor ts (map_option ts anchor) (sg_within st) r) rows"
  have n: "0 < nat (max 1 (sg_min_count st))" by simp
  have fs: "first_slice ts (nat (max 1 (sg_min_count st))) (sg_maxspan st) ?c = [] \<or>
      (\<exists>i. first_slice ts (nat (max 1 (sg_min_count st))) (sg_maxspan st) ?c = take (nat (max 1 (sg_min_count st))) (drop i ?c))"
    using first_slice_cases[OF n, of ts "sg_maxspan st" ?c] by blast
  have "set (first_slice ts (nat (max 1 (sg_min_count st))) (sg_maxspan st) ?c) \<subseteq> set ?c"
    using fs by (elim disjE exE) (use in_set_takeD in_set_dropD in \<open>fastforce simp del: set_filter\<close>)+
  then have "a \<in> set ?c"
    using assms unfolding select_stage_slice_def by blast
  then show ?thesis by (auto simp: after_anchor_def)
qed

lemma select_stage_slice_length:
  "select_stage_slice ts rows st anchor \<noteq> [] \<Longrightarrow>
   length (select_stage_slice ts rows st anchor) = nat (max 1 (sg_min_count st))"
proof -
  let ?n = "nat (max 1 (sg_min_count st))"
  let ?c = "filter (\<lambda>r. alert_matches_stage r st \<and> after_anchor ts (map_option ts anchor) (sg_within st) r) rows"
  assume ne: "select_stage_slice ts rows st anchor \<noteq> []"
  have n: "0 < ?n" by simp
  obtain i where i: "slice_fits ts ?n (sg_maxspan st) ?c i" "select_stage_slice ts rows st anchor = take ?n (drop i ?c)"
    using ne first_slice_cases[OF n, of ts "sg_maxspan st" ?c] unfolding select_stage_slice_def by blast
  have "i + ?n \<le> length ?c" using i(1) unfolding slice_fits_def by blast
  then show ?thesis unfolding i(2) length_take length_drop by linarith
qed

lemma sequence_match_key [simp]: "match_key (sequence_match c now rule ds lim stages k chosen hits) = k"
  by (cases k) (simp add: sequence_match_def base_match_def match_key_def Let_def)


text \<open>Of several segments that satisfy all stages the sequence engine reports the last, the temporal
  join the first.\<close>

theorem satisfied_segment_choice:
  "match_segments ts stages segs =
     last_or None (map (\<lambda>seg. map_option (\<lambda>c. (c, stage_hits_of seg stages)) (choose_stages ts seg [] stages))
       (filter (\<lambda>seg. choose_stages ts seg [] stages \<notin> {None, Some []}) segs)) \<and>
   map_option fst (match_join now srcs fam_map fams jsegs) =
     (case filter (\<lambda>seg. choose_families now srcs (per_family_rows now srcs fam_map seg) [] fams \<notin> {None, Some []}) jsegs of
        [] \<Rightarrow> None | seg # _ \<Rightarrow> choose_families now srcs (per_family_rows now srcs fam_map seg) [] fams)"
proof
  show "map_option fst (match_join now srcs fam_map fams jsegs) =
     (case filter (\<lambda>seg. choose_families now srcs (per_family_rows now srcs fam_map seg) [] fams \<notin> {None, Some []}) jsegs of
        [] \<Rightarrow> None | seg # _ \<Rightarrow> choose_families now srcs (per_family_rows now srcs fam_map seg) [] fams)"
    by (induction jsegs) (auto simp: Let_def split: option.splits)
qed (rule match_segments_last)

section \<open>A concrete sequence\<close>

definition demo_seq_rule :: correlation_rule where
  "demo_seq_rule = (demo_rule 600 2)\<lparr>cr_stages :=
     [[(''name'', PStr ''a''), (''patterns'', PList [PStr ''a''])],
      [(''name'', PStr ''b''), (''patterns'', PList [PStr ''b''])]]\<rparr>"

definition demo_chain :: correlation_dataset where
  "demo_chain = demo_dataset\<lparr>ds_alerts := [demo_alert 1 0 ''a'', demo_alert 2 1000000 ''b'']\<rparr>"

definition demo_stage :: "string \<Rightarrow> string \<Rightarrow> string option \<Rightarrow> seq_stage" where
  "demo_stage i n aft =
     \<lparr>sg_id = i, sg_name = n, sg_include = [i], sg_exclude = [], sg_min_count = 1, sg_after = aft,
      sg_within = Some 600, sg_required = True, sg_maxspan = Some 600\<rparr>"

lemma demo_seq_stages:
  "normalize_stages False 600 0 None (cr_stages demo_seq_rule) =
     Inr [demo_stage ''a'' ''a'' None, demo_stage ''b'' ''b'' (Some ''a'')]"
  by (simp add: demo_seq_rule_def demo_stage_def normalize_stage_def stage_id_def entry_id_def entry_name_def
      norm_patterns_of_def norm_patterns_def pget_def dict_get_def int_or_def str_or_def py_or_def iter_or_def
      text_or_none_def none_if_zero_def opt_pystr_def or_text_def py_defs Let_def)

lemma demo_rule_id: "row_get (RAlert (demo_alert i t rid)) ''rule_id'' = PStr rid"
  by (simp add: row_get_def pget_def dict_get_def alert_attrs_def demo_alert_def)


theorem select_stage_slice_first_witness:
  "length (select_stage_slice (row_ts 0 ''alerts'')
     [RAlert (demo_alert 1 0 ''a''), RAlert (demo_alert 2 1000000 ''b'')] (demo_stage ''a'' ''a'' None) None) = 1"
proof -
  let ?rows = "[RAlert (demo_alert 1 0 ''a''), RAlert (demo_alert 2 1000000 ''b'')]"
  let ?st = "demo_stage ''a'' ''a'' None"
  let ?sl = "select_stage_slice (row_ts 0 ''alerts'') ?rows ?st None"
  have m: "alert_matches_stage (RAlert (demo_alert 1 0 ''a'')) ?st" "\<not> alert_matches_stage (RAlert (demo_alert 2 1000000 ''b'')) ?st"
    by (simp_all add: alert_matches_stage_def demo_stage_def demo_rule_id passes_filter_def match_any_def
        fnmatchcase_def py_defs)
  have n: "nat (max 1 (sg_min_count ?st)) = 1" by (simp add: demo_stage_def)
  have fits: "slice_fits (row_ts 0 ''alerts'') 1 (sg_maxspan ?st)
      (filter (\<lambda>r. alert_matches_stage r ?st \<and> after_anchor (row_ts 0 ''alerts'') None (sg_within ?st) r) ?rows) 0"
    using m by (simp add: slice_fits_def after_anchor_def within_def demo_stage_def)
  show ?thesis
    using select_stage_slice_first[of ?st "row_ts 0 ''alerts''" None ?rows] fits
    unfolding Let_def n option.map by blast
qed

end
