(* ===== verification/Detection_Fields.thy ===== *)
theory Detection_Fields
  imports Py_Runtime
begin

text \<open>
  Fields, operators and value checks of detection rules
  (\<open>features/detections/domain/{validation,operators,canonical_fields}.py\<close> and
  \<open>rules/registry.py\<close>): the canonical field names and the event columns or JSON paths behind them,
  the operator suffixes of version 1 match keys, and the normal form of a version 1 match.

  Numbers: \<open>ensure_number\<close> goes through \<open>float\<close>. Integers and texts that are integer literals are
  rounded as \<open>float\<close> rounds them; for the other float literals the model stops with a mark of its own.
\<close>

section \<open>Errors and checks\<close>

text \<open>
  \<open>PyValueError\<close> is a bare \<open>ValueError\<close>, as of \<open>int()\<close> on more than 4300 digits. \<open>FloatOutsideModel\<close>
  is no exception of the code: it marks the inputs whose number is not an integer value.
\<close>

datatype detection_error = RuleValidationError string | PyValueError string | FloatOutsideModel string

definition ensure_mapping :: "pyval \<Rightarrow> string \<Rightarrow> detection_error + (string \<times> pyval) list" where
  "ensure_mapping v field_name =
     (case v of PDict d \<Rightarrow> Inr d | _ \<Rightarrow> Inl (RuleValidationError (field_name @ '' must be a mapping'')))"

definition ensure_non_empty_string :: "pyval \<Rightarrow> string \<Rightarrow> detection_error + string" where
  "ensure_non_empty_string v field_name =
     (let t = py_strip (str_or v []) in
      if t = [] then Inl (RuleValidationError (field_name @ '' must be a non-empty string'')) else Inr t)"

definition normalize_string_list :: "pyval \<Rightarrow> string list" where
  "normalize_string_list v =
     (case v of
        PStr s \<Rightarrow> filter (\<lambda>t. t \<noteq> []) [py_strip s]
      | PList xs \<Rightarrow> filter (\<lambda>t. t \<noteq> []) (map (\<lambda>item. py_strip (str_or item [])) xs)
      | _ \<Rightarrow> [])"

definition supported_field_operators :: "string list" where
  "supported_field_operators =
     [''eq'', ''neq'', ''gt'', ''gte'', ''lt'', ''lte'', ''in'', ''not_in'', ''contains'', ''contains_all'',
      ''not_contains'', ''startswith'', ''endswith'', ''exists'', ''not_exists'']"

definition supported_threshold_operators :: "string list" where
  "supported_threshold_operators = [''>='', ''>'', ''<='', ''<'', ''=='', ''!='']"

definition or_default :: "string \<Rightarrow> string \<Rightarrow> string" where
  "or_default s d = (if s = [] then d else s)"

definition ensure_field_operator :: "string \<Rightarrow> detection_error + string" where
  "ensure_field_operator operator =
     (let op = or_default (py_strip (or_default operator ''eq'')) ''eq'' in
      if op \<in> set supported_field_operators then Inr op
      else Inl (RuleValidationError (''Unsupported field operator: '' @ op)))"

definition ensure_threshold_operator :: "string \<Rightarrow> detection_error + string" where
  "ensure_threshold_operator operator =
     (let op = or_default (py_strip (or_default operator ''>='')) ''>='' in
      if op \<in> set supported_threshold_operators then Inr op
      else Inl (RuleValidationError (''Unsupported threshold operator: '' @ op)))"

definition ensure_value_in_set :: "pyval \<Rightarrow> string \<Rightarrow> string list \<Rightarrow> detection_error + string" where
  "ensure_value_in_set v field_name supported =
     (let normalized = py_lower (py_strip (str_or v [])) in
      if normalized \<noteq> [] \<and> normalized \<notin> set supported
      then Inl (RuleValidationError (''Unsupported '' @ field_name @ '': '' @ py_str v))
      else Inr normalized)"

definition ensure_boolean :: "pyval \<Rightarrow> string \<Rightarrow> detection_error + bool" where
  "ensure_boolean v field_name =
     (case v of PBool b \<Rightarrow> Inr b | _ \<Rightarrow> Inl (RuleValidationError (field_name @ '' must be a boolean'')))"

definition ensure_sequence :: "pyval \<Rightarrow> string \<Rightarrow> bool \<Rightarrow> detection_error + pyval list" where
  "ensure_sequence v field_name allow_scalar =
     (case v of
        PList xs \<Rightarrow> Inr xs
      | _ \<Rightarrow> if allow_scalar then Inr [v] else Inl (RuleValidationError (field_name @ '' must be a list'')))"

text \<open>
  \<open>float(v)\<close>: an integer value, a float outside the model (a text with a fraction or an exponent,
  an infinity, a NaN), or an exception. The texts are those of Python's float grammar: an
  underscore only between two digits, a mantissa with a digit, an optional exponent.
\<close>

datatype float_result = FloatIs int | FloatOutside | NotAFloat

fun underscores_ok :: "bool \<Rightarrow> string \<Rightarrow> bool" where
  "underscores_ok after_digit [] = True"
| "underscores_ok after_digit (c # cs) =
     (if c = CHR ''_'' then after_digit \<and> cs \<noteq> [] \<and> is_ascii_digit (hd cs) \<and> underscores_ok False cs
      else underscores_ok (is_ascii_digit c) cs)"

definition unsigned :: "string \<Rightarrow> string" where
  "unsigned s = (if s \<noteq> [] \<and> (hd s = CHR ''+'' \<or> hd s = CHR ''-'') then tl s else s)"

definition is_mantissa :: "string \<Rightarrow> bool" where
  "is_mantissa s =
     (let whole = takeWhile is_ascii_digit s; rest = dropWhile is_ascii_digit s in
      if rest = [] then whole \<noteq> []
      else hd rest = CHR ''.'' \<and> list_all is_ascii_digit (tl rest) \<and> whole @ tl rest \<noteq> [])"

definition is_float_literal :: "string \<Rightarrow> bool" where
  "is_float_literal s =
     (let t = unsigned (py_lower (py_strip s));
          u = filter (\<lambda>c. c \<noteq> CHR ''_'') t;
          m = takeWhile (\<lambda>c. c \<noteq> CHR ''e'') u;
          e = dropWhile (\<lambda>c. c \<noteq> CHR ''e'') u
      in t \<in> set [''inf'', ''infinity'', ''nan''] \<or>
         underscores_ok False t \<and> is_mantissa m \<and>
         (e = [] \<or> unsigned (tl e) \<noteq> [] \<and> list_all is_ascii_digit (unsigned (tl e))))"

definition py_float :: "pyval \<Rightarrow> float_result" where
  "py_float v =
     (case v of
        PInt i \<Rightarrow> (case float_of_int i of Some j \<Rightarrow> FloatIs j | None \<Rightarrow> NotAFloat)
      | PBool b \<Rightarrow> FloatIs (if b then 1 else 0)
      | PStr s \<Rightarrow>
          (case py_int s of
             Some i \<Rightarrow> (case float_of_int i of Some j \<Rightarrow> FloatIs j | None \<Rightarrow> FloatOutside)
           | None \<Rightarrow> if is_float_literal s then FloatOutside else NotAFloat)
      | _ \<Rightarrow> NotAFloat)"

text \<open>
  The callers modelled here give no bounds, so \<open>minimum\<close> and \<open>maximum\<close> are \<open>None\<close>. Where the number
  is not an integer value the model stops with \<open>FloatOutsideModel\<close>.
\<close>

definition ensure_number :: "pyval \<Rightarrow> string \<Rightarrow> detection_error + int" where
  "ensure_number v field_name =
     (case v of
        PBool _ \<Rightarrow> Inl (RuleValidationError (field_name @ '' must be numeric''))
      | PNone \<Rightarrow> Inl (RuleValidationError (field_name @ '' must be numeric''))
      | _ \<Rightarrow>
          (case py_float v of
             FloatIs i \<Rightarrow> Inr i
           | FloatOutside \<Rightarrow> Inl (FloatOutsideModel (py_str v))
           | NotAFloat \<Rightarrow> Inl (RuleValidationError (field_name @ '' must be numeric''))))"

section \<open>Operator suffixes\<close>

definition operator_suffixes :: "(string \<times> string) list" where
  "operator_suffixes =
     [(''_not_exists'', ''not_exists''), (''_exists'', ''exists''), (''_not_contains'', ''not_contains''),
      (''_contains_all'', ''contains_all''), (''_contains'', ''contains''), (''_startswith'', ''startswith''),
      (''_endswith'', ''endswith''), (''_not_in'', ''not_in''), (''_in'', ''in''), (''_gte'', ''gte''),
      (''_gt'', ''gt''), (''_lte'', ''lte''), (''_lt'', ''lt''), (''_neq'', ''neq'')]"

definition py_endswith :: "string \<Rightarrow> string \<Rightarrow> bool" where
  "py_endswith s p = (length p \<le> length s \<and> drop (length s - length p) s = p)"

definition drop_suffix :: "string \<Rightarrow> string \<Rightarrow> string" where
  "drop_suffix s p = take (length s - length p) s"

fun split_by :: "(string \<times> string) list \<Rightarrow> string \<Rightarrow> (string \<times> string) option" where
  "split_by [] key = None"
| "split_by ((sfx, op) # table) key =
     (if py_endswith key sfx then Some (drop_suffix key sfx, op) else split_by table key)"

definition split_operator_suffix :: "string \<Rightarrow> string \<times> string" where
  "split_operator_suffix raw_key =
     (let key = py_strip raw_key in
      case split_by operator_suffixes key of Some r \<Rightarrow> r | None \<Rightarrow> (key, ''eq''))"

text \<open>The inverse table maps an operator to its suffix.\<close>

definition operator_to_suffix :: "(string \<times> string) list" where
  "operator_to_suffix = map (\<lambda>(sfx, op). (op, sfx)) operator_suffixes"

definition join_operator_suffix :: "string \<Rightarrow> string \<Rightarrow> detection_error + string" where
  "join_operator_suffix field_name operator =
     (let op = or_default (py_strip (or_default operator ''eq'')) ''eq'' in
      if op = ''eq'' then Inr field_name
      else case dict_get operator_to_suffix op of
        None \<Rightarrow> Inl (PyValueError (''Unsupported field operator: '' @ op))
      | Some sfx \<Rightarrow> Inr (field_name @ sfx))"

section \<open>Canonical fields\<close>

record canonical_field_spec =
  cf_canonical_name :: string
  cf_model_attr :: string
  cf_storage_kind :: string
  cf_jsonb_path :: "string list"

definition column_field :: "string \<Rightarrow> string \<Rightarrow> string \<times> canonical_field_spec" where
  "column_field name attr =
     (name, \<lparr>cf_canonical_name = name, cf_model_attr = attr, cf_storage_kind = ''column'', cf_jsonb_path = []\<rparr>)"

definition jsonb_field :: "string \<Rightarrow> string list \<Rightarrow> string \<times> canonical_field_spec" where
  "jsonb_field name path =
     (name, \<lparr>cf_canonical_name = name, cf_model_attr = ''extra'', cf_storage_kind = ''jsonb'', cf_jsonb_path = path\<rparr>)"

definition canonical_field_map :: "(string \<times> canonical_field_spec) list" where
  "canonical_field_map =
     [column_field ''agent.id'' ''agent_id'', column_field ''event.type'' ''event_type'',
      column_field ''event.timestamp'' ''timestamp'', column_field ''source.ip'' ''src_ip'',
      column_field ''source.port'' ''src_port'', column_field ''destination.ip'' ''dst_ip'',
      column_field ''destination.port'' ''dst_port'', column_field ''network.transport'' ''proto'',
      column_field ''network.bytes'' ''bytes'', column_field ''network.protocol'' ''app_proto'',
      column_field ''network.protocol.reason'' ''app_proto_reason'',
      column_field ''network.protocol.confidence_band'' ''app_proto_conf_band'',
      column_field ''dns.question.name'' ''dns_qname'', column_field ''http.request.host'' ''http_host'',
      column_field ''http.request.method'' ''http_method'', column_field ''tls.server_name'' ''tls_sni'',
      column_field ''tls.alpn.first'' ''tls_alpn_first'', column_field ''tls.ja3'' ''ja3'',
      column_field ''tls.ja4'' ''ja4'', column_field ''tls.ja4.ptype'' ''ja4_ptype'',
      column_field ''ssh.action'' ''ssh_action'', column_field ''user.name'' ''ssh_username'',
      column_field ''process.pid'' ''proc_pid'', column_field ''process.parent.pid'' ''proc_ppid'',
      column_field ''process.name'' ''proc_name'', column_field ''process.executable'' ''proc_exe'',
      column_field ''process.parent.name'' ''proc_parent_name'', column_field ''file.path'' ''fim_path'',
      column_field ''file.category'' ''fim_category'', column_field ''threat.heuristic.name'' ''heuristic_name'',
      column_field ''threat.heuristic.confidence'' ''heuristic_confidence'',
      jsonb_field ''ssh.auth.source'' [''source''], jsonb_field ''ssh.auth.action'' [''action''],
      jsonb_field ''process.command_line'' [''command''], jsonb_field ''process.user.name'' [''username''],
      jsonb_field ''process.user.target'' [''target_user''], jsonb_field ''process.working_dir'' [''working_dir''],
      jsonb_field ''file.hash.sha256'' [''sha256''], jsonb_field ''network.flow.direction'' [''flow_direction'']]"

definition resolve_canonical_field :: "string \<Rightarrow> canonical_field_spec option" where
  "resolve_canonical_field field_name = dict_get canonical_field_map (py_strip field_name)"

definition canonical_field_names :: "string list" where
  "canonical_field_names = sort (map fst canonical_field_map)"

section \<open>The registry\<close>

definition supported_runtime_event_fields :: "string list" where
  "supported_runtime_event_fields =
     [''agent_id'', ''event_type'', ''timestamp'', ''src_ip'', ''src_port'', ''dst_ip'', ''dst_port'', ''proto'',
      ''bytes'', ''app_proto'', ''app_proto_reason'', ''app_proto_conf_band'', ''dns_qname'', ''http_host'',
      ''http_method'', ''tls_sni'', ''tls_alpn_first'', ''ja3'', ''ja4'', ''ja4_ptype'', ''ssh_action'',
      ''ssh_username'', ''proc_pid'', ''proc_ppid'', ''proc_name'', ''proc_exe'', ''proc_parent_name'',
      ''fim_path'', ''fim_category'', ''heuristic_name'', ''heuristic_confidence'']"

definition runtime_field_name :: "canonical_field_spec \<Rightarrow> string" where
  "runtime_field_name spec =
     (if cf_storage_kind spec = ''jsonb'' then py_join ''_'' (cf_jsonb_path spec) else cf_model_attr spec)"

definition jsonb_runtime_paths :: "(string \<times> string list) list" where
  "jsonb_runtime_paths =
     foldl (\<lambda>m (name, spec). if cf_storage_kind spec = ''jsonb''
        then dict_set m (runtime_field_name spec) (cf_jsonb_path spec) else m) [] canonical_field_map"

definition is_legacy_extra_match_key :: "string \<Rightarrow> bool" where
  "is_legacy_extra_match_key raw_key = py_startswith (py_strip raw_key) ''extra_''"

definition resolve_runtime_field :: "string \<Rightarrow> detection_error + string" where
  "resolve_runtime_field field_name =
     (let key = py_strip field_name in
      if key = [] then Inl (RuleValidationError ''Field name cannot be empty'')
      else if key \<in> set supported_runtime_event_fields then Inr key
      else case dict_get canonical_field_map key of
        Some spec \<Rightarrow> Inr (runtime_field_name spec)
      | None \<Rightarrow>
          if dict_get jsonb_runtime_paths key \<noteq> None then Inr key
          else Inl (RuleValidationError (''Unsupported detection field: '' @ key)))"

text \<open>The JSON path of a runtime or canonical field that is stored in \<open>extra\<close>.\<close>

definition resolve_runtime_jsonb_accessor :: "string \<Rightarrow> string list option" where
  "resolve_runtime_jsonb_accessor field_name =
     (let key = py_strip field_name;
          path = (case dict_get jsonb_runtime_paths key of
              Some p \<Rightarrow> Some p
            | None \<Rightarrow> (case dict_get canonical_field_map key of
                  Some spec \<Rightarrow> if cf_storage_kind spec = ''jsonb'' then Some (cf_jsonb_path spec) else None
                | None \<Rightarrow> None))
      in case path of Some (p # ps) \<Rightarrow> Some (p # ps) | _ \<Rightarrow> None)"

fun normalize_match_loop :: "(string \<times> pyval) list \<Rightarrow> (string \<times> pyval) list \<Rightarrow> detection_error + (string \<times> pyval) list" where
  "normalize_match_loop normalized [] = Inr normalized"
| "normalize_match_loop normalized ((raw_key, v) # rest) =
     (let key = py_strip raw_key in
      if key = [] then Inl (RuleValidationError ''match contains an empty field name'')
      else if is_legacy_extra_match_key key then normalize_match_loop (dict_set normalized key v) rest
      else case split_operator_suffix key of (base_field, operator) \<Rightarrow>
        ebind (ensure_field_operator operator) (\<lambda>_.
        ebind (resolve_runtime_field base_field) (\<lambda>runtime_field.
        ebind (join_operator_suffix runtime_field operator) (\<lambda>normalized_key.
          normalize_match_loop (dict_set normalized normalized_key v) rest))))"

definition normalize_match_fields :: "pyval \<Rightarrow> detection_error + (string \<times> pyval) list" where
  "normalize_match_fields m =
     (case m of
        PNone \<Rightarrow> Inr []
      | PDict d \<Rightarrow> normalize_match_loop [] d
      | _ \<Rightarrow> Inl (RuleValidationError ''match must be a mapping''))"

text \<open>\<open>Some v\<close> of the result is a field or a list of fields; \<open>PNone\<close> when there is no \<open>group_by\<close>.\<close>

definition normalize_group_by_fields :: "pyval \<Rightarrow> detection_error + pyval" where
  "normalize_group_by_fields g =
     (case g of
        PNone \<Rightarrow> Inr PNone
      | PStr s \<Rightarrow> ebind (resolve_runtime_field s) (\<lambda>f. Inr (PStr f))
      | PList xs \<Rightarrow> ebind (emap (\<lambda>x. resolve_runtime_field (str_or x [])) xs) (\<lambda>fs. Inr (PList (map PStr fs)))
      | _ \<Rightarrow> Inl (RuleValidationError ''group_by must be a string or list of strings''))"

text \<open>\<open>_validate_v1_match\<close> of \<open>rules/validator.py\<close>.\<close>

definition validate_v1_match :: "string \<Rightarrow> pyval \<Rightarrow> detection_error + unit" where
  "validate_v1_match rule_id m =
     ebind (normalize_match_fields m) (\<lambda>normalized.
     ebind (emap (\<lambda>(key, v).
       if is_legacy_extra_match_key key then Inr ()
       else let base_field = fst (split_operator_suffix key) in
         if base_field \<in> set supported_runtime_event_fields then Inr ()
         else Inl (RuleValidationError (''Unsupported match field for rule '' @ rule_id @ '': '' @ base_field)))
       normalized) (\<lambda>_. Inr ()))"

end
