(* ===== verification/Detection_Condition.thy ===== *)
theory Detection_Condition
  imports Detection_Fields
begin

text \<open>
  The condition language of version 2 detection rules
  (\<open>features/detections/domain/condition_ast.py\<close>, \<open>shared/detection_rules/condition_ast.py\<close>):
  selections of predicates, and an expression over them with \<open>and\<close>, \<open>or\<close>, \<open>not\<close>, parentheses and
  "n of pattern". Tokenizer, recursive-descent parser and the binding of names.

  The parser takes fuel; \<open>condition_fuel\<close> is enough (\<open>condition_parse_no_divergence\<close>), so the
  whole is total. Python's recursion limit is not modelled.
\<close>

section \<open>Data\<close>

record field_predicate =
  fp_field :: string
  fp_operator :: string
  fp_value :: pyval
  fp_source_key :: "string option"
  fp_runtime_field :: "string option"

record detection_selection =
  ds_name :: string
  ds_predicates :: "field_predicate list"

datatype quantifier = QAll | QCount int

datatype condition_expr =
    SelectionReference string
  | PatternReference string quantifier "string list"
  | UnaryExpression string condition_expr
  | BinaryExpression string condition_expr condition_expr

record detection_condition =
  dc_raw :: string
  dc_expression :: condition_expr

record detection_block =
  db_selections :: "detection_selection list"
  db_condition :: detection_condition

section \<open>Selections\<close>

definition is_ident_start :: "char \<Rightarrow> bool" where
  "is_ident_start c = (is_ascii_alpha c \<or> c = CHR ''_'')"

definition is_name_char :: "char \<Rightarrow> bool" where
  "is_name_char c = (is_ident_start c \<or> is_ascii_digit c)"

text \<open>\<open>_SELECTION_NAME_RE\<close>.\<close>

definition selection_name_ok :: "string \<Rightarrow> bool" where
  "selection_name_ok s = (s \<noteq> [] \<and> is_ident_start (hd s) \<and> list_all is_name_char (tl s))"

definition reserved_selection_names :: "string list" where
  "reserved_selection_names = [''and'', ''or'', ''not'', ''all'', ''of'', ''condition'']"

definition parse_selection_name :: "string \<Rightarrow> detection_error + string" where
  "parse_selection_name name =
     ebind (ensure_non_empty_string (PStr name) ''selection name'') (\<lambda>t.
       if py_lower t \<in> set reserved_selection_names \<or> \<not> selection_name_ok t
       then Inl (RuleValidationError (''Invalid selection name: '' @ t)) else Inr t)"

text \<open>\<open>key.rsplit("|", 1)\<close>: \<open>None\<close> when there is no bar.\<close>

definition rsplit_bar :: "string \<Rightarrow> (string \<times> string) option" where
  "rsplit_bar key =
     (if CHR ''|'' \<notin> set key then None
      else let after = rev (takeWhile (\<lambda>c. c \<noteq> CHR ''|'') (rev key))
           in Some (take (length key - length after - 1) key, after))"

definition parse_predicate_key :: "string \<Rightarrow> detection_error + (string \<times> string)" where
  "parse_predicate_key raw_key =
     ebind (ensure_non_empty_string (PStr raw_key) ''predicate key'') (\<lambda>key.
       case rsplit_bar key of
         None \<Rightarrow> Inr (key, ''eq'')
       | Some (f, op) \<Rightarrow>
           ebind (ensure_non_empty_string (PStr f) ''predicate field'') (\<lambda>field_name.
           ebind (ensure_field_operator op) (\<lambda>operator. Inr (field_name, operator))))"

definition normalize_exists_value :: "string \<Rightarrow> pyval \<Rightarrow> string \<Rightarrow> detection_error + (string \<times> pyval)" where
  "normalize_exists_value operator v field_name =
     ebind (ensure_boolean v field_name) (\<lambda>exists.
       if operator = ''exists'' then Inr (if exists then ''exists'' else ''not_exists'', PBool True)
       else Inr (if exists then ''not_exists'' else ''exists'', PBool True))"

definition must_not_be_empty :: "string \<Rightarrow> detection_error + 'a" where
  "must_not_be_empty field_name = Inl (RuleValidationError (field_name @ '' must not be empty''))"

definition must_not_be_mapping :: "string \<Rightarrow> detection_error + 'a" where
  "must_not_be_mapping field_name = Inl (RuleValidationError (field_name @ '' must not be a mapping''))"

definition normalize_predicate_value :: "string \<Rightarrow> pyval \<Rightarrow> string \<Rightarrow> detection_error + (string \<times> pyval)" where
  "normalize_predicate_value operator v field_name =
     (if operator \<in> set [''exists'', ''not_exists''] then normalize_exists_value operator v field_name
      else if operator \<in> set [''gt'', ''gte'', ''lt'', ''lte''] then
        ebind (ensure_number v field_name) (\<lambda>i. Inr (operator, PInt i))
      else if operator \<in> set [''in'', ''not_in''] then
        ebind (ensure_sequence v field_name True) (\<lambda>items.
          if items = [] then must_not_be_empty field_name else Inr (operator, PList items))
      else if operator = ''contains_all'' then
        ebind (ensure_sequence v field_name True) (\<lambda>xs.
          let items = normalize_string_list (PList xs) in
          if items = [] then must_not_be_empty field_name else Inr (operator, PList (map PStr items)))
      else if operator \<in> set [''contains'', ''not_contains'', ''startswith'', ''endswith''] then
        (case v of
           PList xs \<Rightarrow>
             (let items = normalize_string_list v in
              if items = [] then must_not_be_empty field_name
              else Inr (operator, if length items > 1 then PList (map PStr items) else PStr (hd items)))
         | _ \<Rightarrow> ebind (ensure_non_empty_string v field_name) (\<lambda>s. Inr (operator, PStr s)))
      else (case v of
              PDict _ \<Rightarrow> must_not_be_mapping field_name
            | _ \<Rightarrow> Inr (operator, v)))"

definition parse_predicate :: "string \<Rightarrow> string \<times> pyval \<Rightarrow> detection_error + field_predicate" where
  "parse_predicate selection_name kv =
     ebind (ensure_non_empty_string (PStr (fst kv)) (''detection.'' @ selection_name @ '' predicate'')) (\<lambda>source_key.
     ebind (parse_predicate_key source_key) (\<lambda>(field_name, operator).
     ebind (resolve_runtime_field field_name) (\<lambda>runtime_field.
     ebind (normalize_predicate_value operator (snd kv) (''detection.'' @ selection_name @ ''.'' @ source_key)) (\<lambda>(op, v).
       Inr \<lparr>fp_field = field_name, fp_operator = op, fp_value = v, fp_source_key = Some source_key,
         fp_runtime_field = Some runtime_field\<rparr>))))"

definition parse_selection_mapping :: "string \<Rightarrow> pyval \<Rightarrow> detection_error + detection_selection" where
  "parse_selection_mapping raw_name selection =
     ebind (parse_selection_name raw_name) (\<lambda>selection_name.
     ebind (ensure_mapping selection (''detection.'' @ selection_name)) (\<lambda>m.
     ebind (emap (parse_predicate selection_name) m) (\<lambda>predicates.
       if predicates = []
       then Inl (RuleValidationError (''detection.'' @ selection_name @ '' must define at least one predicate''))
       else Inr \<lparr>ds_name = selection_name, ds_predicates = predicates\<rparr>)))"

section \<open>Tokenizer\<close>

definition is_token_char :: "char \<Rightarrow> bool" where
  "is_token_char c = (is_name_char c \<or> c = CHR ''*'')"

text \<open>
  One match of \<open>_CONDITION_TOKEN_RE\<close>: blanks, then a parenthesis, digits, or a word that may hold
  stars after its first character; the token and the text behind it.
\<close>

definition match_token :: "string \<Rightarrow> (string \<times> string) option" where
  "match_token s =
     (case dropWhile py_isspace s of
        [] \<Rightarrow> None
      | c # cs \<Rightarrow>
          if c = CHR ''('' \<or> c = CHR '')'' then Some ([c], cs)
          else if is_ascii_digit c then Some (c # takeWhile is_ascii_digit cs, dropWhile is_ascii_digit cs)
          else if is_ident_start c then Some (c # takeWhile is_token_char cs, dropWhile is_token_char cs)
          else None)"

lemma match_token_shorter: "match_token s = Some (t, rest) \<Longrightarrow> length rest < length s"
proof -
  assume m: "match_token s = Some (t, rest)"
  obtain c cs where d: "dropWhile py_isspace s = c # cs"
    using m by (cases "dropWhile py_isspace s") (auto simp: match_token_def)
  have "length rest \<le> length cs"
    using m d by (auto simp: match_token_def length_dropWhile_le split: if_splits)
  moreover have "length (c # cs) \<le> length s" using length_dropWhile_le[of py_isspace s] d by simp
  ultimately show ?thesis by simp
qed

function token_loop :: "string list \<Rightarrow> string \<Rightarrow> detection_error + string list" where
  "token_loop tokens s =
     (if s = [] then Inr tokens
      else case match_token s of
        None \<Rightarrow> Inl (RuleValidationError (''Invalid condition syntax near: '' @ or_default (py_strip s) s))
      | Some (t, rest) \<Rightarrow> token_loop (tokens @ [t]) rest)"
  by pat_completeness auto
termination
  by (relation "measure (\<lambda>(tokens, s). length s)") (auto dest: match_token_shorter)

declare token_loop.simps [simp del]

definition tokenize_condition :: "string \<Rightarrow> detection_error + string list" where
  "tokenize_condition raw_expression =
     ebind (ensure_non_empty_string (PStr raw_expression) ''detection.condition'') (\<lambda>e. token_loop [] (py_strip e))"

section \<open>Parser\<close>

text \<open>The state of \<open>_ConditionParser\<close> is the list of tokens from \<open>_index\<close> on.\<close>

definition peek_lower :: "string list \<Rightarrow> string" where
  "peek_lower ts = (case ts of [] \<Rightarrow> [] | t # _ \<Rightarrow> py_lower t)"

definition ended :: "(detection_error, 'a) outcome" where
  "ended = Raise (RuleValidationError ''Condition expression ended unexpectedly'')"

definition consume :: "string list \<Rightarrow> (detection_error, string \<times> string list) outcome" where
  "consume ts = (case ts of [] \<Rightarrow> ended | t # rest \<Rightarrow> Return (t, rest))"

definition is_number :: "string \<Rightarrow> bool" where
  "is_number t = (t \<noteq> [] \<and> list_all is_ascii_digit t)"

definition parse_pattern_reference :: "string list \<Rightarrow> (detection_error, condition_expr \<times> string list) outcome" where
  "parse_pattern_reference ts =
     obind (consume ts) (\<lambda>(t, ts1).
     obind (if py_lower t = ''all'' then Return QAll
            else case py_int t of
              Some i \<Rightarrow> Return (QCount i)
            | None \<Rightarrow> Raise (PyValueError t)) (\<lambda>q.
       if peek_lower ts1 \<noteq> ''of'' then Raise (RuleValidationError (''Expected '' @ sq @ ''of'' @ sq @ '' in condition expression''))
       else obind (consume (tl ts1)) (\<lambda>(pattern, ts2).
         if pattern = ''('' \<or> pattern = '')''
         then Raise (RuleValidationError (''Expected a selection pattern after '' @ sq @ ''of'' @ sq))
         else Return (PatternReference pattern q [], ts2))))"

type_synonym cparse = "(detection_error, condition_expr \<times> string list) outcome"

definition KEYWORD_OR :: string where "KEYWORD_OR = ''or''"
definition KEYWORD_AND :: string where "KEYWORD_AND = ''and''"
definition KEYWORD_NOT :: string where "KEYWORD_NOT = ''not''"
definition TOKEN_OPEN :: string where "TOKEN_OPEN = ''(''"

text \<open>The end of a parenthesised expression, and the branches of \<open>_parse_primary\<close> below it.\<close>

definition close_paren :: "condition_expr \<Rightarrow> string list \<Rightarrow> cparse" where
  "close_paren e ts =
     obind (consume ts) (\<lambda>(closing, rest).
       if closing \<noteq> '')'' then Raise (RuleValidationError ''Condition expression is missing a closing parenthesis'')
       else Return (e, rest))"

definition c_atom :: "string list \<Rightarrow> cparse" where
  "c_atom ts =
     (let t = hd ts in
      if is_number t \<or> py_lower t = ''all'' then parse_pattern_reference ts
      else if py_lower t \<in> set [''and'', ''or'', ''not'', ''of'']
      then Raise (RuleValidationError (''Unexpected token in condition: '' @ t))
      else Return (SelectionReference t, tl ts))"

function (sequential) c_or :: "nat \<Rightarrow> string list \<Rightarrow> cparse"
  and c_or_loop :: "nat \<Rightarrow> condition_expr \<Rightarrow> string list \<Rightarrow> cparse"
  and c_and :: "nat \<Rightarrow> string list \<Rightarrow> cparse"
  and c_and_loop :: "nat \<Rightarrow> condition_expr \<Rightarrow> string list \<Rightarrow> cparse"
  and c_unary :: "nat \<Rightarrow> string list \<Rightarrow> cparse"
  and c_primary :: "nat \<Rightarrow> string list \<Rightarrow> cparse" where
  "c_or 0 ts = Diverge"
| "c_or (Suc fuel) ts = obind (c_and fuel ts) (\<lambda>(l, ts1). c_or_loop fuel l ts1)"
| "c_or_loop 0 l ts = Diverge"
| "c_or_loop (Suc fuel) l ts =
     (if peek_lower ts = KEYWORD_OR
      then obind (c_and fuel (tl ts)) (\<lambda>(r, ts1). c_or_loop fuel (BinaryExpression KEYWORD_OR l r) ts1)
      else Return (l, ts))"
| "c_and 0 ts = Diverge"
| "c_and (Suc fuel) ts = obind (c_unary fuel ts) (\<lambda>(l, ts1). c_and_loop fuel l ts1)"
| "c_and_loop 0 l ts = Diverge"
| "c_and_loop (Suc fuel) l ts =
     (if peek_lower ts = KEYWORD_AND
      then obind (c_unary fuel (tl ts)) (\<lambda>(r, ts1). c_and_loop fuel (BinaryExpression KEYWORD_AND l r) ts1)
      else Return (l, ts))"
| "c_unary 0 ts = Diverge"
| "c_unary (Suc fuel) ts =
     (if peek_lower ts = KEYWORD_NOT
      then obind (c_unary fuel (tl ts)) (\<lambda>(e, ts1). Return (UnaryExpression KEYWORD_NOT e, ts1))
      else c_primary fuel ts)"
| "c_primary 0 ts = Diverge"
| "c_primary (Suc fuel) ts =
     (if ts = [] then ended
      else if hd ts = TOKEN_OPEN then
        obind (c_or fuel (tl ts)) (\<lambda>(e, ts1). close_paren e ts1)
      else c_atom ts)"
  by pat_completeness auto
termination
  by (relation "measure (case_sum (case_sum fst (case_sum fst fst)) (case_sum fst (case_sum fst fst)))") auto

definition condition_fuel :: "string list \<Rightarrow> nat" where
  "condition_fuel tokens = 4 * length tokens + 4"

definition condition_parse :: "string list \<Rightarrow> (detection_error, condition_expr) outcome" where
  "condition_parse tokens =
     obind (c_or (condition_fuel tokens) tokens) (\<lambda>(e, ts).
       case ts of
         [] \<Rightarrow> Return e
       | t # _ \<Rightarrow> Raise (RuleValidationError (''Unexpected token in condition: '' @ t)))"

section \<open>Binding\<close>

fun bind_condition_references :: "string list \<Rightarrow> condition_expr \<Rightarrow> detection_error + condition_expr" where
  "bind_condition_references names (SelectionReference n) =
     (if n \<notin> set names then Inl (RuleValidationError (''Unknown selection in condition: '' @ n))
      else Inr (SelectionReference n))"
| "bind_condition_references names (PatternReference pattern q ms) =
     (let matches = sort (filter (\<lambda>n. fnmatchcase n pattern) names) in
      if matches = [] then Inl (RuleValidationError (''Condition pattern matches no selections: '' @ pattern))
      else case q of
        QAll \<Rightarrow> Inr (PatternReference pattern q matches)
      | QCount k \<Rightarrow>
          if k \<le> 0 then Inl (RuleValidationError ''Condition count must be greater than zero'')
          else if k > int (length matches)
          then Inl (RuleValidationError (''Condition requires '' @ int_str k @ '' selections but pattern '' @ pattern @
                 '' matched '' @ nat_str (length matches)))
          else Inr (PatternReference pattern q matches))"
| "bind_condition_references names (UnaryExpression op e) =
     ebind (bind_condition_references names e) (\<lambda>e'. Inr (UnaryExpression op e'))"
| "bind_condition_references names (BinaryExpression op l r) =
     ebind (bind_condition_references names l) (\<lambda>l'.
     ebind (bind_condition_references names r) (\<lambda>r'. Inr (BinaryExpression op l' r')))"

definition parse_condition_expression ::
  "string \<Rightarrow> string list \<Rightarrow> (detection_error, detection_condition) outcome" where
  "parse_condition_expression raw_expression selection_names =
     (if selection_names = []
      then Raise (RuleValidationError ''Detection condition requires at least one selection'')
      else obind (of_sum (tokenize_condition raw_expression)) (\<lambda>tokens.
        obind (condition_parse tokens) (\<lambda>parsed.
        obind (of_sum (bind_condition_references selection_names parsed)) (\<lambda>bound.
          Return \<lparr>dc_raw = raw_expression, dc_expression = bound\<rparr>))))"

definition parse_detection_block :: "pyval \<Rightarrow> (detection_error, detection_block) outcome" where
  "parse_detection_block detection =
     obind (of_sum (ensure_mapping detection ''detection'')) (\<lambda>m.
     obind (of_sum (emap (\<lambda>(k, v). parse_selection_mapping k v) (filter (\<lambda>kv. fst kv \<noteq> ''condition'') m))) (\<lambda>selections.
       if selections = [] then Raise (RuleValidationError ''detection must define at least one selection'')
       else let names = map ds_name selections in
         obind (case pget m ''condition'' of
             PNone \<Rightarrow>
               if length names = 1 then Return (PStr (hd names))
               else Raise (RuleValidationError ''detection.condition is required when multiple selections are defined'')
           | v \<Rightarrow> Return v) (\<lambda>raw_condition.
         obind (parse_condition_expression (py_str raw_condition) names) (\<lambda>condition.
           Return \<lparr>db_selections = selections, db_condition = condition\<rparr>))))"

section \<open>The parser is total\<close>

lemma peek_lower_tl': "peek_lower ts = c # cs \<Longrightarrow> length (tl ts) < length ts"
  by (cases ts) (auto simp: peek_lower_def)

lemma peek_lower_tl:
  "peek_lower ts = KEYWORD_OR \<Longrightarrow> length (tl ts) < length ts"
  "peek_lower ts = KEYWORD_AND \<Longrightarrow> length (tl ts) < length ts"
  "peek_lower ts = KEYWORD_NOT \<Longrightarrow> length (tl ts) < length ts"
  by (cases ts; simp add: peek_lower_def KEYWORD_OR_def KEYWORD_AND_def KEYWORD_NOT_def)+

lemma consume_shorter: "consume ts = Return (t, rest) \<Longrightarrow> length rest < length ts"
  by (cases ts) (auto simp: consume_def ended_def)

lemma consume_total [simp]: "consume ts \<noteq> Diverge"
  by (cases ts) (auto simp: consume_def ended_def)

lemma pattern_reference_shorter:
  "parse_pattern_reference ts = Return (e, ts') \<Longrightarrow> length ts' < length ts"
  by (cases ts; cases "tl ts"; cases "tl (tl ts)")
    (auto simp: parse_pattern_reference_def consume_def ended_def bind_simps split: if_splits option.splits)

lemma pattern_reference_total: "parse_pattern_reference ts \<noteq> Diverge"
  by (auto simp: parse_pattern_reference_def obind_Diverge_iff split: if_splits option.splits)

lemma close_paren_shorter: "close_paren e ts = Return (e', ts') \<Longrightarrow> length ts' < length ts"
  by (auto simp: close_paren_def bind_simps dest!: consume_shorter split: if_splits)

lemma close_paren_total [simp]: "close_paren e ts \<noteq> Diverge"
  by (auto simp: close_paren_def obind_Diverge_iff split: if_splits)

lemma c_atom_shorter: "ts \<noteq> [] \<Longrightarrow> c_atom ts = Return (e, ts') \<Longrightarrow> length ts' < length ts"
  using pattern_reference_shorter[of ts e ts']
  by (cases ts) (simp_all add: c_atom_def Let_def split: if_splits)

lemma c_atom_total [simp]: "c_atom ts \<noteq> Diverge"
  by (simp add: c_atom_def Let_def pattern_reference_total)

lemma c_shorter:
  "(\<forall>ts e ts'. c_or fuel ts = Return (e, ts') \<longrightarrow> length ts' < length ts) \<and>
   (\<forall>l ts e ts'. c_or_loop fuel l ts = Return (e, ts') \<longrightarrow> length ts' \<le> length ts) \<and>
   (\<forall>ts e ts'. c_and fuel ts = Return (e, ts') \<longrightarrow> length ts' < length ts) \<and>
   (\<forall>l ts e ts'. c_and_loop fuel l ts = Return (e, ts') \<longrightarrow> length ts' \<le> length ts) \<and>
   (\<forall>ts e ts'. c_unary fuel ts = Return (e, ts') \<longrightarrow> length ts' < length ts) \<and>
   (\<forall>ts e ts'. c_primary fuel ts = Return (e, ts') \<longrightarrow> length ts' < length ts)"
proof (induction fuel)
  case (Suc fuel)
  then have IH:
    "\<And>ts e ts'. c_or fuel ts = Return (e, ts') \<Longrightarrow> length ts' < length ts"
    "\<And>l ts e ts'. c_or_loop fuel l ts = Return (e, ts') \<Longrightarrow> length ts' \<le> length ts"
    "\<And>ts e ts'. c_and fuel ts = Return (e, ts') \<Longrightarrow> length ts' < length ts"
    "\<And>l ts e ts'. c_and_loop fuel l ts = Return (e, ts') \<Longrightarrow> length ts' \<le> length ts"
    "\<And>ts e ts'. c_unary fuel ts = Return (e, ts') \<Longrightarrow> length ts' < length ts"
    "\<And>ts e ts'. c_primary fuel ts = Return (e, ts') \<Longrightarrow> length ts' < length ts"
    by blast+
  have tl: "length (tl ts) \<le> length ts" for ts :: "string list" by simp
  have primary: "length ts' < length ts" if "c_primary (Suc fuel) ts = Return (e, ts')" for ts e ts'
  proof (cases "ts \<noteq> [] \<and> hd ts = TOKEN_OPEN")
    case True
    with that obtain e1 ts1 where o: "c_or fuel (tl ts) = Return (e1, ts1)" and c: "close_paren e1 ts1 = Return (e, ts')"
      by (auto simp: bind_simps)
    show ?thesis using IH(1)[OF o] close_paren_shorter[OF c] tl[of ts] by linarith
  next
    case False
    with that c_atom_shorter[of ts e ts'] show ?thesis by (auto simp: ended_def split: if_splits)
  qed
  have unary: "length ts' < length ts" if "c_unary (Suc fuel) ts = Return (e, ts')" for ts e ts'
    using that by (auto simp: bind_simps dest!: IH(5,6) peek_lower_tl split: if_splits)
  have and_loop: "length ts' \<le> length ts" if "c_and_loop (Suc fuel) l ts = Return (e, ts')" for l ts e ts'
    using that by (auto simp: bind_simps dest!: IH(4,5) peek_lower_tl split: if_splits)
  have or_loop: "length ts' \<le> length ts" if "c_or_loop (Suc fuel) l ts = Return (e, ts')" for l ts e ts'
    using that by (auto simp: bind_simps dest!: IH(2,3) peek_lower_tl split: if_splits)
  have cand: "length ts' < length ts" if "c_and (Suc fuel) ts = Return (e, ts')" for ts e ts'
    using that by (auto simp: bind_simps dest!: IH(4,5))
  have cor: "length ts' < length ts" if "c_or (Suc fuel) ts = Return (e, ts')" for ts e ts'
    using that by (auto simp: bind_simps dest!: IH(2,3))
  show ?case using primary unary and_loop or_loop cand cor by blast
qed simp

lemma c_total:
  "(\<forall>ts. 4 * length ts + 4 \<le> fuel \<longrightarrow> c_or fuel ts \<noteq> Diverge) \<and>
   (\<forall>l ts. 4 * length ts + 4 \<le> fuel \<longrightarrow> c_or_loop fuel l ts \<noteq> Diverge) \<and>
   (\<forall>ts. 4 * length ts + 3 \<le> fuel \<longrightarrow> c_and fuel ts \<noteq> Diverge) \<and>
   (\<forall>l ts. 4 * length ts + 3 \<le> fuel \<longrightarrow> c_and_loop fuel l ts \<noteq> Diverge) \<and>
   (\<forall>ts. 4 * length ts + 2 \<le> fuel \<longrightarrow> c_unary fuel ts \<noteq> Diverge) \<and>
   (\<forall>ts. 4 * length ts + 1 \<le> fuel \<longrightarrow> c_primary fuel ts \<noteq> Diverge)"
proof (induction fuel)
  case (Suc fuel)
  then have IH:
    "\<And>ts. 4 * length ts + 4 \<le> fuel \<Longrightarrow> c_or fuel ts \<noteq> Diverge"
    "\<And>l ts. 4 * length ts + 4 \<le> fuel \<Longrightarrow> c_or_loop fuel l ts \<noteq> Diverge"
    "\<And>ts. 4 * length ts + 3 \<le> fuel \<Longrightarrow> c_and fuel ts \<noteq> Diverge"
    "\<And>l ts. 4 * length ts + 3 \<le> fuel \<Longrightarrow> c_and_loop fuel l ts \<noteq> Diverge"
    "\<And>ts. 4 * length ts + 2 \<le> fuel \<Longrightarrow> c_unary fuel ts \<noteq> Diverge"
    "\<And>ts. 4 * length ts + 1 \<le> fuel \<Longrightarrow> c_primary fuel ts \<noteq> Diverge"
    by blast+
  have lt: "\<And>ts e ts'. c_and fuel ts = Return (e, ts') \<Longrightarrow> length ts' < length ts"
    "\<And>ts e ts'. c_unary fuel ts = Return (e, ts') \<Longrightarrow> length ts' < length ts"
    using c_shorter[of fuel] by blast+
  have cor: "c_or (Suc fuel) ts \<noteq> Diverge" if "4 * length ts + 4 \<le> Suc fuel" for ts
    using that IH(3)[of ts] by (auto simp: obind_Diverge_iff dest!: lt(1) IH(2)[THEN notE, rotated])
  have cand: "c_and (Suc fuel) ts \<noteq> Diverge" if "4 * length ts + 3 \<le> Suc fuel" for ts
    using that IH(5)[of ts] by (auto simp: obind_Diverge_iff dest!: lt(2) IH(4)[THEN notE, rotated])
  have orl: "c_or_loop (Suc fuel) l ts \<noteq> Diverge" if "4 * length ts + 4 \<le> Suc fuel" for l ts
    using that IH(3)[of "tl ts"] peek_lower_tl[of ts]
    by (auto simp: obind_Diverge_iff dest!: lt(1) IH(2)[THEN notE, rotated] split: if_splits)
  have andl: "c_and_loop (Suc fuel) l ts \<noteq> Diverge" if "4 * length ts + 3 \<le> Suc fuel" for l ts
    using that IH(5)[of "tl ts"] peek_lower_tl[of ts]
    by (auto simp: obind_Diverge_iff dest!: lt(2) IH(4)[THEN notE, rotated] split: if_splits)
  have un: "c_unary (Suc fuel) ts \<noteq> Diverge" if "4 * length ts + 2 \<le> Suc fuel" for ts
    using that IH(5)[of "tl ts"] IH(6)[of ts] peek_lower_tl[of ts]
    by (auto simp: obind_Diverge_iff split: if_splits)
  have prim: "c_primary (Suc fuel) ts \<noteq> Diverge" if "4 * length ts + 1 \<le> Suc fuel" for ts
    using that IH(1)[of "tl ts"]
    by (cases ts) (auto simp: ended_def obind_Diverge_iff split: if_splits)
  show ?case using cor cand orl andl un prim by blast
qed simp

lemma condition_parse_no_divergence: "condition_parse tokens \<noteq> Diverge"
  using c_total[of "condition_fuel tokens"]
  by (auto simp: condition_parse_def condition_fuel_def obind_Diverge_iff split: list.splits)

text \<open>Parsing a detection block always ends: with a block or with an error.\<close>

theorem detection_block_total: "parse_detection_block detection \<noteq> Diverge"
  by (auto simp: parse_detection_block_def parse_condition_expression_def obind_Diverge_iff
      condition_parse_no_divergence Let_def split: if_splits pyval.splits)

section \<open>What a parsed block is\<close>

fun operators_ok :: "condition_expr \<Rightarrow> bool" where
  "operators_ok (BinaryExpression op l r) = ((op = ''and'' \<or> op = ''or'') \<and> operators_ok l \<and> operators_ok r)"
| "operators_ok (UnaryExpression op e) = (op = ''not'' \<and> operators_ok e)"
| "operators_ok _ = True"

lemma pattern_reference_operators: "parse_pattern_reference ts = Return (e, ts') \<Longrightarrow> operators_ok e"
  by (auto simp: parse_pattern_reference_def bind_simps split: if_splits option.splits)

lemma c_atom_operators: "c_atom ts = Return (e, ts') \<Longrightarrow> operators_ok e"
  using pattern_reference_operators[of ts e ts'] by (auto simp: c_atom_def Let_def split: if_splits)

lemma close_paren_expr: "close_paren e ts = Return (e', ts') \<Longrightarrow> e' = e"
  by (auto simp: close_paren_def bind_simps split: if_splits)

lemma c_operators:
  "(\<forall>ts e ts'. c_or fuel ts = Return (e, ts') \<longrightarrow> operators_ok e) \<and>
   (\<forall>l ts e ts'. c_or_loop fuel l ts = Return (e, ts') \<longrightarrow> operators_ok l \<longrightarrow> operators_ok e) \<and>
   (\<forall>ts e ts'. c_and fuel ts = Return (e, ts') \<longrightarrow> operators_ok e) \<and>
   (\<forall>l ts e ts'. c_and_loop fuel l ts = Return (e, ts') \<longrightarrow> operators_ok l \<longrightarrow> operators_ok e) \<and>
   (\<forall>ts e ts'. c_unary fuel ts = Return (e, ts') \<longrightarrow> operators_ok e) \<and>
   (\<forall>ts e ts'. c_primary fuel ts = Return (e, ts') \<longrightarrow> operators_ok e)"
proof (induction fuel)
  case (Suc fuel)
  then have IH:
    "\<And>ts e ts'. c_or fuel ts = Return (e, ts') \<Longrightarrow> operators_ok e"
    "\<And>l ts e ts'. c_or_loop fuel l ts = Return (e, ts') \<Longrightarrow> operators_ok l \<Longrightarrow> operators_ok e"
    "\<And>ts e ts'. c_and fuel ts = Return (e, ts') \<Longrightarrow> operators_ok e"
    "\<And>l ts e ts'. c_and_loop fuel l ts = Return (e, ts') \<Longrightarrow> operators_ok l \<Longrightarrow> operators_ok e"
    "\<And>ts e ts'. c_unary fuel ts = Return (e, ts') \<Longrightarrow> operators_ok e"
    "\<And>ts e ts'. c_primary fuel ts = Return (e, ts') \<Longrightarrow> operators_ok e"
    by blast+
  have primary: "operators_ok e" if "c_primary (Suc fuel) ts = Return (e, ts')" for ts e ts'
    using that by (auto simp: bind_simps ended_def dest: IH(1) c_atom_operators dest!: close_paren_expr split: if_splits)
  have unary: "operators_ok e" if "c_unary (Suc fuel) ts = Return (e, ts')" for ts e ts'
    using that by (auto simp: bind_simps KEYWORD_NOT_def dest: IH(5,6) split: if_splits)
  have and_loop: "operators_ok e" if "c_and_loop (Suc fuel) l ts = Return (e, ts')" "operators_ok l" for l ts e ts'
    using that by (auto simp: bind_simps KEYWORD_AND_def dest!: IH(4) IH(5) split: if_splits)
  have or_loop: "operators_ok e" if "c_or_loop (Suc fuel) l ts = Return (e, ts')" "operators_ok l" for l ts e ts'
    using that by (auto simp: bind_simps KEYWORD_OR_def dest!: IH(2) IH(3) split: if_splits)
  have cand: "operators_ok e" if "c_and (Suc fuel) ts = Return (e, ts')" for ts e ts'
    using that by (auto simp: bind_simps dest!: IH(4) dest: IH(5))
  have cor: "operators_ok e" if "c_or (Suc fuel) ts = Return (e, ts')" for ts e ts'
    using that by (auto simp: bind_simps dest!: IH(2) dest: IH(3))
  show ?case using primary unary and_loop or_loop cand cor by blast
qed simp

lemma condition_parse_operators:
  assumes "condition_parse ts = Return e"
  shows "operators_ok e"
proof -
  obtain a where c: "c_or (condition_fuel ts) ts = Return a"
    and r: "(case a of (e', ts') \<Rightarrow> case ts' of [] \<Rightarrow> Return e' | t # _ \<Rightarrow>
      Raise (RuleValidationError (''Unexpected token in condition: '' @ t))) = Return e"
    using assms unfolding condition_parse_def bind_simps by blast
  from r have "fst a = e" by (cases a; cases "snd a") auto
  with c c_operators[of "condition_fuel ts"] show ?thesis by (metis prod.collapse)
qed

text \<open>A bound expression: known names, and the pattern's matches in order with a count they can meet.\<close>

fun bound_wf :: "string list \<Rightarrow> condition_expr \<Rightarrow> bool" where
  "bound_wf names (SelectionReference n) = (n \<in> set names)"
| "bound_wf names (PatternReference pattern q ms) =
     (ms = sort (filter (\<lambda>n. fnmatchcase n pattern) names) \<and> ms \<noteq> [] \<and>
      (case q of QAll \<Rightarrow> True | QCount k \<Rightarrow> 1 \<le> k \<and> k \<le> int (length ms)))"
| "bound_wf names (UnaryExpression op e) = (op = ''not'' \<and> bound_wf names e)"
| "bound_wf names (BinaryExpression op l r) =
     ((op = ''and'' \<or> op = ''or'') \<and> bound_wf names l \<and> bound_wf names r)"

lemma bind_bound_wf:
  "bind_condition_references names e = Inr e' \<Longrightarrow> operators_ok e \<Longrightarrow> bound_wf names e'"
proof (induction e arbitrary: e')
  case (PatternReference pattern q ms)
  then show ?case by (cases q) (auto simp: Let_def split: if_splits)
qed (auto simp: bind_simps split: if_splits)

lemma parse_condition_bound:
  "parse_condition_expression raw names = Return c \<Longrightarrow> bound_wf names (dc_expression c)"
  by (auto simp: parse_condition_expression_def bind_simps split: if_splits
      intro: bind_bound_wf condition_parse_operators)

definition parsed_selection :: "detection_selection \<Rightarrow> bool" where
  "parsed_selection sel =
     (\<exists>raw v. parse_selection_mapping raw v = Inr sel)"

lemma parse_detection_block_cases:
  assumes "parse_detection_block d = Return b"
  shows "db_selections b \<noteq> []" "list_all parsed_selection (db_selections b)"
    "bound_wf (map ds_name (db_selections b)) (dc_expression (db_condition b))"
proof -
  obtain m sels raw c where
    s: "emap (\<lambda>(k, v). parse_selection_mapping k v) (filter (\<lambda>kv. fst kv \<noteq> ''condition'') m) = Inr sels"
    and ne: "sels \<noteq> []"
    and c: "parse_condition_expression raw (map ds_name sels) = Return c"
    and b: "b = \<lparr>db_selections = sels, db_condition = c\<rparr>"
    using assms unfolding parse_detection_block_def bind_simps Let_def of_sum_simps
    by (auto simp: bind_simps split: if_splits)
  have "list_all2 (\<lambda>x y. (case x of (k, v) \<Rightarrow> parse_selection_mapping k v) = Inr y)
     (filter (\<lambda>kv. fst kv \<noteq> ''condition'') m) sels"
    using s by (simp add: emap_Inr_iff)
  then have "list_all parsed_selection sels"
    by (auto simp: list_all2_conv_all_nth list_all_length parsed_selection_def split: prod.splits)
      (metis prod.collapse)
  with ne parse_condition_bound[OF c] b
  show "db_selections b \<noteq> []" "list_all parsed_selection (db_selections b)"
    "bound_wf (map ds_name (db_selections b)) (dc_expression (db_condition b))"
    by simp_all
qed

end
