(* ===== verification/Detection_Sql.thy ===== *)
theory Detection_Sql
  imports Detection_Condition
begin

text \<open>
  From a detection block to the filters of one SQL query
  (\<open>features/detections/rules/compiler.py\<close>), and what the filters select.

  A filter is the tree the code builds with SQLAlchemy. \<open>sql_eval\<close> reads a tree in SQL's three-valued
  logic, \<open>None\<close> for unknown. What the database does with one comparison or \<open>LIKE\<close> of values that are
  not null is not code of the repository: it is the parameter \<open>sql_ops\<close>, and the theorems hold for
  every choice of it.
\<close>

section \<open>Filters\<close>

text \<open>
  A column of an event, a text under a path of its JSON column (\<open>extra[a][b].astext\<close>), a text under a
  raw key of it (\<open>extra ->> key\<close>), and the lower case or the float cast of one of these.
\<close>

datatype sql_col = EventColumn string | JsonPath "string list" | JsonText string
  | LowerOf sql_col | CastFloat sql_col

text \<open>\<open>SNone\<close> is Python's \<open>None\<close> where the code could hand one on.\<close>

datatype sql_expr =
    SCompare string sql_col pyval
  | SIsNull sql_col
  | SIsNotNull sql_col
  | SIn sql_col "pyval list"
  | SLike sql_col string
  | SNumericText sql_col
  | SNot sql_expr
  | SAnd "sql_expr list"
  | SOr "sql_expr list"
  | SCountAtLeast "sql_expr list" int
  | SNone

text \<open>\<open>col == v\<close> and \<open>col != v\<close> of SQLAlchemy: with \<open>None\<close> they are null tests.\<close>

definition sql_eq :: "sql_col \<Rightarrow> pyval \<Rightarrow> sql_expr" where
  "sql_eq col v = (if v = PNone then SIsNull col else SCompare ''=='' col v)"

definition sql_neq :: "sql_col \<Rightarrow> pyval \<Rightarrow> sql_expr" where
  "sql_neq col v = (if v = PNone then SIsNotNull col else SCompare ''!='' col v)"

section \<open>Three-valued meaning\<close>

record sql_ops =
  so_compare :: "string \<Rightarrow> pyval \<Rightarrow> pyval \<Rightarrow> bool"
  so_like :: "pyval \<Rightarrow> string \<Rightarrow> bool"
  so_lower :: "pyval \<Rightarrow> pyval"
  so_float :: "pyval \<Rightarrow> pyval"
  so_numeric :: "pyval \<Rightarrow> bool"

text \<open>A row gives every base column a value, \<open>None\<close> for null.\<close>

type_synonym sql_row = "sql_col \<Rightarrow> pyval option"

fun col_value :: "sql_ops \<Rightarrow> sql_row \<Rightarrow> sql_col \<Rightarrow> pyval option" where
  "col_value ops row (LowerOf c) = map_option (so_lower ops) (col_value ops row c)"
| "col_value ops row (CastFloat c) = map_option (so_float ops) (col_value ops row c)"
| "col_value ops row c = row c"

definition k_not :: "bool option \<Rightarrow> bool option" where
  "k_not = map_option Not"

definition k_and :: "bool option list \<Rightarrow> bool option" where
  "k_and xs = (if Some False \<in> set xs then Some False else if None \<in> set xs then None else Some True)"

definition k_or :: "bool option list \<Rightarrow> bool option" where
  "k_or xs = (if Some True \<in> set xs then Some True else if None \<in> set xs then None else Some False)"

text \<open>\<open>col IN (v, ...)\<close> is a disjunction of equalities; a null in the list makes its equality unknown.\<close>

fun sql_eval :: "sql_ops \<Rightarrow> sql_row \<Rightarrow> sql_expr \<Rightarrow> bool option" where
  "sql_eval ops row (SCompare op c v) = map_option (\<lambda>x. so_compare ops op x v) (col_value ops row c)"
| "sql_eval ops row (SIsNull c) = Some (col_value ops row c = None)"
| "sql_eval ops row (SIsNotNull c) = Some (col_value ops row c \<noteq> None)"
| "sql_eval ops row (SIn c vs) =
     k_or (map (\<lambda>v. case col_value ops row c of None \<Rightarrow> None
                    | Some x \<Rightarrow> if v = PNone then None else Some (so_compare ops ''=='' x v)) vs)"
| "sql_eval ops row (SLike c p) = map_option (\<lambda>x. so_like ops x p) (col_value ops row c)"
| "sql_eval ops row (SNumericText c) = map_option (so_numeric ops) (col_value ops row c)"
| "sql_eval ops row (SNot e) = k_not (sql_eval ops row e)"
| "sql_eval ops row (SAnd es) = k_and (map (sql_eval ops row) es)"
| "sql_eval ops row (SOr es) = k_or (map (sql_eval ops row) es)"
| "sql_eval ops row (SCountAtLeast es k) =
     Some (int (length (filter (\<lambda>e. sql_eval ops row e = Some True) es)) \<ge> k)"
| "sql_eval ops row SNone = None"

text \<open>A query returns the rows on which all its filters are true.\<close>

definition selects :: "sql_ops \<Rightarrow> sql_expr list \<Rightarrow> sql_row \<Rightarrow> bool" where
  "selects ops filters row = list_all (\<lambda>f. sql_eval ops row f = Some True) filters"

lemma is_True_iff: "x = Some True \<longleftrightarrow> x \<noteq> Some False \<and> x \<noteq> None"
  by (cases x) auto

lemma k_and_True_iff: "k_and xs = Some True \<longleftrightarrow> list_all (\<lambda>x. x = Some True) xs"
  unfolding k_and_def list_all_iff by (auto simp: is_True_iff) (metis option.exhaust)

lemma k_or_True_iff: "k_or xs = Some True \<longleftrightarrow> list_ex (\<lambda>x. x = Some True) xs"
  by (auto simp: k_or_def list_ex_iff)

lemma k_not_True_iff: "k_not x = Some True \<longleftrightarrow> x = Some False"
  by (auto simp: k_not_def)

lemma k_known: "None \<notin> set xs \<Longrightarrow> k_and xs = Some (list_all (\<lambda>x. x = Some True) xs)"
  "None \<notin> set xs \<Longrightarrow> k_or xs = Some (list_ex (\<lambda>x. x = Some True) xs)"
proof -
  assume n: "None \<notin> set xs"
  then have "x = Some True \<longleftrightarrow> x \<noteq> Some False" if "x \<in> set xs" for x
    using that by (cases x) auto
  with n show "k_and xs = Some (list_all (\<lambda>x. x = Some True) xs)"
    unfolding k_and_def list_all_iff by auto
  show "k_or xs = Some (list_ex (\<lambda>x. x = Some True) xs)"
    using n by (auto simp: k_or_def list_ex_iff)
qed

section \<open>The compiler\<close>

text \<open>
  \<open>CValueError\<close> with its message; \<open>CKeyError\<close> is \<open>sel_map[name]\<close> of an unknown name, \<open>CAttributeError\<close>
  is \<open>v.lower()\<close> of an item that is no text. A block that was parsed raises none of them.
\<close>

datatype compile_error = CValueError string | CKeyError string | CAttributeError string

definition listify :: "pyval \<Rightarrow> pyval list" where
  "listify v = (case v of PList xs \<Rightarrow> xs | _ \<Rightarrow> [v])"

text \<open>\<open>func.lower(col).like(...)\<close> of a value around which a wildcard is put.\<close>

definition like_contains :: "sql_col \<Rightarrow> string \<Rightarrow> sql_expr" where
  "like_contains col v = SLike (LowerOf col) (''%'' @ py_lower v @ ''%'')"

definition like_prefix :: "sql_col \<Rightarrow> string \<Rightarrow> sql_expr" where
  "like_prefix col v = SLike (LowerOf col) (py_lower v @ ''%'')"

definition like_suffix :: "sql_col \<Rightarrow> string \<Rightarrow> sql_expr" where
  "like_suffix col v = SLike (LowerOf col) (''%'' @ py_lower v)"

definition like_parts :: "(string \<Rightarrow> sql_expr) \<Rightarrow> pyval \<Rightarrow> compile_error + sql_expr list" where
  "like_parts f v =
     emap (\<lambda>x. case x of PStr s \<Rightarrow> Inr (f s) | _ \<Rightarrow> Inl (CAttributeError ''lower'')) (listify v)"

definition predicate_column :: "field_predicate \<Rightarrow> compile_error + sql_col" where
  "predicate_column pred =
     (case resolve_runtime_jsonb_accessor
         (case fp_runtime_field pred of Some r \<Rightarrow> or_default r (fp_field pred) | None \<Rightarrow> fp_field pred) of
        Some path \<Rightarrow> Inr (JsonPath path)
      | None \<Rightarrow>
          (case fp_runtime_field pred of
             None \<Rightarrow> Inl (CValueError ''Unsupported runtime field in v2 predicate: None'')
           | Some r \<Rightarrow>
               if r \<notin> set supported_runtime_event_fields
               then Inl (CValueError (''Unsupported runtime field in v2 predicate: '' @ r))
               else Inr (EventColumn r)))"

definition predicate_to_sqla :: "field_predicate \<Rightarrow> compile_error + sql_expr" where
  "predicate_to_sqla pred =
     ebind (predicate_column pred) (\<lambda>col.
       let op = fp_operator pred; val = fp_value pred; scalar = PStr (py_str val) in
       if op = ''eq'' then Inr (sql_eq col val)
       else if op = ''neq'' then Inr (sql_neq col val)
       else if op = ''gt'' then Inr (SCompare ''>'' col val)
       else if op = ''gte'' then Inr (SCompare ''>='' col val)
       else if op = ''lt'' then Inr (SCompare ''<'' col val)
       else if op = ''lte'' then Inr (SCompare ''<='' col val)
       else if op = ''in'' then Inr (SIn col (listify val))
       else if op = ''not_in'' then Inr (SOr [SIsNull col, SNot (SIn col (listify val))])
       else if op = ''contains'' then
         (case val of
            PList _ \<Rightarrow> ebind (like_parts (like_contains col) val) (\<lambda>parts. Inr (SOr parts))
          | _ \<Rightarrow> Inr (like_contains col (py_str val)))
       else if op = ''not_contains'' then
         (case val of
            PList _ \<Rightarrow> ebind (like_parts (like_contains col) val) (\<lambda>parts.
              Inr (SOr [SIsNull col, SAnd (map SNot parts)]))
          | _ \<Rightarrow> Inr (SOr [SIsNull col, SNot (like_contains col (py_str val))]))
       else if op = ''contains_all'' then
         ebind (like_parts (like_contains col) val) (\<lambda>parts. Inr (SAnd parts))
       else if op = ''startswith'' then
         (case val of
            PList _ \<Rightarrow> ebind (like_parts (like_prefix col) val) (\<lambda>parts. Inr (SOr parts))
          | _ \<Rightarrow> Inr (like_prefix col (py_str val)))
       else if op = ''endswith'' then
         (case val of
            PList _ \<Rightarrow> ebind (like_parts (like_suffix col) val) (\<lambda>parts. Inr (SOr parts))
          | _ \<Rightarrow> Inr (like_suffix col (py_str val)))
       else if op = ''exists'' then Inr (SIsNotNull col)
       else if op = ''not_exists'' then Inr (SIsNull col)
       else Inr (sql_eq col val))"

definition selection_to_sqla :: "detection_selection \<Rightarrow> compile_error + sql_expr" where
  "selection_to_sqla sel =
     ebind (emap predicate_to_sqla (ds_predicates sel)) (\<lambda>parts.
       if parts = [] then Inr SNone
       else if length parts = 1 then Inr (hd parts)
       else Inr (SAnd parts))"

definition selection_named :: "(string \<times> detection_selection) list \<Rightarrow> string \<Rightarrow> compile_error + sql_expr" where
  "selection_named sel_map name =
     (case dict_get sel_map name of
        None \<Rightarrow> Inl (CKeyError name)
      | Some sel \<Rightarrow> selection_to_sqla sel)"

fun expression_to_sqla :: "(string \<times> detection_selection) list \<Rightarrow> condition_expr \<Rightarrow> compile_error + sql_expr" where
  "expression_to_sqla sel_map (SelectionReference name) = selection_named sel_map name"
| "expression_to_sqla sel_map (BinaryExpression op l r) =
     ebind (expression_to_sqla sel_map l) (\<lambda>l'.
     ebind (expression_to_sqla sel_map r) (\<lambda>r'.
       if op = ''and'' then Inr (SAnd [l', r'])
       else if op = ''or'' then Inr (SOr [l', r'])
       else Inl (CValueError ''Unsupported condition AST node: BinaryExpression'')))"
| "expression_to_sqla sel_map (UnaryExpression op e) =
     (if op = ''not'' then ebind (expression_to_sqla sel_map e) (\<lambda>e'. Inr (SNot e'))
      else Inl (CValueError ''Unsupported condition AST node: UnaryExpression''))"
| "expression_to_sqla sel_map (PatternReference pattern q ms) =
     ebind (emap (selection_named sel_map) ms) (\<lambda>matched.
       if matched = [] then Inr SNone
       else if q = QAll \<or> q = QCount (int (length ms)) then Inr (SAnd matched)
       else if q = QCount 1 then Inr (SOr matched)
       else case q of
         QCount k \<Rightarrow> Inr (SCountAtLeast matched k)
       | QAll \<Rightarrow> Inr (SAnd matched))"

definition selection_map :: "detection_selection list \<Rightarrow> (string \<times> detection_selection) list" where
  "selection_map sels = foldl (\<lambda>m sel. dict_set m (ds_name sel) sel) [] sels"

definition compile_detection_filters :: "detection_block \<Rightarrow> int \<Rightarrow> int \<Rightarrow> compile_error + sql_expr list" where
  "compile_detection_filters detection since until =
     ebind (expression_to_sqla (selection_map (db_selections detection)) (dc_expression (db_condition detection)))
       (\<lambda>expr.
         let filters = [SCompare ''>='' (EventColumn ''timestamp'') (PTime since),
                        SCompare ''<'' (EventColumn ''timestamp'') (PTime until)] in
         Inr (if expr = SNone then filters else filters @ [expr]))"

section \<open>Every parsed block compiles\<close>

text \<open>The values the text operators get from \<open>normalize_predicate_value\<close>.\<close>

definition text_operators :: "string list" where
  "text_operators = [''contains'', ''not_contains'', ''contains_all'', ''startswith'', ''endswith'']"

definition text_value :: "pyval \<Rightarrow> bool" where
  "text_value v = (case v of PStr _ \<Rightarrow> True | PList xs \<Rightarrow> xs \<noteq> [] \<and> list_all (\<lambda>x. \<exists>s. x = PStr s) xs | _ \<Rightarrow> False)"

definition column_of :: "string \<Rightarrow> sql_col option" where
  "column_of r =
     (case resolve_runtime_jsonb_accessor r of
        Some path \<Rightarrow> Some (JsonPath path)
      | None \<Rightarrow> if r \<in> set supported_runtime_event_fields then Some (EventColumn r) else None)"

definition predicate_wf :: "field_predicate \<Rightarrow> bool" where
  "predicate_wf p =
     (\<exists>r. fp_runtime_field p = Some r \<and> r \<noteq> [] \<and> column_of r \<noteq> None \<and>
        (fp_operator p \<in> set text_operators \<longrightarrow> text_value (fp_value p)) \<and>
        fp_operator p \<in> set supported_field_operators)"

lemma jsonb_runtime_paths_eq [code]: "jsonb_runtime_paths =
    [(''source'', [''source'']), (''action'', [''action'']), (''command'', [''command'']),
     (''username'', [''username'']), (''target_user'', [''target_user'']), (''working_dir'', [''working_dir'']),
     (''sha256'', [''sha256'']), (''flow_direction'', [''flow_direction''])]"
  by code_simp

lemma runtime_names_have_columns:
  "list_all (\<lambda>(name, spec). runtime_field_name spec \<noteq> [] \<and> column_of (runtime_field_name spec) \<noteq> None)
     canonical_field_map"
  "list_all (\<lambda>(name, path). name \<noteq> [] \<and> column_of name \<noteq> None) jsonb_runtime_paths"
  by code_simp+

lemma supported_field_column:
  "r \<in> set supported_runtime_event_fields \<Longrightarrow> r \<noteq> [] \<and> column_of r \<noteq> None"
  by (auto simp: column_of_def supported_runtime_event_fields_def split: option.split)

lemma resolve_runtime_field_column:
  assumes "resolve_runtime_field f = Inr r"
  shows "r \<noteq> [] \<and> column_of r \<noteq> None"
proof -
  define key where "key = py_strip f"
  consider (core) "r \<in> set supported_runtime_event_fields"
    | (canonical) name spec where "(name, spec) \<in> set canonical_field_map" "r = runtime_field_name spec"
    | (json) path where "(r, path) \<in> set jsonb_runtime_paths"
  proof (cases "key \<in> set supported_runtime_event_fields")
    case True
    with assms core show ?thesis
      unfolding resolve_runtime_field_def Let_def key_def[symmetric] by (simp split: if_splits)
  next
    case False
    then have "(case dict_get canonical_field_map key of
        Some spec \<Rightarrow> Inr (runtime_field_name spec)
      | None \<Rightarrow> if dict_get jsonb_runtime_paths key \<noteq> None then Inr key
          else Inl (RuleValidationError (''Unsupported detection field: '' @ key))) = Inr r"
      using assms unfolding resolve_runtime_field_def Let_def key_def[symmetric]
      by (cases "key = []") (simp_all only: if_True if_False not_False_eq_True sum.distinct simp_thms)
    then show ?thesis
      using canonical json
      by (cases "dict_get canonical_field_map key"; cases "dict_get jsonb_runtime_paths key")
        (auto dest!: dict_get_SomeD)
  qed
  then show ?thesis
    using supported_field_column runtime_names_have_columns
    by cases (auto simp: list_all_iff)
qed

text \<open>The operators by the branch of \<open>normalize_predicate_value\<close> they take.\<close>

lemma operator_cases:
  assumes "op \<in> set supported_field_operators"
  obtains "op \<in> set [''exists'', ''not_exists'']" | "op \<in> set [''gt'', ''gte'', ''lt'', ''lte'']"
    | "op \<in> set [''in'', ''not_in'']" | "op = ''contains_all''"
    | "op \<in> set [''contains'', ''not_contains'', ''startswith'', ''endswith'']" | "op \<in> set [''eq'', ''neq'']"
proof -
  have "list_all (\<lambda>op. op \<in> set [''exists'', ''not_exists''] \<or> op \<in> set [''gt'', ''gte'', ''lt'', ''lte'']
    \<or> op \<in> set [''in'', ''not_in''] \<or> op = ''contains_all''
    \<or> op \<in> set [''contains'', ''not_contains'', ''startswith'', ''endswith''] \<or> op \<in> set [''eq'', ''neq''])
    supported_field_operators" by code_simp
  with assms that show thesis unfolding list_all_iff by blast
qed

lemma normalize_predicate_value_cases:
  "op \<in> set [''exists'', ''not_exists''] \<Longrightarrow> normalize_predicate_value op v f = normalize_exists_value op v f"
  "op \<in> set [''gt'', ''gte'', ''lt'', ''lte''] \<Longrightarrow>
     normalize_predicate_value op v f = ebind (ensure_number v f) (\<lambda>i. Inr (op, PInt i))"
  "op \<in> set [''in'', ''not_in''] \<Longrightarrow>
     normalize_predicate_value op v f = ebind (ensure_sequence v f True) (\<lambda>items.
       if items = [] then must_not_be_empty f else Inr (op, PList items))"
  "op \<in> set [''contains'', ''not_contains'', ''startswith'', ''endswith''] \<Longrightarrow>
     normalize_predicate_value op v f =
       (case v of
           PList xs \<Rightarrow>
             (let items = normalize_string_list v in
              if items = [] then must_not_be_empty f
              else Inr (op, if length items > 1 then PList (map PStr items) else PStr (hd items)))
         | _ \<Rightarrow> ebind (ensure_non_empty_string v f) (\<lambda>s. Inr (op, PStr s)))"
  by (auto simp: normalize_predicate_value_def)

lemma normalize_equality:
  "normalize_predicate_value ''eq'' v f = (case v of PDict _ \<Rightarrow> must_not_be_mapping f | _ \<Rightarrow> Inr (''eq'', v))"
  "normalize_predicate_value ''neq'' v f = (case v of PDict _ \<Rightarrow> must_not_be_mapping f | _ \<Rightarrow> Inr (''neq'', v))"
  by (simp_all add: normalize_predicate_value_def)

lemma operator_classes:
  "op \<in> set [''gt'', ''gte'', ''lt'', ''lte''] \<Longrightarrow> op \<notin> set text_operators"
  "op \<in> set [''in'', ''not_in''] \<Longrightarrow> op \<notin> set text_operators"
  "op \<in> set [''eq'', ''neq''] \<Longrightarrow> op \<notin> set text_operators"
  by (erule list_all_memD[rotated, where P = "\<lambda>op. op \<notin> set text_operators"], code_simp)+

lemma normalize_predicate_value_wf:
  assumes "normalize_predicate_value op v f = Inr (op', v')" "op \<in> set supported_field_operators"
  shows "op' \<in> set supported_field_operators" "op' \<in> set text_operators \<longrightarrow> text_value v'"
proof -
  have "op' \<in> set supported_field_operators \<and> (op' \<in> set text_operators \<longrightarrow> text_value v')"
    using assms(2)
  proof (cases rule: operator_cases)
    case 1
    with assms(1) have "normalize_exists_value op v f = Inr (op', v')"
      by (simp only: normalize_predicate_value_cases(1))
    then obtain e where "(if op = ''exists'' then Inr (if e then ''exists'' else ''not_exists'', PBool True)
        else Inr (if e then ''not_exists'' else ''exists'', PBool True)) = (Inr (op', v') :: detection_error + _)"
      unfolding normalize_exists_value_def bind_simps by blast
    then have "op' = ''exists'' \<or> op' = ''not_exists''" by (simp split: if_splits)
    moreover have "''exists'' \<in> set supported_field_operators" "''not_exists'' \<in> set supported_field_operators"
      "''exists'' \<notin> set text_operators" "''not_exists'' \<notin> set text_operators" by code_simp+
    ultimately show ?thesis by blast
  next
    case 2
    from assms(1) have "op' = op" unfolding normalize_predicate_value_cases(2)[OF 2] by (auto simp: bind_simps)
    with 2 operator_classes assms(2) show ?thesis by blast
  next
    case 3
    from assms(1) have "op' = op" unfolding normalize_predicate_value_cases(3)[OF 3]
      by (auto simp: bind_simps must_not_be_empty_def split: if_splits)
    with 3 operator_classes assms(2) show ?thesis by blast
  next
    case 4
    with assms(1) obtain xs where n: "normalize_string_list (PList xs) \<noteq> []"
      and r: "op' = ''contains_all''" "v' = PList (map PStr (normalize_string_list (PList xs)))"
      by (auto simp: normalize_predicate_value_def bind_simps must_not_be_empty_def Let_def split: if_splits)
    then show ?thesis by (simp add: supported_field_operators_def text_value_def list_all_iff)
  next
    case 5
    note eq = normalize_predicate_value_cases(4)[OF 5]
    have "op' = op \<and> text_value v'"
    proof (cases "\<exists>xs. v = PList xs")
      case True
      then show ?thesis using assms(1) unfolding eq
        by (auto simp: must_not_be_empty_def Let_def text_value_def list_all_iff split: if_splits)
    next
      case False
      then show ?thesis
        using assms(1) unfolding eq by (cases v) (auto simp: bind_simps text_value_def)
    qed
    with assms(2) show ?thesis by blast
  next
    case 6
    then consider "op = ''eq''" | "op = ''neq''" unfolding list.set by blast
    then have "op' = op" using assms(1)
      by cases (cases v; simp add: normalize_equality must_not_be_mapping_def)+
    with 6 operator_classes assms(2) show ?thesis by blast
  qed
  then show "op' \<in> set supported_field_operators" "op' \<in> set text_operators \<longrightarrow> text_value v'"
    by blast+
qed

lemma ensure_field_operator_supported:
  "ensure_field_operator op = Inr op' \<Longrightarrow> op' \<in> set supported_field_operators"
  by (simp add: ensure_field_operator_def Let_def split: if_splits)

lemma eq_supported: "''eq'' \<in> set supported_field_operators"
  by (simp add: supported_field_operators_def)

lemma parse_predicate_key_supported:
  assumes "parse_predicate_key k = Inr (f, op)"
  shows "op \<in> set supported_field_operators"
proof -
  obtain key where "(case rsplit_bar key of
         None \<Rightarrow> Inr (key, ''eq'')
       | Some (f, op) \<Rightarrow>
           ebind (ensure_non_empty_string (PStr f) ''predicate field'') (\<lambda>field_name.
           ebind (ensure_field_operator op) (\<lambda>operator. Inr (field_name, operator)))) = Inr (f, op)"
    using assms unfolding parse_predicate_key_def bind_simps by blast
  then show ?thesis
    by (cases "rsplit_bar key")
      (auto simp: bind_simps eq_supported dest: ensure_field_operator_supported)
qed

lemma parse_predicate_wf:
  assumes "parse_predicate sel kv = Inr p"
  shows "predicate_wf p"
proof -
  obtain key f op r op' v' where k: "parse_predicate_key key = Inr (f, op)"
    and r: "resolve_runtime_field f = Inr r"
    and n: "normalize_predicate_value op (snd kv) (''detection.'' @ sel @ ''.'' @ key) = Inr (op', v')"
    and p: "p = \<lparr>fp_field = f, fp_operator = op', fp_value = v', fp_source_key = Some key,
      fp_runtime_field = Some r\<rparr>"
    using assms unfolding parse_predicate_def bind_simps split_paired_Ex prod.case sum.inject by blast
  show ?thesis
    using normalize_predicate_value_wf[OF n parse_predicate_key_supported[OF k]] resolve_runtime_field_column[OF r]
    by (simp add: p predicate_wf_def)
qed

lemma parsed_selection_wf:
  assumes "parsed_selection sel"
  shows "ds_predicates sel \<noteq> []" "list_all predicate_wf (ds_predicates sel)"
proof -
  obtain name m ps where e: "emap (parse_predicate name) m = Inr ps" and ne: "ps \<noteq> []"
    and s: "sel = \<lparr>ds_name = name, ds_predicates = ps\<rparr>"
    using assms by (auto simp: parsed_selection_def parse_selection_mapping_def bind_simps split: if_splits)
  have "list_all2 (\<lambda>x y. parse_predicate name x = Inr y) m ps" using e by (simp add: emap_Inr_iff)
  then have "list_all predicate_wf ps"
    by (auto simp: list_all2_conv_all_nth list_all_length intro: parse_predicate_wf)
  with ne s show "ds_predicates sel \<noteq> []" "list_all predicate_wf (ds_predicates sel)" by simp_all
qed

section \<open>What a predicate means\<close>

definition texts_of :: "pyval \<Rightarrow> string list" where
  "texts_of v = (case v of PList xs \<Rightarrow> map (\<lambda>x. case x of PStr s \<Rightarrow> s | _ \<Rightarrow> []) xs | _ \<Rightarrow> [py_str v])"

text \<open>The value of the column, if it has one, satisfies the operator.\<close>

definition value_holds :: "sql_ops \<Rightarrow> string \<Rightarrow> pyval \<Rightarrow> pyval \<Rightarrow> bool" where
  "value_holds ops op val x =
     (let like = so_like ops (so_lower ops x); texts = map py_lower (texts_of val) in
      if op = ''eq'' then val \<noteq> PNone \<and> so_compare ops ''=='' x val
      else if op = ''neq'' then val = PNone \<or> so_compare ops ''!='' x val
      else if op = ''gt'' then so_compare ops ''>'' x val
      else if op = ''gte'' then so_compare ops ''>='' x val
      else if op = ''lt'' then so_compare ops ''<'' x val
      else if op = ''lte'' then so_compare ops ''<='' x val
      else if op = ''in'' then list_ex (\<lambda>w. w \<noteq> PNone \<and> so_compare ops ''=='' x w) (listify val)
      else if op = ''not_in'' then list_all (\<lambda>w. w \<noteq> PNone \<and> \<not> so_compare ops ''=='' x w) (listify val)
      else if op = ''contains'' then list_ex (\<lambda>t. like (''%'' @ t @ ''%'')) texts
      else if op = ''not_contains'' then list_all (\<lambda>t. \<not> like (''%'' @ t @ ''%'')) texts
      else if op = ''contains_all'' then list_all (\<lambda>t. like (''%'' @ t @ ''%'')) texts
      else if op = ''startswith'' then list_ex (\<lambda>t. like (t @ ''%'')) texts
      else if op = ''endswith'' then list_ex (\<lambda>t. like (''%'' @ t)) texts
      else op = ''exists'')"

definition null_holds :: "string \<Rightarrow> pyval \<Rightarrow> bool" where
  "null_holds op val = (op = ''not_exists'' \<or> op = ''not_in'' \<or> op = ''not_contains'' \<or> op = ''eq'' \<and> val = PNone)"

definition predicate_holds :: "sql_ops \<Rightarrow> sql_row \<Rightarrow> field_predicate \<Rightarrow> bool" where
  "predicate_holds ops row p =
     (case predicate_column p of
        Inl _ \<Rightarrow> False
      | Inr col \<Rightarrow>
          (case col_value ops row col of
             None \<Rightarrow> null_holds (fp_operator p) (fp_value p)
           | Some x \<Rightarrow> value_holds ops (fp_operator p) (fp_value p) x))"

lemma predicate_column_wf: "predicate_wf p \<Longrightarrow> \<exists>col. predicate_column p = Inr col"
  by (auto simp: predicate_wf_def predicate_column_def column_of_def or_default_def
      split: option.splits if_splits)

lemma emap_texts: "list_all (\<lambda>x. \<exists>s. x = PStr s) xs \<Longrightarrow>
   emap (\<lambda>x. case x of PStr s \<Rightarrow> Inr (f s) | _ \<Rightarrow> Inl e) xs = Inr (map f (texts_of (PList xs)))"
  by (induction xs) (auto simp: texts_of_def)

lemma like_parts_text: "text_value v \<Longrightarrow> like_parts f v = Inr (map f (texts_of v))"
  by (cases v) (auto simp: text_value_def like_parts_def listify_def emap_texts, simp add: texts_of_def)

lemma texts_of_PStr [simp]: "texts_of (PStr s) = [s]"
  by (simp add: texts_of_def)

lemma text_value_cases:
  assumes "text_value v"
  obtains s where "v = PStr s" | xs where "v = PList xs" "texts_of v \<noteq> []"
  using assms by (cases v) (auto simp: text_value_def texts_of_def)

lemma eval_like:
  "sql_eval ops row (like_contains col t) = map_option (\<lambda>x. so_like ops (so_lower ops x) (''%'' @ py_lower t @ ''%'')) (col_value ops row col)"
  "sql_eval ops row (like_prefix col t) = map_option (\<lambda>x. so_like ops (so_lower ops x) (py_lower t @ ''%'')) (col_value ops row col)"
  "sql_eval ops row (like_suffix col t) = map_option (\<lambda>x. so_like ops (so_lower ops x) (''%'' @ py_lower t)) (col_value ops row col)"
  by (simp_all add: like_contains_def like_prefix_def like_suffix_def option.map_comp comp_def)

lemma k_or_all_None: "xs \<noteq> [] \<Longrightarrow> k_or (map (\<lambda>x. None) xs) = None"
  by (cases xs) (auto simp: k_or_def)

lemma k_and_all_None: "xs \<noteq> [] \<Longrightarrow> k_and (map (\<lambda>x. None) xs) = None"
  by (cases xs) (auto simp: k_and_def)

lemma k_map_Some:
  "k_or (map (\<lambda>x. Some (f x)) xs) = Some (list_ex f xs)"
  "k_and (map (\<lambda>x. Some (f x)) xs) = Some (list_all f xs)"
  by (auto simp: k_or_def k_and_def list_ex_iff list_all_iff)

lemma k_pair_True:
  "k_or [a, b] = Some True \<longleftrightarrow> a = Some True \<or> b = Some True"
  "k_and [a, b] = Some True \<longleftrightarrow> a = Some True \<and> b = Some True"
  by (auto simp: k_or_True_iff k_and_True_iff)

lemma eval_in_True:
  "sql_eval ops row (SIn col vs) = Some True \<longleftrightarrow>
     (\<exists>x. col_value ops row col = Some x \<and> list_ex (\<lambda>w. w \<noteq> PNone \<and> so_compare ops ''=='' x w) vs)"
  by (cases "col_value ops row col") (auto simp: k_or_True_iff list_ex_iff)

lemma eval_in_False:
  "sql_eval ops row (SIn col vs) = Some False \<longleftrightarrow> vs = [] \<or>
     (\<exists>x. col_value ops row col = Some x \<and> list_all (\<lambda>w. w \<noteq> PNone \<and> \<not> so_compare ops ''=='' x w) vs)"
proof (cases "col_value ops row col")
  case None
  then show ?thesis by (cases vs) (auto simp: k_or_def)
next
  case (Some x)
  then show ?thesis by (auto simp: k_or_def list_all_iff split: if_splits)
qed

lemma eval_eq_True:
  "sql_eval ops row (sql_eq col v) = Some True \<longleftrightarrow>
     (case col_value ops row col of None \<Rightarrow> v = PNone | Some x \<Rightarrow> v \<noteq> PNone \<and> so_compare ops ''=='' x v)"
  "sql_eval ops row (sql_neq col v) = Some True \<longleftrightarrow>
     (case col_value ops row col of None \<Rightarrow> False | Some x \<Rightarrow> v = PNone \<or> so_compare ops ''!='' x v)"
  by (auto simp: sql_eq_def sql_neq_def split: option.splits)

text \<open>One lemma per group of operators: what the filter is, and when it is true.\<close>

lemma supported_operator_exhaust:
  assumes "op \<in> set supported_field_operators"
  obtains "op = ''eq''" | "op = ''neq''" | "op = ''gt''" | "op = ''gte''" | "op = ''lt''" | "op = ''lte''"
    | "op = ''in''" | "op = ''not_in''" | "op = ''contains''" | "op = ''contains_all''" | "op = ''not_contains''"
    | "op = ''startswith''" | "op = ''endswith''" | "op = ''exists''" | "op = ''not_exists''"
  using assms unfolding supported_field_operators_def list.set insert_iff empty_iff by (elim disjE) (blast | simp)+

lemma eval_text_parts:
  "sql_eval ops row (SOr (map (like_contains col) ts)) = Some True \<longleftrightarrow>
     (\<exists>x. col_value ops row col = Some x \<and> list_ex (\<lambda>t. so_like ops (so_lower ops x) (''%'' @ py_lower t @ ''%'')) ts)"
  "sql_eval ops row (SOr (map (like_prefix col) ts)) = Some True \<longleftrightarrow>
     (\<exists>x. col_value ops row col = Some x \<and> list_ex (\<lambda>t. so_like ops (so_lower ops x) (py_lower t @ ''%'')) ts)"
  "sql_eval ops row (SOr (map (like_suffix col) ts)) = Some True \<longleftrightarrow>
     (\<exists>x. col_value ops row col = Some x \<and> list_ex (\<lambda>t. so_like ops (so_lower ops x) (''%'' @ py_lower t)) ts)"
  "ts \<noteq> [] \<Longrightarrow> sql_eval ops row (SAnd (map (like_contains col) ts)) = Some True \<longleftrightarrow>
     (\<exists>x. col_value ops row col = Some x \<and> list_all (\<lambda>t. so_like ops (so_lower ops x) (''%'' @ py_lower t @ ''%'')) ts)"
  "ts \<noteq> [] \<Longrightarrow> sql_eval ops row (SAnd (map (SNot \<circ> like_contains col) ts)) = Some True \<longleftrightarrow>
     (\<exists>x. col_value ops row col = Some x \<and> list_all (\<lambda>t. \<not> so_like ops (so_lower ops x) (''%'' @ py_lower t @ ''%'')) ts)"
  by (cases "col_value ops row col"; cases ts;
      auto simp: k_or_True_iff k_and_True_iff k_not_True_iff eval_like list_ex_iff list_all_iff)+

lemma eval_pairs:
  "sql_eval ops row (SOr [a, b]) = Some True \<longleftrightarrow> sql_eval ops row a = Some True \<or> sql_eval ops row b = Some True"
  "sql_eval ops row (SNot e) = Some True \<longleftrightarrow> sql_eval ops row e = Some False"
  by (simp_all add: k_pair_True k_not_True_iff)

lemma eval_and_one: "sql_eval ops row (SAnd [e]) = Some True \<longleftrightarrow> sql_eval ops row e = Some True"
  by (simp add: k_and_True_iff)

lemma like_not_None [simp]:
  "like_contains col t \<noteq> SNone" "like_prefix col t \<noteq> SNone" "like_suffix col t \<noteq> SNone"
  by (simp_all add: like_contains_def like_prefix_def like_suffix_def)

lemma eq_not_None [simp]: "sql_eq col v \<noteq> SNone" "sql_neq col v \<noteq> SNone"
  by (simp_all add: sql_eq_def sql_neq_def)

lemma predicate_compiles:
  assumes wf: "predicate_wf p" and col: "predicate_column p = Inr col"
  shows "\<exists>e. predicate_to_sqla p = Inr e \<and> e \<noteq> SNone \<and>
    (sql_eval ops row e = Some True \<longleftrightarrow> predicate_holds ops row p)"
proof -
  have op: "fp_operator p \<in> set supported_field_operators"
    and tv: "fp_operator p \<in> set text_operators \<longrightarrow> text_value (fp_value p)"
    using wf by (auto simp: predicate_wf_def)
  note simps = predicate_to_sqla_def col Let_def predicate_holds_def null_holds_def value_holds_def
  note text_simps = simps eval_like eval_text_parts eval_pairs eval_and_one list.pred_map list_all_iff list_ex_iff
  from op show ?thesis
  proof (cases rule: supported_operator_exhaust)
    case 1
    then show ?thesis by (simp add: simps eval_eq_True split: option.split)
  next
    case 2
    then show ?thesis by (simp add: simps eval_eq_True split: option.split)
  next
    case 7
    then show ?thesis by (simp add: simps eval_in_True del: sql_eval.simps(4) split: option.split)
  next
    case 8
    then show ?thesis
      by (simp add: simps eval_pairs eval_in_False del: sql_eval.simps(4,7,9) split: option.split) auto
  next
    case 9
    with tv have t: "text_value (fp_value p)" by (simp add: text_operators_def)
    then show ?thesis
    proof (cases rule: text_value_cases)
      case (1 s)
      with 9 show ?thesis by (simp add: text_simps del: sql_eval.simps(7,8,9) split: option.split)
    next
      case (2 xs)
      with 9 like_parts_text[OF t] show ?thesis by (simp add: text_simps del: sql_eval.simps(7,8,9) split: option.split)
    qed
  next
    case 10
    with tv have t: "text_value (fp_value p)" by (simp add: text_operators_def)
    then show ?thesis
    proof (cases rule: text_value_cases)
      case (1 s)
      with 10 like_parts_text[OF t] show ?thesis by (simp add: text_simps del: sql_eval.simps(7,8,9) split: option.split)
    next
      case (2 xs)
      with 10 like_parts_text[OF t] show ?thesis by (simp add: text_simps del: sql_eval.simps(7,8,9) split: option.split)
    qed
  next
    case 11
    with tv have t: "text_value (fp_value p)" by (simp add: text_operators_def)
    then show ?thesis
    proof (cases rule: text_value_cases)
      case (1 s)
      with 11 show ?thesis by (simp add: text_simps del: sql_eval.simps(7,8,9) split: option.split)
    next
      case (2 xs)
      with 11 like_parts_text[OF t] show ?thesis by (simp add: text_simps del: sql_eval.simps(7,8,9) split: option.split)
    qed
  next
    case 12
    with tv have t: "text_value (fp_value p)" by (simp add: text_operators_def)
    then show ?thesis
    proof (cases rule: text_value_cases)
      case (1 s)
      with 12 show ?thesis by (simp add: text_simps del: sql_eval.simps(7,8,9) split: option.split)
    next
      case (2 xs)
      with 12 like_parts_text[OF t] show ?thesis by (simp add: text_simps del: sql_eval.simps(7,8,9) split: option.split)
    qed
  next
    case 13
    with tv have t: "text_value (fp_value p)" by (simp add: text_operators_def)
    then show ?thesis
    proof (cases rule: text_value_cases)
      case (1 s)
      with 13 show ?thesis by (simp add: text_simps del: sql_eval.simps(7,8,9) split: option.split)
    next
      case (2 xs)
      with 13 like_parts_text[OF t] show ?thesis by (simp add: text_simps del: sql_eval.simps(7,8,9) split: option.split)
    qed
  qed (simp add: simps split: option.split)+
qed

section \<open>What a condition means\<close>

definition selection_holds :: "sql_ops \<Rightarrow> sql_row \<Rightarrow> detection_selection \<Rightarrow> bool" where
  "selection_holds ops row sel = list_all (predicate_holds ops row) (ds_predicates sel)"

text \<open>The selection of a name is the last one given under it, as in a Python dictionary.\<close>

definition name_holds :: "sql_ops \<Rightarrow> sql_row \<Rightarrow> detection_selection list \<Rightarrow> string \<Rightarrow> bool" where
  "name_holds ops row sels name =
     (case filter (\<lambda>sel. ds_name sel = name) sels of
        [] \<Rightarrow> False
      | s # ss \<Rightarrow> selection_holds ops row (last (s # ss)))"

fun cond_holds :: "(string \<Rightarrow> bool) \<Rightarrow> condition_expr \<Rightarrow> bool" where
  "cond_holds h (SelectionReference n) = h n"
| "cond_holds h (PatternReference pattern q ms) =
     (case q of QAll \<Rightarrow> list_all h ms | QCount k \<Rightarrow> int (length (filter h ms)) \<ge> k)"
| "cond_holds h (UnaryExpression op e) = (\<not> cond_holds h e)"
| "cond_holds h (BinaryExpression op l r) =
     (if op = ''and'' then cond_holds h l \<and> cond_holds h r else cond_holds h l \<or> cond_holds h r)"

fun negation_free :: "condition_expr \<Rightarrow> bool" where
  "negation_free (UnaryExpression op e) = False"
| "negation_free (BinaryExpression op l r) = (negation_free l \<and> negation_free r)"
| "negation_free _ = True"

text \<open>No comparison of the filter meets a null, in the row or in a list of values.\<close>

fun null_free :: "sql_ops \<Rightarrow> sql_row \<Rightarrow> sql_expr \<Rightarrow> bool" where
  "null_free ops row (SCompare op c v) = (col_value ops row c \<noteq> None)"
| "null_free ops row (SIn c vs) = (col_value ops row c \<noteq> None \<and> list_all (\<lambda>v. v \<noteq> PNone) vs)"
| "null_free ops row (SLike c p) = (col_value ops row c \<noteq> None)"
| "null_free ops row (SNumericText c) = (col_value ops row c \<noteq> None)"
| "null_free ops row (SNot e) = null_free ops row e"
| "null_free ops row (SAnd es) = list_all (null_free ops row) es"
| "null_free ops row (SOr es) = list_all (null_free ops row) es"
| "null_free ops row (SCountAtLeast es k) = list_all (null_free ops row) es"
| "null_free ops row SNone = False"
| "null_free ops row _ = True"

lemma k_and_known: "None \<notin> set xs \<Longrightarrow> k_and xs \<noteq> None"
  by (simp add: k_known)

lemma k_or_known: "None \<notin> set xs \<Longrightarrow> k_or xs \<noteq> None"
  by (simp add: k_known)

lemma null_free_known: "null_free ops row e \<Longrightarrow> sql_eval ops row e \<noteq> None"
proof (induction e)
  case (SIn c vs)
  then obtain x where x: "col_value ops row c = Some x" and v: "list_all (\<lambda>v. v \<noteq> PNone) vs" by auto
  have "None \<notin> set (map (\<lambda>v. if v = PNone then None else Some (so_compare ops ''=='' x v)) vs)"
    using v by (auto simp: list_all_iff)
  then show ?case using k_or_known by (simp add: x)
next
  case (SAnd es)
  then have "None \<notin> set (map (sql_eval ops row) es)" by (force simp: list_all_iff)
  then show ?case using k_and_known by simp
next
  case (SOr es)
  then have "None \<notin> set (map (sql_eval ops row) es)" by (force simp: list_all_iff)
  then show ?case using k_or_known by simp
next
  case (SNot e)
  then show ?case by (cases "sql_eval ops row e") (auto simp: k_not_def)
qed auto

lemma selection_compiles:
  assumes "ds_predicates sel \<noteq> []" "list_all predicate_wf (ds_predicates sel)"
  shows "\<exists>e. selection_to_sqla sel = Inr e \<and> e \<noteq> SNone \<and>
    (sql_eval ops row e = Some True \<longleftrightarrow> selection_holds ops row sel)"
proof -
  have "\<exists>es. emap predicate_to_sqla ps = Inr es \<and>
      list_all2 (\<lambda>p e. e \<noteq> SNone \<and> (sql_eval ops row e = Some True \<longleftrightarrow> predicate_holds ops row p)) ps es"
    if "list_all predicate_wf ps" for ps
    using that
  proof (induction ps)
    case (Cons p ps)
    then show ?case
      using predicate_column_wf[of p] predicate_compiles[of p _ ops row] by force
  qed simp
  from this[OF assms(2)] obtain es where e: "emap predicate_to_sqla (ds_predicates sel) = Inr es"
    and l: "list_all2 (\<lambda>p e. e \<noteq> SNone \<and> (sql_eval ops row e = Some True \<longleftrightarrow> predicate_holds ops row p))
      (ds_predicates sel) es" by blast
  have all: "list_all (\<lambda>e. sql_eval ops row e = Some True) es \<longleftrightarrow> selection_holds ops row sel"
    using l unfolding selection_holds_def by (induction rule: list_all2_induct) auto
  have ne: "es \<noteq> []" using l assms(1) by auto
  show ?thesis
  proof (cases "length es = 1")
    case True
    then obtain x where x: "es = [x]" by (auto simp: length_Suc_conv)
    with l all e show ?thesis by (auto simp: selection_to_sqla_def list_all2_Cons2)
  next
    case False
    with ne e all show ?thesis by (auto simp: selection_to_sqla_def k_and_True_iff list.pred_map comp_def)
  qed
qed

lemma selection_map_get:
  "dict_get (selection_map sels) n =
     (case filter (\<lambda>sel. ds_name sel = n) sels of [] \<Rightarrow> None | s # ss \<Rightarrow> Some (last (s # ss)))"
proof (induction sels rule: rev_induct)
  case (snoc x xs)
  then show ?case
    by (cases "filter (\<lambda>sel. ds_name sel = n) xs") (auto simp: selection_map_def)
qed (simp add: selection_map_def)

lemma named_compiles:
  assumes "n \<in> ds_name ` set sels"
    "list_all (\<lambda>sel. ds_predicates sel \<noteq> [] \<and> list_all predicate_wf (ds_predicates sel)) sels"
  shows "\<exists>e. selection_named (selection_map sels) n = Inr e \<and> e \<noteq> SNone \<and>
    (sql_eval ops row e = Some True \<longleftrightarrow> name_holds ops row sels n)"
proof -
  let ?fs = "filter (\<lambda>sel. ds_name sel = n) sels"
  have ne: "?fs \<noteq> []" using assms(1) by (auto simp: filter_empty_conv)
  then have mem: "last ?fs \<in> set sels" using last_in_set[OF ne] by simp
  with assms(2) obtain e where "selection_to_sqla (last ?fs) = Inr e" "e \<noteq> SNone"
    "sql_eval ops row e = Some True \<longleftrightarrow> selection_holds ops row (last ?fs)"
    using selection_compiles[of "last ?fs" ops row] by (auto simp: list_all_iff)
  with ne show ?thesis
    by (auto simp: selection_named_def selection_map_get name_holds_def split: list.splits)
qed

lemma length_filter_list_all2:
  "list_all2 (\<lambda>a b. P a = Q b) xs ys \<Longrightarrow> length (filter P xs) = length (filter Q ys)"
  by (induction rule: list_all2_induct) auto

lemma count_all: "int (length (filter h ms)) \<ge> int (length ms) \<longleftrightarrow> list_all h ms"
  by (metis filter_id_conv length_filter_le length_filter_less linorder_not_less list_all_iff of_nat_le_iff)

lemma count_some: "int (length (filter h ms)) \<ge> 1 \<longleftrightarrow> list_ex h ms"
  by (induction ms) auto

lemma expression_compiles:
  assumes "bound_wf (map ds_name sels) expr"
    "list_all (\<lambda>sel. ds_predicates sel \<noteq> [] \<and> list_all predicate_wf (ds_predicates sel)) sels"
  shows "\<exists>e. expression_to_sqla (selection_map sels) expr = Inr e \<and> e \<noteq> SNone \<and>
    (negation_free expr \<or> null_free ops row e \<longrightarrow>
      (sql_eval ops row e = Some True \<longleftrightarrow> cond_holds (name_holds ops row sels) expr))"
  using assms(1)
proof (induction expr)
  case (SelectionReference n)
  then show ?case using named_compiles[of n sels ops row] assms(2) by auto
next
  case (PatternReference pattern q ms)
  let ?h = "name_holds ops row sels"
  have sub: "set ms \<subseteq> ds_name ` set sels" and ne: "ms \<noteq> []"
    and q: "case q of QAll \<Rightarrow> True | QCount k \<Rightarrow> 1 \<le> k \<and> k \<le> int (length ms)"
    using PatternReference by auto
  have "\<exists>es. emap (selection_named (selection_map sels)) ns = Inr es \<and>
      list_all2 (\<lambda>n e. ?h n = (sql_eval ops row e = Some True)) ns es"
    if "set ns \<subseteq> ds_name ` set sels" for ns
    using that
  proof (induction ns)
    case (Cons n ns)
    then show ?case using named_compiles[of n sels ops row] assms(2) by force
  qed simp
  from this[OF sub] obtain es where e: "emap (selection_named (selection_map sels)) ms = Inr es"
    and l: "list_all2 (\<lambda>n e. ?h n = (sql_eval ops row e = Some True)) ms es" by blast
  have es: "es \<noteq> []" using l ne by auto
  have all: "sql_eval ops row (SAnd es) = Some True \<longleftrightarrow> list_all ?h ms"
    using l by (induction rule: list_all2_induct) (auto simp: k_and_True_iff)
  have ex: "sql_eval ops row (SOr es) = Some True \<longleftrightarrow> list_ex ?h ms"
    using l by (induction rule: list_all2_induct) (auto simp: k_or_True_iff)
  have cnt: "sql_eval ops row (SCountAtLeast es k) = Some True \<longleftrightarrow> int (length (filter ?h ms)) \<ge> k" for k
    using length_filter_list_all2[OF l] by simp
  show ?case
  proof (cases q)
    case QAll
    then show ?thesis using e es all by simp
  next
    case (QCount k)
    consider "k = int (length ms)" | "k \<noteq> int (length ms)" "k = 1" | "k \<noteq> int (length ms)" "k \<noteq> 1" by blast
    then show ?thesis
    proof cases
      case 1
      then show ?thesis using QCount e es all count_all[of ms ?h] by simp
    next
      case 2
      then show ?thesis using QCount e es ex count_some[of ?h ms] by simp
    next
      case 3
      then show ?thesis using QCount e es cnt[of k] by simp
    qed
  qed
next
  case (UnaryExpression op expr)
  then obtain e where "expression_to_sqla (selection_map sels) expr = Inr e" "op = ''not''"
    "null_free ops row e \<longrightarrow> (sql_eval ops row e = Some True \<longleftrightarrow> cond_holds (name_holds ops row sels) expr)"
    by auto
  then show ?case using null_free_known[of ops row e]
    by (cases "sql_eval ops row e") (auto simp: k_not_def)
next
  case (BinaryExpression op l r)
  then obtain a b where
    "expression_to_sqla (selection_map sels) l = Inr a" "expression_to_sqla (selection_map sels) r = Inr b"
    "negation_free l \<or> null_free ops row a \<longrightarrow>
       (sql_eval ops row a = Some True \<longleftrightarrow> cond_holds (name_holds ops row sels) l)"
    "negation_free r \<or> null_free ops row b \<longrightarrow>
       (sql_eval ops row b = Some True \<longleftrightarrow> cond_holds (name_holds ops row sels) r)" and "op = ''and'' \<or> op = ''or''"
    by auto
  then show ?case by (auto simp: k_pair_True)
qed

text \<open>All that is known of the filters of a parsed block.\<close>

lemma compiled_block:
  assumes "parse_detection_block d = Return b"
  shows "\<exists>e. compile_detection_filters b since until =
      Inr [SCompare ''>='' (EventColumn ''timestamp'') (PTime since),
           SCompare ''<'' (EventColumn ''timestamp'') (PTime until), e] \<and>
    (negation_free (dc_expression (db_condition b)) \<or> null_free ops row e \<longrightarrow>
      (sql_eval ops row e = Some True \<longleftrightarrow>
       cond_holds (name_holds ops row (db_selections b)) (dc_expression (db_condition b))))"
proof -
  note p = parse_detection_block_cases[OF assms]
  have "list_all (\<lambda>sel. ds_predicates sel \<noteq> [] \<and> list_all predicate_wf (ds_predicates sel)) (db_selections b)"
    using p(2) parsed_selection_wf by (auto simp: list_all_iff)
  from expression_compiles[OF p(3) this, of ops row] show ?thesis
    by (auto simp: compile_detection_filters_def)
qed

section \<open>Properties\<close>

text \<open>
  C0: A detection block that the parser accepted compiles: no unknown selection, no unsupported field
  and no value of the wrong type is left for the compiler to stumble on.
\<close>

theorem parsed_rules_compile:
  "case parse_detection_block d of
     Return b \<Rightarrow> (\<exists>e. compile_detection_filters b since until =
        Inr [SCompare ''>='' (EventColumn ''timestamp'') (PTime since),
             SCompare ''<'' (EventColumn ''timestamp'') (PTime until), e])
   | _ \<Rightarrow> True"
proof (cases "parse_detection_block d")
  case (Return b)
  then show ?thesis using compiled_block[OF Return, of since until] by (simp only: outcome.case) blast
qed simp_all

lemma selects_block:
  "selects ops [SCompare ''>='' (EventColumn ''timestamp'') (PTime since),
      SCompare ''<'' (EventColumn ''timestamp'') (PTime until), e] row \<longleftrightarrow>
   (\<exists>t. row (EventColumn ''timestamp'') = Some t \<and> so_compare ops ''>='' t (PTime since) \<and>
      so_compare ops ''<'' t (PTime until)) \<and> sql_eval ops row e = Some True"
  by (auto simp: selects_def)

lemma compiled_condition_eq:
  assumes "parse_detection_block d = Return b" "compile_detection_filters b since until = Inr fs"
    "negation_free (dc_expression (db_condition b)) \<or> list_all (null_free ops row) fs"
  shows "selects ops fs row \<longleftrightarrow>
    (\<exists>t. row (EventColumn ''timestamp'') = Some t \<and> so_compare ops ''>='' t (PTime since) \<and>
       so_compare ops ''<'' t (PTime until)) \<and>
    cond_holds (name_holds ops row (db_selections b)) (dc_expression (db_condition b))"
proof -
  obtain e where fs: "fs = [SCompare ''>='' (EventColumn ''timestamp'') (PTime since),
      SCompare ''<'' (EventColumn ''timestamp'') (PTime until), e]"
    and e: "negation_free (dc_expression (db_condition b)) \<or> null_free ops row e \<longrightarrow>
      (sql_eval ops row e = Some True \<longleftrightarrow>
       cond_holds (name_holds ops row (db_selections b)) (dc_expression (db_condition b)))"
    using compiled_block[OF assms(1), of since until ops row] assms(2) by auto
  from e assms(3) show ?thesis unfolding fs selects_block by auto
qed

text \<open>
  C0: The filters of a parsed block select exactly the events in the time range on which its
  condition holds, with "all of" and "n of" read as counts of selections: on every row when the
  condition has no negation, and otherwise on every row with no null in a column that is compared.
\<close>

theorem compiled_condition_agrees:
  assumes "parse_detection_block d = Return b" "compile_detection_filters b since until = Inr fs"
    "negation_free (dc_expression (db_condition b)) \<or> list_all (null_free ops row) fs"
  shows "selects ops fs row \<longleftrightarrow>
    (\<exists>t. row (EventColumn ''timestamp'') = Some t \<and> so_compare ops ''>='' t (PTime since) \<and>
       so_compare ops ''<'' t (PTime until)) \<and>
    cond_holds (name_holds ops row (db_selections b)) (dc_expression (db_condition b))"
  using assms by (rule compiled_condition_eq)

definition sample_detection :: pyval where
  "sample_detection = PDict
     [(''sel_shell'', PDict [(''process.name|endswith'', PList [PStr ''sh'', PStr ''zsh''])]),
      (''sel_out'', PDict [(''network.flow.direction'', PStr ''outbound''), (''dst_port|not_in'', PList [PInt 443])]),
      (''condition'', PStr ''1 of sel_* or (sel_out and sel_shell)'')]"

lemma sample_parses:
  "(case parse_detection_block sample_detection of
      Return b \<Rightarrow> negation_free (dc_expression (db_condition b)) | _ \<Rightarrow> False)"
  by code_simp

lemma sample_block: "\<exists>b fs. parse_detection_block sample_detection = Return b \<and>
    negation_free (dc_expression (db_condition b)) \<and> compile_detection_filters b since until = Inr fs"
proof -
  obtain b where b: "parse_detection_block sample_detection = Return b" "negation_free (dc_expression (db_condition b))"
    using sample_parses by (cases "parse_detection_block sample_detection") auto
  with compiled_block[OF b(1), of since until] show ?thesis by blast
qed

lemma compiled_condition_agrees_witness:
  "\<exists>b fs. parse_detection_block sample_detection = Return b \<and> compile_detection_filters b 0 10 = Inr fs \<and>
     (\<forall>ops row. selects ops fs row \<longleftrightarrow>
       (\<exists>t. row (EventColumn ''timestamp'') = Some t \<and> so_compare ops ''>='' t (PTime 0) \<and>
          so_compare ops ''<'' t (PTime 10)) \<and>
       cond_holds (name_holds ops row (db_selections b)) (dc_expression (db_condition b)))"
  using sample_block[of 0 10] compiled_condition_agrees[of sample_detection _ 0 10] by blast

text \<open>
  C0: A negated selection passes over the events that lack its column: neither the selection nor its
  negation selects them, while \<open>not_in\<close> and \<open>not_contains\<close> do select them.
\<close>

definition negated_detection :: pyval where
  "negated_detection = PDict [(''a'', PDict [(''process.name'', PStr ''sh'')]), (''condition'', PStr ''not a'')]"

lemma negated_compiled:
  "(case parse_detection_block negated_detection of
      Return b \<Rightarrow> dc_expression (db_condition b) = UnaryExpression ''not'' (SelectionReference ''a'') \<and>
        compile_detection_filters b since until =
          Inr [SCompare ''>='' (EventColumn ''timestamp'') (PTime since),
               SCompare ''<'' (EventColumn ''timestamp'') (PTime until),
               SNot (SCompare ''=='' (EventColumn ''proc_name'') (PStr ''sh''))] | _ \<Rightarrow> False)"
  by code_simp

theorem negation_passes_over_nulls:
  "\<exists>b fs. parse_detection_block negated_detection = Return b \<and>
     dc_expression (db_condition b) = UnaryExpression ''not'' (SelectionReference ''a'') \<and>
     compile_detection_filters b since until = Inr fs \<and>
     \<not> selects ops fs (\<lambda>c. if c = EventColumn ''timestamp'' then Some t else None)"
proof -
  obtain b where b: "parse_detection_block negated_detection = Return b"
    and c: "dc_expression (db_condition b) = UnaryExpression ''not'' (SelectionReference ''a'')"
    and f: "compile_detection_filters b since until =
      Inr [SCompare ''>='' (EventColumn ''timestamp'') (PTime since),
           SCompare ''<'' (EventColumn ''timestamp'') (PTime until),
           SNot (SCompare ''=='' (EventColumn ''proc_name'') (PStr ''sh''))]"
    using negated_compiled[of since until] by (cases "parse_detection_block negated_detection") auto
  have "\<not> selects ops [SCompare ''>='' (EventColumn ''timestamp'') (PTime since),
           SCompare ''<'' (EventColumn ''timestamp'') (PTime until),
           SNot (SCompare ''=='' (EventColumn ''proc_name'') (PStr ''sh''))]
    (\<lambda>c. if c = EventColumn ''timestamp'' then Some t else None)"
    by (simp add: selects_def k_not_def)
  with b c f show ?thesis by blast
qed

section \<open>LIKE\<close>

text \<open>SQL's \<open>LIKE\<close>: \<open>%\<close> any text, \<open>_\<close> one character, a backslash takes the next character as it is.\<close>

function like_match :: "string \<Rightarrow> string \<Rightarrow> bool" where
  "like_match [] s = (s = [])"
| "like_match (c # p) s =
     (if c = CHR ''%'' then like_match p s \<or> (if s = [] then False else like_match (c # p) (tl s))
      else if s = [] then False
      else if c = CHR ''_'' then like_match p (tl s)
      else if c = CHR 0x5C then p \<noteq> [] \<and> hd s = hd p \<and> like_match (tl p) (tl s)
      else hd s = c \<and> like_match p (tl s))"
  by pat_completeness auto
termination
  by (relation "measure (\<lambda>(p, s). length p + length s)") (auto simp: neq_Nil_conv)

declare like_match.simps(2) [simp del]

definition no_wildcard :: "string \<Rightarrow> bool" where
  "no_wildcard t = list_all (\<lambda>c. c \<noteq> CHR ''%'' \<and> c \<noteq> CHR ''_'' \<and> c \<noteq> CHR 0x5C) t"

lemma like_match_percent: "like_match (CHR ''%'' # p) s \<longleftrightarrow> (\<exists>u v. s = u @ v \<and> like_match p v)"
proof (induction s)
  case Nil
  show ?case by (subst like_match.simps) simp
next
  case (Cons c s)
  have "like_match (CHR ''%'' # p) (c # s) \<longleftrightarrow> like_match p (c # s) \<or> (\<exists>u v. s = u @ v \<and> like_match p v)"
    by (subst like_match.simps) (simp add: Cons)
  also have "\<dots> \<longleftrightarrow> (\<exists>u v. c # s = u @ v \<and> like_match p v)"
    by (metis append_Cons append_Nil neq_Nil_conv list.inject)
  finally show ?case .
qed

lemma like_match_literal: "no_wildcard t \<Longrightarrow> like_match (t @ p) s \<longleftrightarrow> (\<exists>v. s = t @ v \<and> like_match p v)"
proof (induction t arbitrary: s)
  case (Cons c t)
  then show ?case
    by (cases s) (auto simp: no_wildcard_def like_match.simps(2))
qed simp

lemma like_contains_iff: "no_wildcard t \<Longrightarrow> like_match (''%'' @ t @ ''%'') s \<longleftrightarrow> py_contains s t"
  by (auto simp: like_match_percent like_match_literal py_contains_iff)

lemma contains_filter:
  assumes "\<And>s p. so_like ops (PStr s) p = like_match p s" "\<And>s. so_lower ops (PStr s) = PStr (py_lower s)"
    "fp_operator p = ''contains''" "fp_value p = PStr t" "predicate_column p = Inr col"
    "col_value ops row col = Some (PStr s)"
  shows "predicate_holds ops row p \<longleftrightarrow> like_match (''%'' @ py_lower t @ ''%'') (py_lower s)"
  using assms by (simp add: predicate_holds_def value_holds_def)

text \<open>
  On a database whose \<open>LIKE\<close> is SQL's, \<open>contains\<close> is the substring test up to case, for every text
  without a wildcard character.
\<close>

theorem contains_is_substring:
  assumes "\<And>s p. so_like ops (PStr s) p = like_match p s" "\<And>s. so_lower ops (PStr s) = PStr (py_lower s)"
    "predicate_wf p" "fp_operator p = ''contains''" "fp_value p = PStr t" "predicate_column p = Inr col"
    "row col = Some (PStr s)" "\<forall>c. col \<noteq> LowerOf c \<and> col \<noteq> CastFloat c"
    "no_wildcard (py_lower t)"
  shows "\<exists>e. predicate_to_sqla p = Inr e \<and>
    (sql_eval ops row e = Some True \<longleftrightarrow> py_contains (py_lower s) (py_lower t))"
proof -
  have "col_value ops row col = Some (PStr s)" using assms(7,8) by (cases col) auto
  from contains_filter[OF assms(1,2,4,5,6) this] predicate_compiles[OF assms(3,6), of ops row]
    like_contains_iff[OF assms(9)]
  show ?thesis by auto
qed

definition sample_ops :: sql_ops where
  "sample_ops = \<lparr>so_compare = (\<lambda>op x v. py_eq x v),
     so_like = (\<lambda>x p. case x of PStr s \<Rightarrow> like_match p s | _ \<Rightarrow> False),
     so_lower = (\<lambda>x. case x of PStr s \<Rightarrow> PStr (py_lower s) | _ \<Rightarrow> x), so_float = id, so_numeric = (\<lambda>x. False)\<rparr>"

definition sample_predicate :: "string \<Rightarrow> field_predicate" where
  "sample_predicate t = \<lparr>fp_field = ''process.name'', fp_operator = ''contains'', fp_value = PStr t,
     fp_source_key = None, fp_runtime_field = Some ''proc_name''\<rparr>"

lemma sample_predicate_facts:
  "predicate_wf (sample_predicate t)" "predicate_column (sample_predicate t) = Inr (EventColumn ''proc_name'')"
proof -
  have c: "column_of ''proc_name'' = Some (EventColumn ''proc_name'')"
    "''contains'' \<in> set supported_field_operators" by code_simp+
  then show "predicate_wf (sample_predicate t)"
    by (auto simp: predicate_wf_def sample_predicate_def text_value_def)
  have "resolve_runtime_jsonb_accessor ''proc_name'' = None" "''proc_name'' \<in> set supported_runtime_event_fields"
    by code_simp+
  then show "predicate_column (sample_predicate t) = Inr (EventColumn ''proc_name'')"
    by (simp add: predicate_column_def sample_predicate_def or_default_def)
qed

lemma contains_is_substring_witness:
  "\<exists>e. predicate_to_sqla (sample_predicate ''Sh'') = Inr e \<and>
    (sql_eval sample_ops (\<lambda>c. Some (PStr ''BASH'')) e = Some True \<longleftrightarrow>
     py_contains (py_lower ''BASH'') (py_lower ''Sh''))"
  by (rule contains_is_substring[where p = "sample_predicate ''Sh''" and col = "EventColumn ''proc_name''"])
    (simp_all add: sample_predicate_facts sample_ops_def, simp_all add: sample_predicate_def, code_simp)

text \<open>
  The texts of a rule are not escaped: with \<open>contains: a_b\<close> a process named \<open>axb\<close> is selected,
  although it does not contain the text.
\<close>

theorem contains_reads_wildcards:
  "\<exists>e. predicate_to_sqla (sample_predicate ''a_b'') = Inr e \<and>
     sql_eval sample_ops (\<lambda>c. Some (PStr ''axb'')) e = Some True \<and> \<not> py_contains ''axb'' ''a_b''"
proof -
  obtain e where e: "predicate_to_sqla (sample_predicate ''a_b'') = Inr e"
    and h: "sql_eval sample_ops (\<lambda>c. Some (PStr ''axb'')) e = Some True \<longleftrightarrow>
      predicate_holds sample_ops (\<lambda>c. Some (PStr ''axb'')) (sample_predicate ''a_b'')"
    using predicate_compiles[OF sample_predicate_facts] by blast
  have m: "like_match (''%'' @ py_lower ''a_b'' @ ''%'') (py_lower ''axb'')" by code_simp
  have "predicate_holds sample_ops (\<lambda>c. Some (PStr ''axb'')) (sample_predicate ''a_b'')"
    using contains_filter[of sample_ops "sample_predicate ''a_b''" "''a_b''" "EventColumn ''proc_name''"
        "\<lambda>c. Some (PStr ''axb'')" "''axb''"] m
    by (simp add: sample_predicate_facts(2)) (simp add: sample_predicate_def sample_ops_def)
  moreover have "\<not> py_contains ''axb'' ''a_b''" by code_simp
  ultimately show ?thesis using e h by blast
qed

end
