(* ===== verification/Ip_Address.thy ===== *)
theory Ip_Address
  imports Py_Runtime
begin

text \<open>
  IP addresses and networks as Python's \<open>ipaddress\<close> reads them (no code of the repository, the
  documented behaviour of Python 3.12), and the classification of addresses and flows
  (\<open>shared/network/ip_classification.py\<close>).

  An address is its version and its number; a zone index (\<open>%eth0\<close>) of an IPv6 address is checked and
  dropped, as no code modelled here reads it.
\<close>

section \<open>Addresses\<close>

datatype ip_version = V4 | V6

record ip_addr =
  ip_version :: ip_version
  ip_int :: int

definition max_prefix :: "ip_version \<Rightarrow> nat" where
  "max_prefix v = (case v of V4 \<Rightarrow> 32 | V6 \<Rightarrow> 128)"

definition dec_digits :: "string \<Rightarrow> int" where
  "dec_digits s = foldl (\<lambda>n c. n * 10 + int (digit_val c)) 0 s"

definition parse_octet :: "string \<Rightarrow> int option" where
  "parse_octet s =
     (if s = [] \<or> \<not> list_all is_ascii_digit s \<or> length s > 3 \<or> (s \<noteq> ''0'' \<and> hd s = CHR ''0'') then None
      else let n = dec_digits s in if n > 255 then None else Some n)"

fun omap :: "('a \<Rightarrow> 'b option) \<Rightarrow> 'a list \<Rightarrow> 'b list option" where
  "omap f [] = Some []"
| "omap f (x # xs) = (case f x of None \<Rightarrow> None | Some y \<Rightarrow> map_option ((#) y) (omap f xs))"

definition parse_v4 :: "string \<Rightarrow> int option" where
  "parse_v4 s =
     (let octets = py_split (CHR ''.'') s in
      if length octets \<noteq> 4 then None
      else map_option (foldl (\<lambda>n q. n * 256 + q) 0) (omap parse_octet octets))"

definition hex_val :: "char \<Rightarrow> int option" where
  "hex_val c =
     (let n = int (code_point c) in
      if 48 \<le> n \<and> n \<le> 57 then Some (n - 48)
      else if 65 \<le> n \<and> n \<le> 70 then Some (n - 55)
      else if 97 \<le> n \<and> n \<le> 102 then Some (n - 87) else None)"

definition parse_hextet :: "string \<Rightarrow> int option" where
  "parse_hextet s =
     (if s = [] \<or> length s > 4 then None
      else map_option (foldl (\<lambda>n d. n * 16 + d) 0) (omap hex_val s))"

text \<open>
  The hextets of the parts between colons, the gap of a \<open>::\<close> filled with zeros. \<open>n\<close> of the parts are in
  front of the gap.
\<close>

definition gap_positions :: "string list \<Rightarrow> nat list" where
  "gap_positions parts = filter (\<lambda>i. parts ! i = []) [1..<length parts - 1]"

definition fill_gap :: "string list \<Rightarrow> nat \<Rightarrow> int list option" where
  "fill_gap parts skip =
     (let hi = (if hd parts = [] then skip - 1 else skip);
          lo = (if last parts = [] then length parts - skip - 2 else length parts - skip - 1)
      in if hd parts = [] \<and> hi \<noteq> 0 \<or> last parts = [] \<and> lo \<noteq> 0 \<or> hi + lo \<ge> 8 then None
         else case (omap parse_hextet (take hi parts), omap parse_hextet (drop (length parts - lo) parts)) of
           (Some a, Some b) \<Rightarrow> Some (a @ replicate (8 - (hi + lo)) 0 @ b)
         | _ \<Rightarrow> None)"

definition hextets_of :: "string list \<Rightarrow> int list option" where
  "hextets_of parts =
     (if length parts > 9 then None
      else case gap_positions parts of
        [] \<Rightarrow> if length parts \<noteq> 8 then None else omap parse_hextet parts
      | [skip] \<Rightarrow> fill_gap parts skip
      | _ \<Rightarrow> None)"

text \<open>An IPv4 address as the last part is replaced by two hextets, in hexadecimal.\<close>

definition hex4 :: "int \<Rightarrow> string" where
  "hex4 n = map (\<lambda>d. hex_digit (nat (n div d mod 16))) [4096, 256, 16, 1]"

definition expand_v4_tail :: "string list \<Rightarrow> string list option" where
  "expand_v4_tail parts =
     (if CHR ''.'' \<in> set (last parts)
      then map_option (\<lambda>n. butlast parts @ [hex4 (n div 65536), hex4 (n mod 65536)]) (parse_v4 (last parts))
      else Some parts)"

definition parse_v6 :: "string \<Rightarrow> int option" where
  "parse_v6 s =
     (let parts = py_split (CHR '':'') s in
      if length parts < 3 then None
      else case expand_v4_tail parts of
        None \<Rightarrow> None
      | Some ps \<Rightarrow> map_option (foldl (\<lambda>n h. n * 65536 + h) 0) (hextets_of ps))"

text \<open>\<open>_split_scope_id\<close>: the text before a \<open>%\<close>, when what follows is a non-empty zone.\<close>

definition drop_zone :: "string \<Rightarrow> string option" where
  "drop_zone s =
     (let zone = dropWhile (\<lambda>c. c \<noteq> CHR ''%'') s in
      if zone = [] then Some s
      else if tl zone = [] \<or> CHR ''%'' \<in> set (tl zone) then None
      else Some (takeWhile (\<lambda>c. c \<noteq> CHR ''%'') s))"

definition parse_addr :: "ip_version \<Rightarrow> string \<Rightarrow> int option" where
  "parse_addr v s =
     (if CHR ''/'' \<in> set s then None
      else case v of
        V4 \<Rightarrow> parse_v4 s
      | V6 \<Rightarrow> (case drop_zone s of None \<Rightarrow> None | Some t \<Rightarrow> parse_v6 t))"

text \<open>\<open>ipaddress.ip_address(s)\<close>; \<open>None\<close> is the \<open>ValueError\<close>.\<close>

definition ip_address :: "string \<Rightarrow> ip_addr option" where
  "ip_address s =
     (case parse_addr V4 s of
        Some n \<Rightarrow> Some \<lparr>ip_version = V4, ip_int = n\<rparr>
      | None \<Rightarrow> map_option (\<lambda>n. \<lparr>ip_version = V6, ip_int = n\<rparr>) (parse_addr V6 s))"

section \<open>Networks\<close>

text \<open>The zone is kept, as in Python, when the network is given without host bits.\<close>

record ip_net =
  net_version :: ip_version
  net_int :: int
  net_prefix :: nat
  net_zone :: string

text \<open>The number with the host bits cleared.\<close>

definition clear_host :: "ip_version \<Rightarrow> nat \<Rightarrow> int \<Rightarrow> int" where
  "clear_host v p n = (let h = 2 ^ (max_prefix v - p) in n div h * h)"

definition ip_in_net :: "ip_addr \<Rightarrow> ip_net \<Rightarrow> bool" where
  "ip_in_net a net =
     (ip_version a = net_version net \<and>
      clear_host (net_version net) (net_prefix net) (ip_int a) = net_int net)"

text \<open>
  A prefix length: digits up to the maximum. For IPv4 also a netmask or a host mask in dotted form;
  the netmask of a prefix and its complement are compared with all 33 prefixes.
\<close>

definition netmask_int :: "nat \<Rightarrow> int" where
  "netmask_int p = 2 ^ 32 - 2 ^ (32 - p)"

definition prefix_of_mask :: "int \<Rightarrow> nat option" where
  "prefix_of_mask m =
     (case filter (\<lambda>p. netmask_int p = m) [0..<33] of
        p # _ \<Rightarrow> Some p
      | [] \<Rightarrow> (case filter (\<lambda>p. netmask_int p = 2 ^ 32 - 1 - m) [0..<33] of p # _ \<Rightarrow> Some p | [] \<Rightarrow> None))"

definition parse_prefix :: "ip_version \<Rightarrow> string \<Rightarrow> nat option" where
  "parse_prefix v s =
     (if s \<noteq> [] \<and> list_all is_ascii_digit s \<and> dec_digits s \<le> int (max_prefix v) then Some (nat (dec_digits s))
      else case v of
        V4 \<Rightarrow> (case parse_v4 s of None \<Rightarrow> None | Some m \<Rightarrow> prefix_of_mask m)
      | V6 \<Rightarrow> None)"

definition mk_net :: "ip_version \<Rightarrow> string \<Rightarrow> nat \<Rightarrow> ip_net option" where
  "mk_net v addr p =
     map_option (\<lambda>n. \<lparr>net_version = v, net_int = clear_host v p n, net_prefix = p,
         net_zone = (if clear_host v p n = n then dropWhile (\<lambda>c. c \<noteq> CHR ''%'') addr else [])\<rparr>)
       (parse_addr v addr)"

definition parse_net :: "ip_version \<Rightarrow> string \<Rightarrow> ip_net option" where
  "parse_net v s =
     (case py_split (CHR ''/'') s of
        [addr] \<Rightarrow> mk_net v addr (max_prefix v)
      | [addr, netmask] \<Rightarrow> (case parse_prefix v netmask of None \<Rightarrow> None | Some p \<Rightarrow> mk_net v addr p)
      | _ \<Rightarrow> None)"

text \<open>\<open>ipaddress.ip_network(s, strict=False)\<close>.\<close>

definition ip_network :: "string \<Rightarrow> ip_net option" where
  "ip_network s = (case parse_net V4 s of Some n \<Rightarrow> Some n | None \<Rightarrow> parse_net V6 s)"

text \<open>\<open>str(address)\<close> and \<open>str(network)\<close>; in IPv6 the first longest run of two or more zeros is left out.\<close>

definition print_v4 :: "int \<Rightarrow> string" where
  "print_v4 n = py_join ''.'' (map (\<lambda>d. int_str (n div d mod 256)) [16777216, 65536, 256, 1])"

fun strip_zeros :: "string \<Rightarrow> string" where
  "strip_zeros (c # d # s) = (if c = CHR ''0'' then strip_zeros (d # s) else c # d # s)"
| "strip_zeros s = s"

definition zero_run :: "int list \<Rightarrow> nat \<Rightarrow> nat" where
  "zero_run hs i = length (takeWhile (\<lambda>h. h = 0) (drop i hs))"

definition print_v6 :: "int \<Rightarrow> string" where
  "print_v6 n =
     (let hs = map (\<lambda>i. n div 65536 ^ (7 - i) mod 65536) [0..<8];
          texts = map (\<lambda>h. strip_zeros (hex4 h)) hs;
          longest = foldl max 0 (map (zero_run hs) [0..<8])
      in if longest < 2 then py_join '':'' texts
         else let i = length (takeWhile (\<lambda>i. zero_run hs i \<noteq> longest) [0..<8]) in
           py_join '':'' (take i texts) @ ''::'' @ py_join '':'' (drop (i + longest) texts))"

definition print_net :: "ip_net \<Rightarrow> string" where
  "print_net net =
     (case net_version net of V4 \<Rightarrow> print_v4 (net_int net) | V6 \<Rightarrow> print_v6 (net_int net) @ net_zone net) @
     ''/'' @ nat_str (net_prefix net)"

section \<open>Special ranges\<close>

text \<open>
  \<open>is_unspecified\<close>, \<open>is_loopback\<close> and \<open>is_multicast\<close>. What Python takes for reserved and for global
  follows registries that change with its version: they are the parameter \<open>ip_registry\<close>.
\<close>

record ip_registry =
  reg_reserved :: "ip_addr \<Rightarrow> bool"
  reg_global :: "ip_addr \<Rightarrow> bool"

definition v4_net :: "int \<Rightarrow> nat \<Rightarrow> ip_net" where
  "v4_net n p = \<lparr>net_version = V4, net_int = n, net_prefix = p, net_zone = []\<rparr>"

definition v6_net :: "int \<Rightarrow> nat \<Rightarrow> ip_net" where
  "v6_net n p = \<lparr>net_version = V6, net_int = n, net_prefix = p, net_zone = []\<rparr>"

definition is_unspecified :: "ip_addr \<Rightarrow> bool" where
  "is_unspecified a = (ip_int a = 0)"

definition is_loopback :: "ip_addr \<Rightarrow> bool" where
  "is_loopback a =
     (case ip_version a of V4 \<Rightarrow> ip_in_net a (v4_net 0x7F000000 8) | V6 \<Rightarrow> ip_int a = 1)"

definition is_multicast :: "ip_addr \<Rightarrow> bool" where
  "is_multicast a =
     (case ip_version a of
        V4 \<Rightarrow> ip_in_net a (v4_net 0xE0000000 4)
      | V6 \<Rightarrow> ip_in_net a (v6_net (0xFF00 * 2 ^ 112) 8))"

definition V4_LINK_LOCAL :: ip_net where "V4_LINK_LOCAL = v4_net 0xA9FE0000 16"
definition V4_CGNAT :: ip_net where "V4_CGNAT = v4_net 0x64400000 10"
definition V4_RFC1918 :: "ip_net list" where
  "V4_RFC1918 = [v4_net 0x0A000000 8, v4_net 0xAC100000 12, v4_net 0xC0A80000 16]"
definition V4_DOCUMENTATION :: "ip_net list" where
  "V4_DOCUMENTATION = [v4_net 0xC0000200 24, v4_net 0xC6336400 24, v4_net 0xCB007100 24]"
definition V6_LINK_LOCAL :: ip_net where "V6_LINK_LOCAL = v6_net (0xFE80 * 2 ^ 112) 10"
definition V6_UNIQUE_LOCAL :: ip_net where "V6_UNIQUE_LOCAL = v6_net (0xFC00 * 2 ^ 112) 7"
definition V6_DOCUMENTATION :: ip_net where "V6_DOCUMENTATION = v6_net (0x20010DB8 * 2 ^ 96) 32"

section \<open>Classification\<close>

definition SCOPE_LABELS :: "(string \<times> string) list" where
  "SCOPE_LABELS =
     [(''public_internet'', ''Public''), (''internal_network'', ''Internal''), (''private_address'', ''Private''),
      (''loopback'', ''Loopback''), (''link_local'', ''Link-Local''), (''cgnat'', ''CGNAT''),
      (''multicast'', ''Multicast''), (''unspecified'', ''Unspecified''), (''documentation'', ''Documentation''),
      (''reserved'', ''Reserved''), (''unique_local'', ''Unique-Local''), (''invalid'', ''Invalid''),
      (''unknown'', ''Unknown'')]"

definition INTERNAL_SCOPES :: "string list" where
  "INTERNAL_SCOPES =
     [''internal_network'', ''private_address'', ''loopback'', ''link_local'', ''cgnat'', ''unique_local'']"

definition SPECIAL_SCOPES :: "string list" where
  "SPECIAL_SCOPES = [''multicast'', ''unspecified'', ''documentation'', ''reserved'']"

record ip_result =
  ir_ip :: string
  ir_version :: nat
  ir_scope :: string
  ir_label :: string
  ir_is_internal :: bool
  ir_is_public :: bool
  ir_is_special :: bool
  ir_matched_cidr :: "string option"
  ir_match_source :: "string option"

definition ip_result_of :: "string \<Rightarrow> nat \<Rightarrow> string \<Rightarrow> string option \<Rightarrow> string option \<Rightarrow> ip_result" where
  "ip_result_of ip version scope matched_cidr match_source =
     \<lparr>ir_ip = ip, ir_version = version, ir_scope = scope,
      ir_label = (case dict_get SCOPE_LABELS scope of Some l \<Rightarrow> l | None \<Rightarrow> scope),
      ir_is_internal = (scope \<in> set INTERNAL_SCOPES), ir_is_public = (scope = ''public_internet''),
      ir_is_special = (scope \<in> set SPECIAL_SCOPES),
      ir_matched_cidr = matched_cidr, ir_match_source = match_source\<rparr>"

definition parse_internal_cidrs :: "string list \<Rightarrow> ip_net list" where
  "parse_internal_cidrs raw =
     List.map_filter ip_network (filter (\<lambda>s. s \<noteq> []) (map py_strip raw))"

definition first_net :: "ip_addr \<Rightarrow> ip_net list \<Rightarrow> ip_net option" where
  "first_net a nets = (case filter (ip_in_net a) nets of [] \<Rightarrow> None | n # _ \<Rightarrow> Some n)"

definition classify_v4 :: "ip_registry \<Rightarrow> string \<Rightarrow> ip_addr \<Rightarrow> ip_result" where
  "classify_v4 reg raw a =
     (if ip_in_net a V4_LINK_LOCAL
      then ip_result_of raw 4 ''link_local'' (Some ''169.254.0.0/16'') (Some ''builtin'')
      else if ip_in_net a V4_CGNAT
      then ip_result_of raw 4 ''cgnat'' (Some ''100.64.0.0/10'') (Some ''builtin'')
      else case first_net a V4_DOCUMENTATION of
        Some net \<Rightarrow> ip_result_of raw 4 ''documentation'' (Some (print_net net)) (Some ''builtin'')
      | None \<Rightarrow>
          (case first_net a V4_RFC1918 of
             Some net \<Rightarrow> ip_result_of raw 4 ''private_address'' (Some (print_net net)) (Some ''builtin'')
           | None \<Rightarrow>
               if reg_reserved reg a then ip_result_of raw 4 ''reserved'' None (Some ''builtin'')
               else if reg_global reg a then ip_result_of raw 4 ''public_internet'' None (Some ''builtin'')
               else ip_result_of raw 4 ''unknown'' None None))"

definition classify_v6 :: "ip_registry \<Rightarrow> string \<Rightarrow> ip_addr \<Rightarrow> ip_result" where
  "classify_v6 reg raw a =
     (if ip_in_net a V6_LINK_LOCAL
      then ip_result_of raw 6 ''link_local'' (Some ''fe80::/10'') (Some ''builtin'')
      else if ip_in_net a V6_DOCUMENTATION
      then ip_result_of raw 6 ''documentation'' (Some ''2001:db8::/32'') (Some ''builtin'')
      else if ip_in_net a V6_UNIQUE_LOCAL
      then ip_result_of raw 6 ''unique_local'' (Some ''fc00::/7'') (Some ''builtin'')
      else if reg_reserved reg a then ip_result_of raw 6 ''reserved'' None (Some ''builtin'')
      else if reg_global reg a then ip_result_of raw 6 ''public_internet'' None (Some ''builtin'')
      else ip_result_of raw 6 ''unknown'' None None)"

definition version_number :: "ip_version \<Rightarrow> nat" where
  "version_number v = (case v of V4 \<Rightarrow> 4 | V6 \<Rightarrow> 6)"

definition classify_builtin :: "ip_registry \<Rightarrow> string \<Rightarrow> ip_addr \<Rightarrow> ip_result" where
  "classify_builtin reg raw a =
     (let v = version_number (ip_version a) in
      if is_unspecified a then ip_result_of raw v ''unspecified'' None (Some ''builtin'')
      else if is_loopback a
      then ip_result_of raw v ''loopback'' (Some (if v = 4 then ''127.0.0.0/8'' else ''::1/128'')) (Some ''builtin'')
      else if is_multicast a
      then ip_result_of raw v ''multicast'' (Some (if v = 4 then ''224.0.0.0/4'' else ''ff00::/8'')) (Some ''builtin'')
      else if ip_version a = V4 then classify_v4 reg raw a else classify_v6 reg raw a)"

text \<open>A missing address is the empty text, missing networks are the empty list.\<close>

definition classify_ip :: "ip_registry \<Rightarrow> string \<Rightarrow> string list \<Rightarrow> ip_result" where
  "classify_ip reg ip internal_cidrs =
     (let raw = py_strip ip in
      if raw = [] then ip_result_of [] 0 ''invalid'' None None
      else case ip_address raw of
        None \<Rightarrow> ip_result_of raw 0 ''invalid'' None None
      | Some a \<Rightarrow>
          (case first_net a (parse_internal_cidrs internal_cidrs) of
             Some net \<Rightarrow> ip_result_of raw (version_number (ip_version a)) ''internal_network''
               (Some (print_net net)) (Some ''configured_cidr'')
           | None \<Rightarrow> classify_builtin reg raw a))"

record flow_flags =
  ff_locality :: string
  ff_src_internal :: bool
  ff_dst_internal :: bool
  ff_external_to_internal :: bool
  ff_internal_to_internal :: bool
  ff_internal_to_public :: bool

definition flow_locality :: "bool \<Rightarrow> bool \<Rightarrow> bool \<Rightarrow> bool \<Rightarrow> bool \<Rightarrow> string" where
  "flow_locality missing src_public src_internal dst_public dst_internal =
     (if missing then ''unknown''
      else if src_public \<and> dst_public then ''public_to_public''
      else if src_public \<and> dst_internal then ''public_to_internal''
      else if src_internal \<and> dst_public then ''internal_to_public''
      else if src_internal \<and> dst_internal then ''internal_to_internal''
      else ''private_or_special'')"

definition classify_flow ::
  "ip_registry \<Rightarrow> string \<Rightarrow> string \<Rightarrow> string list \<Rightarrow> ip_result \<times> ip_result \<times> flow_flags" where
  "classify_flow reg src_ip dst_ip internal_cidrs =
     (let src = classify_ip reg src_ip internal_cidrs;
          dst = classify_ip reg dst_ip internal_cidrs;
          src_missing = (py_strip src_ip = [] \<or> ir_scope src = ''invalid'');
          dst_missing = (py_strip dst_ip = [] \<or> ir_scope dst = ''invalid'');
          src_internal = ir_is_internal src; dst_internal = ir_is_internal dst;
          src_public = ir_is_public src; dst_public = ir_is_public dst;
          locality = flow_locality (src_missing \<or> dst_missing) src_public src_internal dst_public dst_internal
      in (src, dst,
          \<lparr>ff_locality = locality, ff_src_internal = src_internal, ff_dst_internal = dst_internal,
           ff_external_to_internal = (src_public \<and> dst_internal),
           ff_internal_to_internal = (src_internal \<and> dst_internal),
           ff_internal_to_public = (src_internal \<and> dst_public)\<rparr>))"

section \<open>Round trip of IPv4 addresses\<close>

lemma dec_digits_int: "dec_digits s = int (foldl (\<lambda>a c. a * 10 + digit_val c) 0 s)"
  unfolding dec_digits_def by (induction s rule: rev_induct) simp_all

lemma dec_digits_nat_str: "dec_digits (nat_str n) = int n"
  by (simp add: dec_digits_int foldl_nat_str)

lemma length_nat_str: "n < 1000 \<Longrightarrow> length (nat_str n) \<le> 3"
  by (subst nat_str.simps, subst nat_str.simps, subst nat_str.simps) auto

lemma hd_nat_str: "hd (nat_str n) = CHR ''0'' \<Longrightarrow> n = 0"
proof (induction n rule: nat_str.induct)
  case (1 n)
  show ?case
  proof (cases "n < 10")
    case True
    then have "char_of (48 + n) = CHR ''0''" using 1(2) by (subst (asm) nat_str.simps) simp
    then have "(of_char (char_of (48 + n) :: char) :: nat) = of_char (CHR ''0'')" by simp
    with True show ?thesis by simp
  next
    case False
    then have "hd (nat_str (n div 10)) = CHR ''0''" using 1(2) by (subst (asm) nat_str.simps) simp
    with 1(1) False show ?thesis by auto
  qed
qed

lemma octet_facts:
  assumes "0 \<le> k" "k < (256::int)"
  shows "parse_octet (int_str k) = Some k" "list_all is_ascii_digit (int_str k)"
proof -
  have i: "int_str k = nat_str (nat k)" using assms by (simp add: int_str_def)
  show d: "list_all is_ascii_digit (int_str k)" using nat_str_digits[of "nat k"] by (simp add: i list_all_iff)
  have "int_str k = ''0'' \<or> hd (int_str k) \<noteq> CHR ''0''"
    using hd_nat_str[of "nat k"] by (auto simp: i nat_str.simps[of 0])
  moreover have "length (nat_str (nat k)) \<le> 3" using assms by (intro length_nat_str) simp
  ultimately show "parse_octet (int_str k) = Some k"
    using d assms by (auto simp: parse_octet_def i dec_digits_nat_str)
qed

lemma py_split_snoc:
  "c \<notin> set a \<Longrightarrow> py_split c (a @ c # s) = a # py_split c s"
  by (induction a) (auto split: list.split)

lemma py_split_one: "c \<notin> set a \<Longrightarrow> py_split c a = [a]"
  by (induction a) auto

lemma digits_not:
  assumes "list_all is_ascii_digit s" "\<not> is_ascii_digit c"
  shows "c \<notin> set s"
  using assms by (auto simp: list_all_iff)

lemma not_digit [simp]: "\<not> is_ascii_digit (CHR ''.'')" "\<not> is_ascii_digit (CHR ''/'')" "\<not> is_ascii_digit (CHR ''%'')"
  by (simp_all add: is_ascii_digit_def code_point_def)

definition v4_octets :: "int \<Rightarrow> int list" where
  "v4_octets n = [n div 16777216 mod 256, n div 65536 mod 256, n div 256 mod 256, n mod 256]"

lemma div_div_eq: "0 \<le> (b::int) \<Longrightarrow> c = a * b \<Longrightarrow> n div c = n div a div b"
  by (simp add: zdiv_zmult2_eq)

lemma v4_octets_value:
  fixes n :: int
  assumes "0 \<le> n" "n < 4294967296"
  shows "((n div 16777216 mod 256 * 256 + n div 65536 mod 256) * 256 + n div 256 mod 256) * 256 + n mod 256 = n"
proof -
  have d: "n div 65536 = n div 256 div 256" "n div 16777216 = n div 65536 div 256"
    by (rule div_div_eq; simp)+
  have "n div 16777216 mod 256 = n div 16777216" using assms by (intro mod_pos_pos_trivial) auto
  then show ?thesis by (simp only: d div_mult_mod_eq)
qed

lemma parse_print_v4:
  assumes "0 \<le> n" "n < 4294967296"
  shows "parse_v4 (print_v4 n) = Some n"
proof -
  let ?a = "int_str (n div 16777216 mod 256)" and ?b = "int_str (n div 65536 mod 256)"
    and ?c = "int_str (n div 256 mod 256)" and ?d = "int_str (n mod 256)"
  have r: "0 \<le> k mod 256" "k mod 256 < 256" for k :: int by auto
  have nd: "CHR ''.'' \<notin> set (int_str (k mod 256))" for k
    using octet_facts(2)[OF r] by (rule digits_not) simp
  have "py_split (CHR ''.'') (print_v4 n) = [?a, ?b, ?c, ?d]"
    using nd by (simp add: print_v4_def py_split_snoc py_split_one)
  then have "parse_v4 (print_v4 n) = map_option (foldl (\<lambda>n q. n * 256 + q) 0) (omap parse_octet [?a, ?b, ?c, ?d])"
    by (simp only: parse_v4_def Let_def list.size) simp
  also have "\<dots> = Some (foldl (\<lambda>n q. n * 256 + q) 0 [n div 16777216 mod 256, n div 65536 mod 256, n div 256 mod 256, n mod 256])"
    by (simp only: omap.simps octet_facts(1)[OF r] option.case option.map)
  also have "\<dots> = Some n"
    using v4_octets_value[OF assms] by (simp only: foldl_Cons foldl_Nil mult_zero_left add_0_left)
  finally show ?thesis .
qed

lemma print_v4_chars: "list_all (\<lambda>c. is_ascii_digit c \<or> c = CHR ''.'') (print_v4 n)"
proof -
  have "list_all is_ascii_digit (int_str (k mod 256))" for k by (rule octet_facts) auto
  then have d: "list_all (\<lambda>c. is_ascii_digit c \<or> c = CHR ''.'') (int_str (k mod 256))" for k
    by (auto simp: list_all_iff)
  show ?thesis using d[of "n div 16777216"] d[of "n div 65536"] d[of "n div 256"] d[of n]
    by (simp add: print_v4_def)
qed

lemma print_v4_not_in:
  "CHR ''/'' \<notin> set (print_v4 n)" "CHR ''%'' \<notin> set (print_v4 n)"
  using print_v4_chars[of n] by (auto simp: list_all_iff)

lemma ip_address_print_v4:
  assumes "0 \<le> n" "n < 4294967296"
  shows "ip_address (print_v4 n) = Some \<lparr>ip_version = V4, ip_int = n\<rparr>"
  using parse_print_v4[OF assms] by (simp add: ip_address_def parse_addr_def print_v4_not_in)

lemma print_v4_strip: "py_strip (print_v4 n) = print_v4 n" "print_v4 n \<noteq> []"
proof -
  have sp: "\<not> py_isspace c" if "is_ascii_digit c \<or> c = CHR ''.''" for c
    using that by (auto simp: is_ascii_digit_def py_isspace_def code_point_def)
  show ne: "print_v4 n \<noteq> []" by (simp add: print_v4_def)
  have "\<not> py_isspace (hd (print_v4 n))" "\<not> py_isspace (last (print_v4 n))"
    using print_v4_chars[of n] ne sp by (auto simp: list_all_iff)
  then show "py_strip (print_v4 n) = print_v4 n"
    unfolding py_strip_def by (intro strip_if_no_ends) simp
qed

lemma ip_network_print_v4:
  assumes "0 \<le> m" "m < 4294967296" "p \<le> 32"
  shows "ip_network (print_v4 m @ ''/'' @ nat_str p) =
    Some \<lparr>net_version = V4, net_int = clear_host V4 p m, net_prefix = p, net_zone = []\<rparr>"
proof -
  have p: "nat_str p \<noteq> []" "list_all is_ascii_digit (nat_str p)" "dec_digits (nat_str p) = int p"
    using nat_str_digits[of p] by (simp_all add: list_all_iff dec_digits_nat_str)
  have s: "CHR ''/'' \<notin> set (nat_str p)" using p(2) by (rule digits_not) simp
  have "py_split (CHR ''/'') (print_v4 m @ ''/'' @ nat_str p) = [print_v4 m, nat_str p]"
    using print_v4_not_in s by (simp add: py_split_snoc py_split_one)
  moreover have "dropWhile (\<lambda>c. c \<noteq> CHR ''%'') (print_v4 m) = []"
    using print_v4_not_in(2)[of m] by (auto simp: dropWhile_eq_Nil_conv)
  ultimately show ?thesis
    using p assms parse_print_v4[OF assms(1,2)]
    by (simp add: ip_network_def parse_net_def parse_prefix_def mk_net_def parse_addr_def print_v4_not_in max_prefix_def)
qed

section \<open>Classification\<close>

lemma ip_in_v4_net:
  "ip_in_net \<lparr>ip_version = V4, ip_int = n\<rparr> (v4_net b p) \<longleftrightarrow> n div 2 ^ (32 - p) * 2 ^ (32 - p) = b"
  by (simp add: ip_in_net_def v4_net_def clear_host_def max_prefix_def Let_def)

text \<open>The scope of an IPv4 address as ranges of its number.\<close>

definition v4_scope :: "ip_registry \<Rightarrow> int \<Rightarrow> string" where
  "v4_scope reg n =
     (let top = n div 16777216; mid = n div 65536; low = n div 256; a = \<lparr>ip_version = V4, ip_int = n\<rparr> in
      if n = 0 then ''unspecified''
      else if top = 127 then ''loopback''
      else if 224 \<le> top \<and> top < 240 then ''multicast''
      else if mid = 169 * 256 + 254 then ''link_local''
      else if 100 * 256 + 64 \<le> mid \<and> mid < 100 * 256 + 128 then ''cgnat''
      else if low \<in> {192 * 65536 + 2, 198 * 65536 + 51 * 256 + 100, 203 * 65536 + 113} then ''documentation''
      else if top = 10 \<or> 172 * 256 + 16 \<le> mid \<and> mid < 172 * 256 + 32 \<or> mid = 192 * 256 + 168
      then ''private_address''
      else if reg_reserved reg a then ''reserved''
      else if reg_global reg a then ''public_internet'' else ''unknown'')"

lemma block_numbers:
  fixes t :: int
  shows "t div 16 * 268435456 = 3758096384 \<longleftrightarrow> 224 \<le> t \<and> t < 240"
    "t div 64 * 4194304 = 1681915904 \<longleftrightarrow> 25664 \<le> t \<and> t < 25728"
    "t div 16 * 1048576 = 2886729728 \<longleftrightarrow> 44048 \<le> t \<and> t < 44064"
proof -
  have d: "t div 16 = 14 \<longleftrightarrow> 224 \<le> t \<and> t < 240" "t div 64 = 401 \<longleftrightarrow> 25664 \<le> t \<and> t < 25728"
    "t div 16 = 2753 \<longleftrightarrow> 44048 \<le> t \<and> t < 44064" by presburger+
  have m: "t div 16 * 268435456 = 3758096384 \<longleftrightarrow> t div 16 = 14"
    "t div 64 * 4194304 = 1681915904 \<longleftrightarrow> t div 64 = 401"
    "t div 16 * 1048576 = 2886729728 \<longleftrightarrow> t div 16 = 2753"
    by linarith+
  show "t div 16 * 268435456 = 3758096384 \<longleftrightarrow> 224 \<le> t \<and> t < 240"
    "t div 64 * 4194304 = 1681915904 \<longleftrightarrow> 25664 \<le> t \<and> t < 25728"
    "t div 16 * 1048576 = 2886729728 \<longleftrightarrow> 44048 \<le> t \<and> t < 44064"
    unfolding m d by (rule refl)+
qed

lemma v4_nets:
  fixes n :: int
  shows "n div 16777216 * 16777216 = 2130706432 \<longleftrightarrow> n div 16777216 = 127"
    "n div 268435456 * 268435456 = 3758096384 \<longleftrightarrow> 224 \<le> n div 16777216 \<and> n div 16777216 < 240"
    "n div 65536 * 65536 = 2851995648 \<longleftrightarrow> n div 65536 = 43518"
    "n div 4194304 * 4194304 = 1681915904 \<longleftrightarrow> 25664 \<le> n div 65536 \<and> n div 65536 < 25728"
    "n div 256 * 256 = 3221225984 \<longleftrightarrow> n div 256 = 12582914"
    "n div 256 * 256 = 3325256704 \<longleftrightarrow> n div 256 = 12989284"
    "n div 256 * 256 = 3405803776 \<longleftrightarrow> n div 256 = 13303921"
    "n div 16777216 * 16777216 = 167772160 \<longleftrightarrow> n div 16777216 = 10"
    "n div 1048576 * 1048576 = 2886729728 \<longleftrightarrow> 44048 \<le> n div 65536 \<and> n div 65536 < 44064"
    "n div 65536 * 65536 = 3232235520 \<longleftrightarrow> n div 65536 = 49320"
proof -
  have q: "x * 16777216 = 2130706432 \<longleftrightarrow> x = 127" "x * 65536 = 2851995648 \<longleftrightarrow> x = 43518"
    "x * 256 = 3221225984 \<longleftrightarrow> x = 12582914" "x * 256 = 3325256704 \<longleftrightarrow> x = 12989284"
    "x * 256 = 3405803776 \<longleftrightarrow> x = 13303921" "x * 16777216 = 167772160 \<longleftrightarrow> x = 10"
    "x * 65536 = 3232235520 \<longleftrightarrow> x = 49320" for x :: int by linarith+
  have d: "n div 268435456 = n div 16777216 div 16" "n div 4194304 = n div 65536 div 64"
    "n div 1048576 = n div 65536 div 16"
    by (rule div_div_eq; simp)+
  show "n div 16777216 * 16777216 = 2130706432 \<longleftrightarrow> n div 16777216 = 127"
    "n div 65536 * 65536 = 2851995648 \<longleftrightarrow> n div 65536 = 43518"
    "n div 256 * 256 = 3221225984 \<longleftrightarrow> n div 256 = 12582914"
    "n div 256 * 256 = 3325256704 \<longleftrightarrow> n div 256 = 12989284"
    "n div 256 * 256 = 3405803776 \<longleftrightarrow> n div 256 = 13303921"
    "n div 16777216 * 16777216 = 167772160 \<longleftrightarrow> n div 16777216 = 10"
    "n div 65536 * 65536 = 3232235520 \<longleftrightarrow> n div 65536 = 49320" by (rule q)+
  show "n div 268435456 * 268435456 = 3758096384 \<longleftrightarrow> 224 \<le> n div 16777216 \<and> n div 16777216 < 240"
    "n div 4194304 * 4194304 = 1681915904 \<longleftrightarrow> 25664 \<le> n div 65536 \<and> n div 65536 < 25728"
    "n div 1048576 * 1048576 = 2886729728 \<longleftrightarrow> 44048 \<le> n div 65536 \<and> n div 65536 < 44064"
    unfolding d by (rule block_numbers)+
qed

lemma ip_result_fields [simp]:
  "ir_scope (ip_result_of ip v scope m src) = scope"
  "ir_is_internal (ip_result_of ip v scope m src) = (scope \<in> set INTERNAL_SCOPES)"
  "ir_is_public (ip_result_of ip v scope m src) = (scope = ''public_internet'')"
  "ir_is_special (ip_result_of ip v scope m src) = (scope \<in> set SPECIAL_SCOPES)"
  by (simp_all add: ip_result_of_def)

lemma v4_memberships:
  "ip_in_net \<lparr>ip_version = V4, ip_int = n\<rparr> (v4_net 0x7F000000 8) \<longleftrightarrow> n div 16777216 = 127"
  "ip_in_net \<lparr>ip_version = V4, ip_int = n\<rparr> (v4_net 0xE0000000 4) \<longleftrightarrow> 224 \<le> n div 16777216 \<and> n div 16777216 < 240"
  "ip_in_net \<lparr>ip_version = V4, ip_int = n\<rparr> V4_LINK_LOCAL \<longleftrightarrow> n div 65536 = 43518"
  "ip_in_net \<lparr>ip_version = V4, ip_int = n\<rparr> V4_CGNAT \<longleftrightarrow> 25664 \<le> n div 65536 \<and> n div 65536 < 25728"
  "ip_in_net \<lparr>ip_version = V4, ip_int = n\<rparr> (v4_net 0xC0000200 24) \<longleftrightarrow> n div 256 = 12582914"
  "ip_in_net \<lparr>ip_version = V4, ip_int = n\<rparr> (v4_net 0xC6336400 24) \<longleftrightarrow> n div 256 = 12989284"
  "ip_in_net \<lparr>ip_version = V4, ip_int = n\<rparr> (v4_net 0xCB007100 24) \<longleftrightarrow> n div 256 = 13303921"
  "ip_in_net \<lparr>ip_version = V4, ip_int = n\<rparr> (v4_net 0x0A000000 8) \<longleftrightarrow> n div 16777216 = 10"
  "ip_in_net \<lparr>ip_version = V4, ip_int = n\<rparr> (v4_net 0xAC100000 12) \<longleftrightarrow> 44048 \<le> n div 65536 \<and> n div 65536 < 44064"
  "ip_in_net \<lparr>ip_version = V4, ip_int = n\<rparr> (v4_net 0xC0A80000 16) \<longleftrightarrow> n div 65536 = 49320"
  unfolding V4_LINK_LOCAL_def V4_CGNAT_def ip_in_v4_net by (simp_all only: v4_nets[symmetric], simp_all)

lemma first_net_case:
  "(case first_net a nets of None \<Rightarrow> x | Some net \<Rightarrow> f net) =
     (if list_ex (ip_in_net a) nets then f (the (first_net a nets)) else x)"
  by (auto simp: first_net_def list_ex_iff filter_empty_conv split: list.split)

lemma classify_v4_scope_eq:
  assumes "0 \<le> n" "n < 4294967296"
  shows "ir_scope (classify_ip reg (print_v4 n) []) = v4_scope reg n"
proof -
  let ?a = "\<lparr>ip_version = V4, ip_int = n\<rparr>"
  have c: "classify_ip reg (print_v4 n) [] = classify_builtin reg (print_v4 n) ?a"
    using print_v4_strip[of n] ip_address_print_v4[OF assms]
    by (simp add: classify_ip_def parse_internal_cidrs_def first_net_def map_filter_simps)
  show ?thesis
    unfolding c classify_builtin_def classify_v4_def v4_scope_def Let_def
      is_unspecified_def is_loopback_def is_multicast_def V4_DOCUMENTATION_def V4_RFC1918_def
    by (simp add: v4_memberships first_net_case version_number_def if_distrib[where f = ir_scope])
qed

text \<open>
  C0: The scope of every IPv4 address without configured networks, as ranges of its 32-bit number:
  what the code tests with networks, in the order it tests them.
\<close>

theorem classify_v4_scope:
  assumes "0 \<le> n" "n < 4294967296"
  shows "ir_scope (classify_ip reg (print_v4 n) []) = v4_scope reg n"
  using assms by (rule classify_v4_scope_eq)

lemma classify_v4_scope_witness:
  "ir_scope (classify_ip \<lparr>reg_reserved = (\<lambda>a. False), reg_global = (\<lambda>a. True)\<rparr> (print_v4 3232235796) []) =
     v4_scope \<lparr>reg_reserved = (\<lambda>a. False), reg_global = (\<lambda>a. True)\<rparr> 3232235796"
  by (rule classify_v4_scope) simp_all

section \<open>Flows\<close>

definition is_result :: "string \<Rightarrow> ip_result \<Rightarrow> bool" where
  "is_result raw r = (\<exists>v scope m s. r = ip_result_of raw v scope m s)"

lemma is_result_intros:
  "is_result raw (ip_result_of raw v scope m s)"
  "is_result raw x \<Longrightarrow> is_result raw y \<Longrightarrow> is_result raw (if b then x else y)"
  "is_result raw x \<Longrightarrow> (\<And>z. is_result raw (f z)) \<Longrightarrow>
     is_result raw (case opt of None \<Rightarrow> x | Some z \<Rightarrow> f z)"
  unfolding is_result_def by (blast, simp, cases opt, simp_all)

lemma classify_is_result: "is_result (py_strip ip) (classify_ip reg ip cidrs)"
proof (cases "py_strip ip = []")
  case True
  then show ?thesis using is_result_intros(1)[of "[]" 0 "''invalid''" None None] by (simp add: classify_ip_def)
next
  case False
  have b: "is_result raw (classify_builtin reg raw a)" for raw a
    unfolding classify_builtin_def classify_v4_def classify_v6_def Let_def by (intro is_result_intros)
  have "classify_ip reg ip cidrs = (case ip_address (py_strip ip) of
        None \<Rightarrow> ip_result_of (py_strip ip) 0 ''invalid'' None None
      | Some a \<Rightarrow>
          (case first_net a (parse_internal_cidrs cidrs) of
             None \<Rightarrow> classify_builtin reg (py_strip ip) a
           | Some net \<Rightarrow> ip_result_of (py_strip ip) (version_number (ip_version a)) ''internal_network''
               (Some (print_net net)) (Some ''configured_cidr'')))"
    using False unfolding classify_ip_def Let_def by (simp only: if_False)
  also have "is_result (py_strip ip) \<dots>" by (intro is_result_intros b)
  finally show ?thesis .
qed

lemma classify_shape:
  "\<exists>v scope m s. classify_ip reg ip cidrs = ip_result_of (py_strip ip) v scope m s"
  using classify_is_result[of ip reg cidrs] unfolding is_result_def .

lemma internal_not_public: "scope \<in> set INTERNAL_SCOPES \<Longrightarrow> scope \<noteq> ''public_internet'' \<and> scope \<noteq> ''invalid''"
  by (auto simp: INTERNAL_SCOPES_def)

lemma classify_empty: "py_strip ip = [] \<Longrightarrow> ir_scope (classify_ip reg ip cidrs) = ''invalid''"
  by (simp add: classify_ip_def)

lemma flow_locality_cases:
  assumes "missing \<Longrightarrow> \<not> (sp \<and> di) \<and> \<not> (si \<and> dp) \<and> \<not> (si \<and> di)" "\<not> (sp \<and> si)" "\<not> (dp \<and> di)"
  shows "(sp \<and> di) = (flow_locality missing sp si dp di = ''public_to_internal'')"
    "(si \<and> dp) = (flow_locality missing sp si dp di = ''internal_to_public'')"
    "(si \<and> di) = (flow_locality missing sp si dp di = ''internal_to_internal'')"
  using assms by (cases missing; cases sp; cases si; cases dp; cases di; simp add: flow_locality_def)+

text \<open>
  C0: The direction flags of a flow agree with its locality, and at most one of them is set.
\<close>

theorem flow_flags_agree:
  "case classify_flow reg src dst cidrs of (_, _, f) \<Rightarrow>
     (ff_external_to_internal f \<longleftrightarrow> ff_locality f = ''public_to_internal'') \<and>
     (ff_internal_to_public f \<longleftrightarrow> ff_locality f = ''internal_to_public'') \<and>
     (ff_internal_to_internal f \<longleftrightarrow> ff_locality f = ''internal_to_internal'') \<and>
     \<not> (ff_external_to_internal f \<and> ff_internal_to_public f) \<and>
     \<not> (ff_external_to_internal f \<and> ff_internal_to_internal f) \<and>
     \<not> (ff_internal_to_public f \<and> ff_internal_to_internal f)"
proof -
  obtain v1 sc1 m1 s1 where a: "classify_ip reg src cidrs = ip_result_of (py_strip src) v1 sc1 m1 s1"
    using classify_shape by blast
  obtain v2 sc2 m2 s2 where b: "classify_ip reg dst cidrs = ip_result_of (py_strip dst) v2 sc2 m2 s2"
    using classify_shape by blast
  have e: "py_strip src = [] \<Longrightarrow> sc1 = ''invalid''" "py_strip dst = [] \<Longrightarrow> sc2 = ''invalid''"
    using classify_empty[of src reg cidrs] classify_empty[of dst reg cidrs] by (simp_all add: a b)
  have i: "''invalid'' \<notin> set INTERNAL_SCOPES" "''public_internet'' \<notin> set INTERNAL_SCOPES"
    using internal_not_public by blast+
  define sp si dp di where "sp = (sc1 = ''public_internet'')" and "si = (sc1 \<in> set INTERNAL_SCOPES)"
    and "dp = (sc2 = ''public_internet'')" and "di = (sc2 \<in> set INTERNAL_SCOPES)"
  define missing where "missing =
    ((py_strip src = [] \<or> sc1 = ''invalid'') \<or> (py_strip dst = [] \<or> sc2 = ''invalid''))"
  have x: "\<not> (sp \<and> si)" "\<not> (dp \<and> di)" using i by (auto simp: sp_def si_def dp_def di_def)
  have "missing \<Longrightarrow> \<not> sp \<and> \<not> si \<or> \<not> dp \<and> \<not> di"
    using e i unfolding missing_def sp_def si_def dp_def di_def by (elim disjE) simp_all
  then have m: "missing \<Longrightarrow> \<not> (sp \<and> di) \<and> \<not> (si \<and> dp) \<and> \<not> (si \<and> di)" by blast
  note cs = flow_locality_cases[OF m x, symmetric]
  have "classify_flow reg src dst cidrs = (ip_result_of (py_strip src) v1 sc1 m1 s1,
      ip_result_of (py_strip dst) v2 sc2 m2 s2,
      \<lparr>ff_locality = flow_locality missing sp si dp di, ff_src_internal = si, ff_dst_internal = di,
       ff_external_to_internal = (sp \<and> di), ff_internal_to_internal = (si \<and> di),
       ff_internal_to_public = (si \<and> dp)\<rparr>)"
    unfolding classify_flow_def a b Let_def sp_def si_def dp_def di_def missing_def by simp
  then show ?thesis using x by (simp add: cs)
qed

end
