(* ===== verification/Detection_Match.thy ===== *)
theory Detection_Match
  imports Detection_Sql Ip_Address
begin

text \<open>
  Version 1 rules at run time (\<open>workers/intelligence/rules/conditions.py\<close>): the filters of a match,
  the test of a threshold, the key of an alert, selectors of suppressions and overrides, and the
  pure tests of the heuristics on hosts and protocols.

  Numbers are as in \<open>Detection_Fields\<close>: where \<open>float(val)\<close> is not an integer value the model stops
  with \<open>FloatOutsideModel\<close>.
\<close>

section \<open>Filters of a match\<close>

definition core_suffixes :: "(string \<times> string) list" where
  "core_suffixes =
     [(''_not_in'', ''not_in''), (''_in'', ''in''), (''_gte'', ''gte''), (''_gt'', ''gt''),
      (''_lte'', ''lte''), (''_lt'', ''lt''), (''_neq'', ''neq'')]"

definition extra_suffixes :: "(string \<times> string) list" where
  "extra_suffixes =
     [(''_not_contains'', ''not_contains''), (''_contains_all'', ''contains_all''), (''_contains'', ''contains''),
      (''_startswith'', ''startswith''), (''_endswith'', ''endswith''), (''_not_in'', ''not_in''), (''_in'', ''in''),
      (''_gte'', ''gte''), (''_gt'', ''gt''), (''_lte'', ''lte''), (''_lt'', ''lt''), (''_neq'', ''neq'')]"

definition parse_field_op :: "string \<Rightarrow> (string \<times> string) option" where
  "parse_field_op raw_key = split_by core_suffixes raw_key"

definition parse_extra_key :: "string \<Rightarrow> string \<times> string" where
  "parse_extra_key raw_key =
     (let k = drop (length ''extra_'') raw_key in
      case split_by extra_suffixes k of Some r \<Rightarrow> r | None \<Rightarrow> (k, ''eq''))"

definition not_none :: "pyval list \<Rightarrow> pyval list" where
  "not_none = filter (\<lambda>x. x \<noteq> PNone)"

text \<open>\<open>col IN items\<close>, or null or not in it.\<close>

definition membership_filter :: "string \<Rightarrow> sql_col \<Rightarrow> pyval list \<Rightarrow> sql_expr" where
  "membership_filter op col items =
     (if op = ''in'' then SIn col items else SOr [SIsNull col, SNot (SIn col items)])"

text \<open>The items that \<open>int(x)\<close> accepts, and \<open>str(x)\<close> of the items.\<close>

definition int_items :: "pyval list \<Rightarrow> pyval list" where
  "int_items items = concat (map (\<lambda>x. case int_of_py x of Inr i \<Rightarrow> [PInt i] | Inl _ \<Rightarrow> []) items)"

definition str_items :: "pyval list \<Rightarrow> pyval list" where
  "str_items items = map (\<lambda>x. PStr (py_str x)) items"

definition order_symbol :: "string \<Rightarrow> string" where
  "order_symbol op = (if op = ''gte'' then ''>='' else if op = ''gt'' then ''>''
     else if op = ''lte'' then ''<='' else ''<'')"

definition core_filters :: "string \<Rightarrow> string \<Rightarrow> pyval \<Rightarrow> detection_error + sql_expr list" where
  "core_filters base_field op val =
     (let col = EventColumn base_field in
      if op = ''in'' \<or> op = ''not_in'' then
        (let items = not_none (listify val);
             cast_items = (if base_field \<in> set [''dst_port'', ''src_port'', ''bytes''] then int_items items
                           else str_items items)
         in Inr (if cast_items = [] then [] else [membership_filter op col cast_items]))
      else if op \<in> set [''gte'', ''gt'', ''lte'', ''lt''] then
        (case py_float val of
           NotAFloat \<Rightarrow> Inr []
         | FloatOutside \<Rightarrow> Inl (FloatOutsideModel (py_str val))
         | FloatIs i \<Rightarrow>
             Inr [SCompare (order_symbol op) (if base_field = ''bytes'' then CastFloat col else col) (PInt i)])
      else Inr [sql_neq col val])"

text \<open>The lower-case terms of a text operator, blank ones left out.\<close>

definition match_terms :: "pyval \<Rightarrow> string list" where
  "match_terms val = filter (\<lambda>t. t \<noteq> []) (map (\<lambda>x. py_lower (py_strip (py_str x))) (listify val))"

definition text_filters :: "sql_col \<Rightarrow> string \<Rightarrow> string list \<Rightarrow> sql_expr list" where
  "text_filters col op terms =
     (if terms = [] then []
      else let parts = map (\<lambda>t. SLike (LowerOf col)
                 (if op \<in> set [''contains'', ''not_contains'', ''contains_all''] then ''%'' @ t @ ''%''
                  else if op = ''startswith'' then t @ ''%'' else ''%'' @ t)) terms
           in if op = ''contains'' then [SOr parts]
              else if op = ''contains_all'' then [SAnd parts]
              else if op = ''not_contains'' then [SOr [SIsNull col, SAnd (map SNot parts)]]
              else [SOr parts])"

definition extra_filters :: "string \<Rightarrow> pyval \<Rightarrow> detection_error + sql_expr list" where
  "extra_filters key val =
     (case parse_extra_key key of (extra_key, op) \<Rightarrow>
       let text_col = JsonText extra_key in
       if op = ''in'' \<or> op = ''not_in'' then
         (let items = str_items (not_none (listify val)) in
          Inr (if items = [] then [] else [membership_filter op text_col items]))
       else if op \<in> set [''gte'', ''gt'', ''lte'', ''lt''] then
         (case py_float val of
            NotAFloat \<Rightarrow> Inr []
          | FloatOutside \<Rightarrow> Inl (FloatOutsideModel (py_str val))
          | FloatIs i \<Rightarrow> Inr [SNumericText text_col, SCompare (order_symbol op) (CastFloat text_col) (PInt i)])
       else if op = ''neq'' then
         Inr [SCompare ''!='' text_col
           (PStr (case val of PBool _ \<Rightarrow> py_lower (py_str val) | _ \<Rightarrow> py_str val))]
       else if op \<in> set [''contains'', ''not_contains'', ''contains_all'', ''startswith'', ''endswith''] then
         Inr (text_filters text_col op (match_terms val))
       else Inr [SCompare ''=='' text_col
         (PStr (case val of PBool b \<Rightarrow> if b then ''true'' else ''false'' | _ \<Rightarrow> py_str val))])"

definition match_key_filters :: "string \<Rightarrow> pyval \<Rightarrow> detection_error + sql_expr list" where
  "match_key_filters key val =
     (if key \<in> set supported_runtime_event_fields then Inr [sql_eq (EventColumn key) val]
      else case parse_field_op key of
        Some (base_field, op) \<Rightarrow>
          if base_field \<in> set supported_runtime_event_fields then core_filters base_field op val
          else if \<not> py_startswith key ''extra_'' then Inr [] else extra_filters key val
      | None \<Rightarrow> if \<not> py_startswith key ''extra_'' then Inr [] else extra_filters key val)"

fun match_loop :: "sql_expr list \<Rightarrow> (string \<times> pyval) list \<Rightarrow> detection_error + sql_expr list" where
  "match_loop filters [] = Inr filters"
| "match_loop filters ((key, val) # rest) =
     ebind (match_key_filters key val) (\<lambda>fs. match_loop (filters @ fs) rest)"

definition time_filters :: "int \<Rightarrow> int \<Rightarrow> sql_expr list" where
  "time_filters since until =
     [SCompare ''>='' (EventColumn ''timestamp'') (PTime since),
      SCompare ''<'' (EventColumn ''timestamp'') (PTime until)]"

definition build_match_filters :: "(string \<times> pyval) list \<Rightarrow> int \<Rightarrow> int \<Rightarrow> detection_error + sql_expr list" where
  "build_match_filters match since until = match_loop (time_filters since until) match"

section \<open>Thresholds and alert keys\<close>

definition compare_int :: "string \<Rightarrow> int \<Rightarrow> int \<Rightarrow> bool" where
  "compare_int op v target =
     (if op = ''>='' then v \<ge> target else if op = ''>'' then v > target
      else if op = ''<='' then v \<le> target else if op = ''<'' then v < target
      else if op = ''=='' then v = target else if op = ''!='' then v \<noteq> target
      else v \<ge> target)"

definition evaluate_condition :: "int \<Rightarrow> (string \<times> pyval) list \<Rightarrow> py_error + bool" where
  "evaluate_condition v condition =
     (case py_or (pget condition ''operator'') (PStr ''>='') of
        PStr op \<Rightarrow> ebind (int_or (pget condition ''value'') 0) (\<lambda>target. Inr (compare_int (py_strip op) v target))
      | _ \<Rightarrow> Inl AttributeError)"

definition key_or_match :: "(string \<times> pyval) list \<Rightarrow> (string \<times> pyval) list \<Rightarrow> string \<Rightarrow> pyval" where
  "key_or_match group_key match field =
     (if dict_get group_key field \<noteq> None then pget group_key field else pget match field)"

text \<open>A port that \<open>int()\<close> rejects becomes \<open>None\<close>.\<close>

definition extract_alert_key ::
  "(string \<times> pyval) list \<Rightarrow> (string \<times> pyval) list \<Rightarrow> pyval \<times> pyval \<times> int option" where
  "extract_alert_key group_key match =
     (let dst_port = key_or_match group_key match ''dst_port'' in
      (key_or_match group_key match ''src_ip'', key_or_match group_key match ''dst_ip'',
       if dst_port = PNone then None
       else case int_of_py dst_port of Inr i \<Rightarrow> Some i | Inl _ \<Rightarrow> None))"

section \<open>Selectors\<close>

text \<open>The normal form of a text; a set of texts is the list of its members.\<close>

definition as_optional_str :: "pyval \<Rightarrow> string" where
  "as_optional_str v = py_lower (py_strip (str_or v []))"

text \<open>\<open>_as_str_set\<close>, and \<open>_as_ctx_list\<close>, which does the same.\<close>

definition as_str_set :: "pyval \<Rightarrow> string list" where
  "as_str_set v =
     (case v of
        PStr s \<Rightarrow> filter (\<lambda>s. s \<noteq> []) [as_optional_str v]
      | PList xs \<Rightarrow> filter (\<lambda>s. s \<noteq> []) (map as_optional_str xs)
      | _ \<Rightarrow> [])"

definition as_int_set :: "pyval \<Rightarrow> int list" where
  "as_int_set v =
     (case v of
        PInt i \<Rightarrow> [i]
      | PBool b \<Rightarrow> [if b then 1 else 0]
      | PList xs \<Rightarrow> concat (map (\<lambda>x. case int_of_py x of Inr i \<Rightarrow> [i] | Inl _ \<Rightarrow> []) xs)
      | _ \<Rightarrow> [])"

definition cidr_list :: "pyval \<Rightarrow> pyval list" where
  "cidr_list v = (case v of PStr _ \<Rightarrow> [v] | PList xs \<Rightarrow> xs | _ \<Rightarrow> [])"

definition ip_in_cidrs :: "pyval \<Rightarrow> pyval \<Rightarrow> bool" where
  "ip_in_cidrs ip_value cidrs =
     (case ip_address (py_strip (str_or ip_value [])) of
        None \<Rightarrow> False
      | Some a \<Rightarrow> list_ex (\<lambda>c. case ip_network (py_strip (py_str c)) of
            Some net \<Rightarrow> ip_in_net a net | None \<Rightarrow> False) (cidr_list cidrs))"

definition meets :: "'a list \<Rightarrow> 'a list \<Rightarrow> bool" where
  "meets xs ys = list_ex (\<lambda>x. x \<in> set ys) xs"

text \<open>
  One check of a selector: \<open>None\<close> when it names no criterion, otherwise whether the context meets it.
  The three local functions of \<open>_selector_matches\<close>, and the test of the networks.
\<close>

definition check_str_set :: "(string \<times> pyval) list \<Rightarrow> (string \<times> pyval) list \<Rightarrow> string \<Rightarrow> string list \<Rightarrow> bool option" where
  "check_str_set selector c sel_key ctx_keys =
     (let expected = as_str_set (pget selector sel_key);
          actual = filter (\<lambda>x. x \<noteq> []) (map (\<lambda>k. as_optional_str (pget c k)) ctx_keys)
      in if expected = [] then None else Some (meets actual expected))"

definition context_int :: "(string \<times> pyval) list \<Rightarrow> string \<Rightarrow> int list" where
  "context_int c k =
     (let v = pget c k in
      if v = PNone \<or> v = PStr [] then [] else case int_of_py v of Inr i \<Rightarrow> [i] | Inl _ \<Rightarrow> [])"

definition check_int_set :: "(string \<times> pyval) list \<Rightarrow> (string \<times> pyval) list \<Rightarrow> string \<Rightarrow> string list \<Rightarrow> bool option" where
  "check_int_set selector c sel_key ctx_keys =
     (let expected = as_int_set (pget selector sel_key);
          actual = concat (map (context_int c) ctx_keys)
      in if expected = [] then None else Some (meets actual expected))"

definition check_overlap :: "(string \<times> pyval) list \<Rightarrow> (string \<times> pyval) list \<Rightarrow> string \<Rightarrow> string list \<Rightarrow> bool option" where
  "check_overlap selector c sel_key ctx_keys =
     (let expected = as_str_set (pget selector sel_key);
          actual = concat (map (\<lambda>k. as_str_set (pget c k)) ctx_keys)
      in if expected = [] then None else Some (meets actual expected))"

definition check_cidrs :: "(string \<times> pyval) list \<Rightarrow> (string \<times> pyval) list \<Rightarrow> string \<Rightarrow> string \<Rightarrow> bool option" where
  "check_cidrs selector c sel_key ctx_key =
     (let cidrs = pget selector sel_key in
      if \<not> truthy cidrs then None else Some (ip_in_cidrs (pget c ctx_key) cidrs))"

definition str_checks :: "(string \<times> string list) list" where
  "str_checks =
     [(''src_ips'', [''src_ip'']), (''dst_ips'', [''dst_ip'']), (''agent_ids'', [''agent_id'']),
      (''protos'', [''proto'']), (''event_types'', [''event_type'']), (''rule_ids'', [''rule_id'']),
      (''path_categories'', [''path_category'', ''fim_category'']), (''usernames'', [''username'']),
      (''target_users'', [''target_user'']), (''proc_names'', [''proc_name'']),
      (''proc_parent_names'', [''proc_parent_name'']), (''hostnames'', [''agent_hostname'', ''hostname'']),
      (''agent_hostnames'', [''agent_hostname'', ''hostname'']),
      (''host_roles'', [''agent_host_role'', ''host_role'']), (''agent_roles'', [''agent_host_role'', ''host_role'']),
      (''environments'', [''agent_environment'', ''environment'']), (''envs'', [''agent_environment'', ''environment''])]"

definition int_checks :: "(string \<times> string list) list" where
  "int_checks = [(''dst_ports'', [''dst_port'']), (''src_ports'', [''src_port''])]"

definition overlap_checks :: "(string \<times> string list) list" where
  "overlap_checks = [(''tags'', [''agent_tags'', ''tags'']), (''agent_tags'', [''agent_tags'', ''tags''])]"

definition cidr_checks :: "(string \<times> string) list" where
  "cidr_checks = [(''src_cidrs'', ''src_ip''), (''dst_cidrs'', ''dst_ip'')]"

definition known_keys :: "string list" where
  "known_keys = map fst str_checks @ map fst int_checks @ map fst overlap_checks @ map fst cidr_checks"

text \<open>A key that is not known is compared with the value of the context under the same name.\<close>

definition check_other :: "(string \<times> pyval) list \<Rightarrow> string \<times> pyval \<Rightarrow> bool option" where
  "check_other c kv =
     (case kv of (k, expected) \<Rightarrow>
       if k \<in> set known_keys then None
       else case expected of
         PDict _ \<Rightarrow> None
       | PList _ \<Rightarrow> Some (as_optional_str (pget c k) \<in> set (as_str_set expected))
       | _ \<Rightarrow> Some (as_optional_str (pget c k) = as_optional_str expected))"

definition selector_checks :: "(string \<times> pyval) list \<Rightarrow> (string \<times> pyval) list \<Rightarrow> bool option list" where
  "selector_checks selector c =
     map (\<lambda>(k, ks). check_str_set selector c k ks) str_checks @
     map (\<lambda>(k, ks). check_int_set selector c k ks) int_checks @
     map (\<lambda>(k, ks). check_overlap selector c k ks) overlap_checks @
     map (\<lambda>(k, ck). check_cidrs selector c k ck) cidr_checks @
     map (check_other c) selector"

text \<open>The checks are run in order with the counter \<open>checks\<close>; the first that fails ends the function.\<close>

fun run_checks :: "nat \<Rightarrow> bool option list \<Rightarrow> bool" where
  "run_checks checks [] = (checks > 0)"
| "run_checks checks (None # rest) = run_checks checks rest"
| "run_checks checks (Some ok # rest) = (if ok then run_checks (checks + 1) rest else False)"

definition selector_matches :: "pyval \<Rightarrow> pyval \<Rightarrow> bool" where
  "selector_matches selector ctx =
     (case selector of
        PDict (s # ss) \<Rightarrow> run_checks 0 (selector_checks (s # ss) (case ctx of PDict c \<Rightarrow> c | _ \<Rightarrow> []))
      | _ \<Rightarrow> False)"

section \<open>Hosts and protocols\<close>

definition is_unusual_app_protocol_use :: "string \<Rightarrow> int \<Rightarrow> string \<Rightarrow> bool" where
  "is_unusual_app_protocol_use app_proto dst_port proto =
     (let p = py_lower (py_strip app_proto); tr = py_lower (py_strip proto); d = dst_port in
      if p = [] \<or> d \<le> 0 then False
      else if p = ''dns'' \<and> d \<notin> {53, 5353, 853} then True
      else if p = ''http'' \<and> d \<in> {22, 53} then True
      else if p = ''tls'' \<and> d \<in> {53, 123, 1900} then True
      else if p = ''quic'' \<and> tr \<noteq> ''udp'' then True
      else p = ''dtls'' \<and> tr \<noteq> ''udp'')"

text \<open>\<open>str.isdigit\<close> and \<open>str.isalnum\<close> on the code points 0 to 255.\<close>

definition py_isdigit :: "char \<Rightarrow> bool" where
  "py_isdigit c = (is_ascii_digit c \<or> code_point c \<in> {178, 179, 185})"

definition py_isalnum :: "char \<Rightarrow> bool" where
  "py_isalnum c =
     (let n = code_point c in
      is_ascii_alpha c \<or> py_isdigit c \<or> n \<in> {170, 181, 186, 188, 189, 190} \<or>
      192 \<le> n \<and> n \<noteq> 215 \<and> n \<noteq> 247)"

text \<open>
  The share of digits is compared in floats with 0.35 in the code; the model compares 20 times the
  digits with 7 times the characters. A host of fewer than 2^40 characters cannot tell the two apart:
  quotients of such numbers other than 7/20 are further from 7/20 than the rounding of either side.
\<close>

definition host_suspicion_reason :: "string \<Rightarrow> string" where
  "host_suspicion_reason host =
     (let h = strip_if (\<lambda>c. c = CHR ''.'') (py_lower (py_strip host));
          labels = filter (\<lambda>x. x \<noteq> []) (py_split (CHR ''.'') h);
          alpha_num = length (filter py_isalnum h);
          digits = length (filter py_isdigit h)
      in if h = [] then []
         else if length labels \<ge> 6 then ''many_labels''
         else if length h \<ge> 72 then ''long_host''
         else if alpha_num \<ge> 20 \<and> 20 * digits \<ge> 7 * alpha_num then ''digit_heavy_host''
         else [])"

section \<open>Properties\<close>

lemma match_loop_eq:
  "match_loop filters match = ebind (emap (\<lambda>(k, v). match_key_filters k v) match) (\<lambda>fs. Inr (filters @ concat fs))"
proof (induction match arbitrary: filters)
  case (Cons kv match)
  then show ?case
    by (cases kv; cases "match_key_filters (fst kv) (snd kv)"; cases "emap (\<lambda>(k, v). match_key_filters k v) match") simp_all
qed simp

lemma selects_append: "selects ops (fs @ gs) row \<longleftrightarrow> selects ops fs row \<and> selects ops gs row"
  by (simp add: selects_def)

text \<open>
  C0: The filters of a version 1 match are the conjunction of the time range and of what each key
  stands for on its own: no key changes the meaning of another.
\<close>

theorem match_filters_conjunction:
  "case build_match_filters match since until of
     Inl e \<Rightarrow> (\<exists>kv \<in> set match. match_key_filters (fst kv) (snd kv) = Inl e)
   | Inr fs \<Rightarrow> selects ops fs row \<longleftrightarrow> selects ops (time_filters since until) row \<and>
       list_all (\<lambda>(k, v). case match_key_filters k v of Inr gs \<Rightarrow> selects ops gs row | Inl _ \<Rightarrow> False) match"
proof -
  have "case emap (\<lambda>(k, v). match_key_filters k v) match of
     Inl e \<Rightarrow> (\<exists>kv \<in> set match. match_key_filters (fst kv) (snd kv) = Inl e)
   | Inr gss \<Rightarrow> selects ops (concat gss) row \<longleftrightarrow>
       list_all (\<lambda>(k, v). case match_key_filters k v of Inr gs \<Rightarrow> selects ops gs row | Inl _ \<Rightarrow> False) match"
  proof (induction match)
    case (Cons kv match)
    then show ?case
      by (cases kv; cases "match_key_filters (fst kv) (snd kv)"; cases "emap (\<lambda>(k, v). match_key_filters k v) match")
        (auto simp: selects_append)
  qed (simp add: selects_def)
  then show ?thesis
    unfolding build_match_filters_def match_loop_eq
    by (cases "emap (\<lambda>(k, v). match_key_filters k v) match") (auto simp: selects_append)
qed

lemma membership_partition:
  assumes "list_all (\<lambda>v. v \<noteq> PNone) items"
  shows "sql_eval ops row (membership_filter ''not_in'' col items) = Some True \<longleftrightarrow>
    sql_eval ops row (membership_filter ''in'' col items) \<noteq> Some True"
proof (cases "col_value ops row col")
  case None
  then show ?thesis
    by (cases items) (auto simp: membership_filter_def k_pair_True k_or_def)
next
  case (Some x)
  then have "null_free ops row (SIn col items)" using assms by simp
  then have "sql_eval ops row (SIn col items) \<noteq> None" by (rule null_free_known)
  then show ?thesis
    using Some by (cases "sql_eval ops row (SIn col items)")
      (simp_all add: membership_filter_def k_pair_True k_not_True_iff k_not_def del: sql_eval.simps(4))
qed

text \<open>The keys \<open>f_in\<close> and \<open>f_not_in\<close> of a core column reach the membership filter.\<close>

lemma membership_keys:
  "list_all (\<lambda>f. f @ ''_in'' \<notin> set supported_runtime_event_fields \<and>
     f @ ''_not_in'' \<notin> set supported_runtime_event_fields \<and>
     parse_field_op (f @ ''_in'') = Some (f, ''in'') \<and>
     parse_field_op (f @ ''_not_in'') = Some (f, ''not_in'')) supported_runtime_event_fields"
  by code_simp

lemma int_items_not_none: "list_all (\<lambda>v. v \<noteq> PNone) (int_items items)"
  by (auto simp: int_items_def list_all_iff split: sum.splits)

lemma str_items_not_none: "list_all (\<lambda>v. v \<noteq> PNone) (str_items items)"
  by (auto simp: str_items_def list_all_iff)

text \<open>
  C0: On a core column, \<open>in\<close> and \<open>not_in\<close> with the same values split the events in two, the events
  without the column included; or neither of them filters, when no value is usable.
\<close>

theorem in_not_in_partition:
  assumes "f \<in> set supported_runtime_event_fields"
  shows "\<exists>fs gs. match_key_filters (f @ ''_in'') v = Inr fs \<and> match_key_filters (f @ ''_not_in'') v = Inr gs \<and>
    (fs = [] \<and> gs = [] \<or> (\<forall>ops row. selects ops gs row \<longleftrightarrow> \<not> selects ops fs row))"
proof -
  have k: "f @ ''_in'' \<notin> set supported_runtime_event_fields" "f @ ''_not_in'' \<notin> set supported_runtime_event_fields"
    "parse_field_op (f @ ''_in'') = Some (f, ''in'')" "parse_field_op (f @ ''_not_in'') = Some (f, ''not_in'')"
    using list_all_memD[OF membership_keys assms] by blast+
  let ?items = "if f \<in> set [''dst_port'', ''src_port'', ''bytes''] then int_items (not_none (listify v))
    else str_items (not_none (listify v))"
  have c: "core_filters f op v = Inr (if ?items = [] then [] else [membership_filter op (EventColumn f) ?items])"
    if "op = ''in'' \<or> op = ''not_in''" for op
    using that by (simp only: core_filters_def Let_def if_True)
  have m: "match_key_filters (f @ ''_in'') v = core_filters f ''in'' v"
    "match_key_filters (f @ ''_not_in'') v = core_filters f ''not_in'' v"
    using k assms unfolding match_key_filters_def by simp_all
  have n: "list_all (\<lambda>v. v \<noteq> PNone) ?items" using int_items_not_none str_items_not_none by simp
  have p: "selects ops [membership_filter ''not_in'' (EventColumn f) ?items] row \<longleftrightarrow>
      \<not> selects ops [membership_filter ''in'' (EventColumn f) ?items] row" for ops row
    using membership_partition[OF n, of ops row "EventColumn f"] by (simp only: selects_def list.pred_inject simp_thms)
  show ?thesis
  proof (cases "?items = []")
    case True
    then show ?thesis unfolding m using c[of "''in''"] c[of "''not_in''"] by simp
  next
    case False
    have "core_filters f ''in'' v = Inr [membership_filter ''in'' (EventColumn f) ?items]"
      "core_filters f ''not_in'' v = Inr [membership_filter ''not_in'' (EventColumn f) ?items]"
      using c[of "''in''"] c[of "''not_in''"] False by (simp_all only: simp_thms if_False)
    with p show ?thesis unfolding m by blast
  qed
qed

lemma in_not_in_partition_witness:
  "\<exists>fs gs. match_key_filters (''dst_port'' @ ''_in'') (PList [PInt 22, PStr ''443'']) = Inr fs \<and>
    match_key_filters (''dst_port'' @ ''_not_in'') (PList [PInt 22, PStr ''443'']) = Inr gs \<and>
    (fs = [] \<and> gs = [] \<or> (\<forall>ops row. selects ops gs row \<longleftrightarrow> \<not> selects ops fs row))"
  by (rule in_not_in_partition) (simp add: supported_runtime_event_fields_def)

text \<open>
  C0: A version 1 match on a text operator of a core column passes the validation and normal form
  unchanged, and then filters nothing: the rule matches every event of its time range.
\<close>

lemma text_key_facts:
  "''dns_qname_contains'' \<notin> set supported_runtime_event_fields" "parse_field_op ''dns_qname_contains'' = None"
  "\<not> py_startswith ''dns_qname_contains'' ''extra_''" "py_strip ''dns_qname_contains'' = ''dns_qname_contains''"
  "\<not> is_legacy_extra_match_key ''dns_qname_contains''"
  "split_operator_suffix ''dns_qname_contains'' = (''dns_qname'', ''contains'')"
  "ensure_field_operator ''contains'' = Inr ''contains''" "resolve_runtime_field ''dns_qname'' = Inr ''dns_qname''"
  "join_operator_suffix ''dns_qname'' ''contains'' = Inr ''dns_qname_contains''"
  "''dns_qname'' \<in> set supported_runtime_event_fields"
  by code_simp+

theorem validated_match_without_filter:
  "\<exists>key. normalize_match_fields (PDict [(key, v)]) = Inr [(key, v)] \<and>
     validate_v1_match rule_id (PDict [(key, v)]) = Inr () \<and>
     build_match_filters [(key, v)] since until = Inr (time_filters since until)"
proof -
  let ?k = "''dns_qname_contains''"
  have n: "normalize_match_fields (PDict [(?k, v)]) = Inr [(?k, v)]"
    unfolding normalize_match_fields_def pyval.case normalize_match_loop.simps Let_def text_key_facts(4,6) prod.case
      text_key_facts(7,8,9) ebind_simps using text_key_facts(5) by simp
  have v: "validate_v1_match rule_id (PDict [(?k, v)]) = Inr ()"
    unfolding validate_v1_match_def n using text_key_facts(5,6,10) by simp
  have "match_key_filters ?k v = Inr []"
    unfolding match_key_filters_def text_key_facts(2) using text_key_facts(1,3) by (simp only: if_False option.case simp_thms if_True)
  then have "build_match_filters [(?k, v)] since until = Inr (time_filters since until)"
    by (simp add: build_match_filters_def)
  with n v show ?thesis by blast
qed

lemma run_checks_iff:
  "run_checks n cs \<longleftrightarrow> Some False \<notin> set cs \<and> (n > 0 \<or> Some True \<in> set cs)"
  by (induction n cs rule: run_checks.induct) auto

text \<open>
  C0: A selector matches when it names at least one criterion and the context meets every criterion it
  names; in particular an empty selector, or one whose lists are all empty, matches nothing.
\<close>

theorem selector_matches_iff:
  "selector_matches (PDict selector) (PDict ctx) \<longleftrightarrow>
     Some True \<in> set (selector_checks selector ctx) \<and> Some False \<notin> set (selector_checks selector ctx)"
proof (cases selector)
  case Nil
  have "check_str_set [] ctx k ks = None" "check_int_set [] ctx k ks = None" "check_overlap [] ctx k ks = None"
    "check_cidrs [] ctx k ck = None" for k ks ck
    by (simp_all add: check_str_set_def check_int_set_def check_overlap_def check_cidrs_def pget_def
        as_str_set_def as_int_set_def)
  with Nil show ?thesis by (auto simp: selector_matches_def selector_checks_def)
next
  case (Cons s ss)
  then show ?thesis by (auto simp: selector_matches_def run_checks_iff)
qed

lemma cidr_membership_eq:
  assumes "0 \<le> n" "n < 4294967296" "0 \<le> m" "m < 4294967296" "p \<le> 32"
  shows "ip_in_cidrs (PStr (print_v4 n)) (PStr (print_v4 m @ ''/'' @ nat_str p)) \<longleftrightarrow>
    n div 2 ^ (32 - p) = m div 2 ^ (32 - p)"
proof -
  let ?s = "print_v4 m @ ''/'' @ nat_str p"
  have ends: "\<not> py_isspace (hd ?s)" "\<not> py_isspace (last ?s)"
  proof -
    have sp: "\<not> py_isspace c" if "is_ascii_digit c \<or> c = CHR ''.''" for c
      using that by (auto simp: is_ascii_digit_def py_isspace_def code_point_def)
    show "\<not> py_isspace (hd ?s)"
      using sp print_v4_chars[of m] print_v4_strip(2)[of m] by (auto simp: list_all_iff)
    show "\<not> py_isspace (last ?s)"
      using sp nat_str_digits[of p] by (auto simp: last_append)
  qed
  then have "py_strip ?s = ?s" unfolding py_strip_def by (intro strip_if_no_ends) simp
  moreover have "str_or (PStr (print_v4 n)) [] = print_v4 n" by (simp add: print_v4_strip)
  moreover have "(2::int) ^ (32 - p) > 0" by simp
  ultimately show ?thesis
    using ip_address_print_v4[OF assms(1,2)] ip_network_print_v4[OF assms(3,4,5)]
    by (simp add: ip_in_cidrs_def cidr_list_def print_v4_strip ip_in_net_def clear_host_def max_prefix_def Let_def
        del: append_Cons)
qed

text \<open>
  C0: An IPv4 address is in a network of a selector exactly when the leading bits the prefix counts
  are the same, host bits in the network's text being ignored.
\<close>

theorem cidr_membership:
  assumes "0 \<le> n" "n < 4294967296" "0 \<le> m" "m < 4294967296" "p \<le> 32"
  shows "ip_in_cidrs (PStr (print_v4 n)) (PStr (print_v4 m @ ''/'' @ nat_str p)) \<longleftrightarrow>
    n div 2 ^ (32 - p) = m div 2 ^ (32 - p)"
  using assms by (rule cidr_membership_eq)

lemma cidr_membership_witness:
  "ip_in_cidrs (PStr (print_v4 3232235796)) (PStr (print_v4 3232235777 @ ''/'' @ nat_str 24)) \<longleftrightarrow>
    (3232235796::int) div 2 ^ (32 - 24) = 3232235777 div 2 ^ (32 - 24)"
  by (rule cidr_membership) simp_all

end
