(* ===== verification/Ueba_Lifecycle.thy ===== *)
theory Ueba_Lifecycle
  imports Py_Runtime
begin

text \<open>
  The lifecycle of behavioural detectors (\<open>features/ueba/lifecycle.py\<close>, with the queries of
  \<open>repository.py\<close> it uses, and the cycle of one detector in \<open>worker_runtime.py\<close>): baselines,
  findings with their evidence, detector states and runs, as rows of one database.

  Columns the code computes with are typed. Columns it only copies are kept by name, with values of
  an arbitrary type \<open>'v\<close>: a column that was never set is absent and has the default of the database.
  Datetimes are microseconds in UTC, which is what \<open>_normalize_dt\<close> makes of them. Row ids are counted
  up per table. The uniqueness and NOT NULL constraints of the database are not modelled, nor are
  failures of its flush and commit.
\<close>

section \<open>Rows\<close>

type_synonym utc = int
type_synonym 'v columns = "(string \<times> 'v) list"

record 'v ueba_baseline =
  ub_id :: nat
  ub_baseline_key :: string
  ub_columns :: "'v columns"
  ub_updated_at :: utc

record 'v ueba_finding =
  uf_id :: nat
  uf_dedup_key :: string
  uf_status :: string
  uf_closed_at :: "utc option"
  uf_first_seen_at :: "utc option"
  uf_last_seen_at :: "utc option"
  uf_window_started_at :: "utc option"
  uf_window_ended_at :: "utc option"
  uf_cooldown_until :: "utc option"
  uf_occurrence_count :: int
  uf_severity :: string
  uf_confidence :: int
  uf_risk_score :: int
  uf_reason_codes :: "string list"
  uf_explanation :: "'v columns"
  uf_updated_at :: utc
  uf_alert_id :: "int option"
  uf_columns :: "'v option columns"

record 'v ueba_evidence =
  ue_finding_id :: nat
  ue_observed_at :: "utc option"
  ue_columns :: "'v option columns"

record 'v detector_state =
  dt_detector_id :: string
  dt_detector_version :: "int option"
  dt_enabled :: bool
  dt_status :: string
  dt_consecutive_failures :: int
  dt_baseline_count :: int
  dt_mature_baseline_count :: int
  dt_open_findings :: int
  dt_last_run_at :: "utc option"
  dt_last_success_at :: "utc option"
  dt_last_error_at :: "utc option"
  dt_last_window_started_at :: "utc option"
  dt_last_window_ended_at :: "utc option"
  dt_error_type :: "string option"
  dt_error_message :: "string option"
  dt_context :: "'v columns"
  dt_updated_at :: utc

record run_counters =
  rc_scanned_events :: int
  rc_evaluated_entities :: int
  rc_baselines_created :: int
  rc_baselines_updated :: int
  rc_findings_created :: int
  rc_findings_updated :: int
  rc_alerts_created :: int
  rc_suppressions_applied :: int

record 'v detector_run =
  dr_id :: nat
  dr_detector_id :: string
  dr_detector_version :: "int option"
  dr_started_at :: utc
  dr_finished_at :: "utc option"
  dr_status :: string
  dr_window_started_at :: "utc option"
  dr_window_ended_at :: "utc option"
  dr_counters :: run_counters
  dr_duration_ms :: "int option"
  dr_error_type :: "string option"
  dr_error_message :: "string option"
  dr_context :: "'v columns"

record 'v ueba_db =
  db_baselines :: "'v ueba_baseline list"
  db_findings :: "'v ueba_finding list"
  db_evidence :: "'v ueba_evidence list"
  db_states :: "'v detector_state list"
  db_runs :: "'v detector_run list"

section \<open>Helpers\<close>

definition severity_rank :: "string \<Rightarrow> int" where
  "severity_rank s =
     (case dict_get [(''informational'', 0), (''low'', 1), (''medium'', 2), (''high'', 3), (''critical'', 4)] s of
        Some r \<Rightarrow> r | None \<Rightarrow> - 1)"

definition max_dt :: "utc option \<Rightarrow> utc option \<Rightarrow> utc option" where
  "max_dt l r = (case (l, r) of (None, _) \<Rightarrow> r | (_, None) \<Rightarrow> l | (Some a, Some b) \<Rightarrow> Some (max a b))"

definition min_dt :: "utc option \<Rightarrow> utc option \<Rightarrow> utc option" where
  "min_dt l r = (case (l, r) of (None, _) \<Rightarrow> r | (_, None) \<Rightarrow> l | (Some a, Some b) \<Rightarrow> Some (min a b))"

fun merge_codes_loop :: "string list \<Rightarrow> string list \<Rightarrow> string list" where
  "merge_codes_loop merged [] = merged"
| "merge_codes_loop merged (v # vs) =
     (let t = py_strip v in
      if t = [] \<or> t \<in> set merged then merge_codes_loop merged vs else merge_codes_loop (merged @ [t]) vs)"

definition merge_reason_codes :: "string list \<Rightarrow> string list \<Rightarrow> string list" where
  "merge_reason_codes existing incoming = merge_codes_loop [] (existing @ incoming)"

definition merge_dict :: "'v columns \<Rightarrow> 'v columns \<Rightarrow> 'v columns" where
  "merge_dict existing incoming = foldl (\<lambda>m (k, v). dict_set m k v) existing incoming"

definition or_default :: "string \<Rightarrow> string option \<Rightarrow> string" where
  "or_default d s = (case s of None \<Rightarrow> d | Some t \<Rightarrow> if t = [] then d else t)"

definition prefer_higher_severity :: "string \<Rightarrow> string option \<Rightarrow> string" where
  "prefer_higher_severity current incoming =
     (let current_norm = or_default ''medium'' (Some current);
          incoming_norm = or_default current_norm incoming
      in if severity_rank incoming_norm \<ge> severity_rank current_norm then incoming_norm else current_norm)"

definition or_zero :: "int option \<Rightarrow> int" where
  "or_zero i = (case i of None \<Rightarrow> 0 | Some n \<Rightarrow> n)"

text \<open>
  \<open>int(delta.total_seconds() * 1000)\<close>: the microseconds are divided by a million and the quotient
  multiplied by 1000 in floats. \<open>div_double a b\<close> is the double nearest to \<open>a / b\<close>, as a 53-bit number and
  the power of two it is divided by.
\<close>

definition div_double :: "nat \<Rightarrow> nat \<Rightarrow> nat \<times> nat" where
  "div_double a b =
     (let s0 = nat (53 - (int (bit_length a) - int (bit_length b)));
          s = (if a * 2 ^ s0 div b \<ge> 2 ^ 53 then s0 - 1 else s0);
          q = a * 2 ^ s div b; r = a * 2 ^ s mod b
      in (if 2 * r > b \<or> 2 * r = b \<and> odd q then q + 1 else q, s))"

definition duration_ms :: "utc \<Rightarrow> utc \<Rightarrow> int" where
  "duration_ms started_at finished_at =
     (if finished_at \<le> started_at then 0
      else case div_double (nat (finished_at - started_at)) 1000000 of
        (m, s) \<Rightarrow> int (round_to_double (m * 1000) div 2 ^ s))"

section \<open>Baselines\<close>

definition BASELINE_MUTABLE_FIELDS :: "string list" where
  "BASELINE_MUTABLE_FIELDS =
     [''detector_id'', ''detector_version'', ''agent_id'', ''entity_type'', ''entity_value'', ''metric_name'',
      ''bucket_key'', ''status'', ''sample_count'', ''warmup_started_at'', ''matured_at'', ''window_started_at'',
      ''window_ended_at'', ''last_observed_at'', ''expected_value'', ''dispersion'', ''lower_bound'', ''upper_bound'',
      ''confidence'', ''state'']"

definition fresh_id :: "('a \<Rightarrow> nat) \<Rightarrow> 'a list \<Rightarrow> nat" where
  "fresh_id f rows = Suc (foldl max 0 (map f rows))"

definition get_baseline_by_key :: "'v ueba_db \<Rightarrow> string \<Rightarrow> 'v ueba_baseline option" where
  "get_baseline_by_key db k = List.find (\<lambda>b. ub_baseline_key b = k) (db_baselines db)"

text \<open>The columns of the payload that are among \<open>names\<close> are set, in the order of \<open>names\<close>.\<close>

definition copy_fields :: "string list \<Rightarrow> 'v columns \<Rightarrow> 'v columns \<Rightarrow> 'v columns" where
  "copy_fields names payload columns =
     foldl (\<lambda>c f. case dict_get payload f of Some v \<Rightarrow> dict_set c f v | None \<Rightarrow> c) columns names"

definition upsert_baseline ::
  "utc \<Rightarrow> string \<Rightarrow> 'v columns \<Rightarrow> utc option \<Rightarrow> 'v ueba_db \<Rightarrow> ('v ueba_baseline \<times> bool) \<times> 'v ueba_db" where
  "upsert_baseline now baseline_key payload updated db =
     (let updated_at = (case updated of Some t \<Rightarrow> t | None \<Rightarrow> now) in
      case get_baseline_by_key db baseline_key of
        None \<Rightarrow>
          (let row = \<lparr>ub_id = fresh_id ub_id (db_baselines db), ub_baseline_key = baseline_key,
                 ub_columns = payload, ub_updated_at = updated_at\<rparr>
           in ((row, True), db\<lparr>db_baselines := db_baselines db @ [row]\<rparr>))
      | Some old \<Rightarrow>
          (let row = old\<lparr>ub_columns := copy_fields BASELINE_MUTABLE_FIELDS payload (ub_columns old),
                 ub_updated_at := updated_at\<rparr>
           in ((row, False),
               db\<lparr>db_baselines := map (\<lambda>b. if ub_id b = ub_id old then row else b) (db_baselines db)\<rparr>)))"

section \<open>Findings\<close>

text \<open>The keyword arguments of an observation; \<open>None\<close> is a missing argument.\<close>

record 'v observation =
  ob_dedup_key :: string
  ob_status :: "string option"
  ob_closed_at :: "utc option"
  ob_first_seen_at :: "utc option"
  ob_last_seen_at :: "utc option"
  ob_window_started_at :: "utc option"
  ob_window_ended_at :: "utc option"
  ob_cooldown_until :: "utc option"
  ob_occurrence_count :: "int option"
  ob_severity :: "string option"
  ob_confidence :: "int option"
  ob_risk_score :: "int option"
  ob_reason_codes :: "string list"
  ob_explanation :: "'v columns"
  ob_updated_at :: "utc option"
  ob_alert_id :: "int option"
  ob_columns :: "'v option columns"

definition FINDING_LATEST_FIELDS :: "string list" where
  "FINDING_LATEST_FIELDS =
     [''detector_id'', ''detector_version'', ''baseline_id'', ''agent_id'', ''entity_type'', ''entity_value'',
      ''metric_name'', ''bucket_key'', ''expected_value'', ''observed_value'', ''deviation_score'', ''summary'']"

text \<open>\<open>alert_id\<close>, the first of these fields in the code, is a column of its own here.\<close>

definition FINDING_OPTIONAL_LATEST_FIELDS :: "string list" where
  "FINDING_OPTIONAL_LATEST_FIELDS = [''mitre_tactic'', ''mitre_technique_id'', ''mitre_technique'']"

definition copy_given_fields :: "string list \<Rightarrow> 'v option columns \<Rightarrow> 'v option columns \<Rightarrow> 'v option columns" where
  "copy_given_fields names payload columns =
     foldl (\<lambda>c f. case dict_get payload f of Some (Some v) \<Rightarrow> dict_set c f (Some v) | _ \<Rightarrow> c) columns names"

text \<open>
  The open finding of a key that was seen last, the newest id among equals; the column
  \<open>last_seen_at\<close> is NOT NULL, so the default of the key is never used.
\<close>

definition last_seen_key :: "'v ueba_finding \<Rightarrow> utc" where
  "last_seen_key f = (case uf_last_seen_at f of Some t \<Rightarrow> t | None \<Rightarrow> 0)"

definition get_open_finding_by_dedup_key :: "'v ueba_db \<Rightarrow> string \<Rightarrow> 'v ueba_finding option" where
  "get_open_finding_by_dedup_key db k =
     (case sort_desc last_seen_key (sort_desc uf_id
        (filter (\<lambda>f. uf_dedup_key f = k \<and> uf_status f = ''open'') (db_findings db))) of
        [] \<Rightarrow> None | f # _ \<Rightarrow> Some f)"

definition new_finding :: "nat \<Rightarrow> utc \<Rightarrow> 'v observation \<Rightarrow> 'v ueba_finding" where
  "new_finding i updated_at ob =
     \<lparr>uf_id = i, uf_dedup_key = ob_dedup_key ob,
      uf_status = (case ob_status ob of Some s \<Rightarrow> s | None \<Rightarrow> ''open''), uf_closed_at = ob_closed_at ob,
      uf_first_seen_at = ob_first_seen_at ob, uf_last_seen_at = ob_last_seen_at ob,
      uf_window_started_at = ob_window_started_at ob, uf_window_ended_at = ob_window_ended_at ob,
      uf_cooldown_until = ob_cooldown_until ob,
      uf_occurrence_count = (case ob_occurrence_count ob of Some n \<Rightarrow> n | None \<Rightarrow> 1),
      uf_severity = (case ob_severity ob of Some s \<Rightarrow> s | None \<Rightarrow> ''medium''),
      uf_confidence = (case ob_confidence ob of Some n \<Rightarrow> n | None \<Rightarrow> 50),
      uf_risk_score = or_zero (ob_risk_score ob), uf_reason_codes = ob_reason_codes ob,
      uf_explanation = ob_explanation ob, uf_updated_at = updated_at, uf_alert_id = ob_alert_id ob,
      uf_columns = ob_columns ob\<rparr>"

text \<open>\<open>int(payload.get("occurrence_count") or 1)\<close>.\<close>

definition or_one :: "int option \<Rightarrow> int" where
  "or_one n = (case n of None \<Rightarrow> 1 | Some k \<Rightarrow> if k = 0 then 1 else k)"

definition merge_observation :: "utc \<Rightarrow> 'v observation \<Rightarrow> 'v ueba_finding \<Rightarrow> 'v ueba_finding" where
  "merge_observation updated_at ob row =
     row\<lparr>uf_columns := copy_given_fields FINDING_OPTIONAL_LATEST_FIELDS (ob_columns ob)
           (copy_fields FINDING_LATEST_FIELDS (ob_columns ob) (uf_columns row)),
         uf_alert_id := (case ob_alert_id ob of Some a \<Rightarrow> Some a | None \<Rightarrow> uf_alert_id row),
         uf_status := ''open'', uf_closed_at := None,
         uf_first_seen_at := min_dt (uf_first_seen_at row) (ob_first_seen_at ob),
         uf_last_seen_at := max_dt (uf_last_seen_at row) (ob_last_seen_at ob),
         uf_window_started_at := min_dt (uf_window_started_at row) (ob_window_started_at ob),
         uf_window_ended_at := max_dt (uf_window_ended_at row) (ob_window_ended_at ob),
         uf_cooldown_until := max_dt (uf_cooldown_until row) (ob_cooldown_until ob),
         uf_occurrence_count := uf_occurrence_count row + max 1 (or_one (ob_occurrence_count ob)),
         uf_severity := prefer_higher_severity (uf_severity row) (ob_severity ob),
         uf_confidence := max (uf_confidence row) (or_zero (ob_confidence ob)),
         uf_risk_score := max (uf_risk_score row) (or_zero (ob_risk_score ob)),
         uf_reason_codes := merge_reason_codes (uf_reason_codes row) (ob_reason_codes ob),
         uf_explanation := merge_dict (uf_explanation row) (ob_explanation ob),
         uf_updated_at := updated_at\<rparr>"

record 'v finding_result =
  fr_finding :: "'v ueba_finding"
  fr_created :: bool
  fr_in_cooldown :: bool

definition replace_finding :: "'v ueba_finding \<Rightarrow> 'v ueba_db \<Rightarrow> 'v ueba_db" where
  "replace_finding row db =
     db\<lparr>db_findings := map (\<lambda>f. if uf_id f = uf_id row then row else f) (db_findings db)\<rparr>"

definition record_finding_observation ::
  "utc \<Rightarrow> 'v observation \<Rightarrow> 'v ueba_db \<Rightarrow> 'v finding_result \<times> 'v ueba_db" where
  "record_finding_observation now ob db =
     (let observed_at = (case ob_last_seen_at ob of Some t \<Rightarrow> t | None \<Rightarrow> now);
          updated_at = (case ob_updated_at ob of Some t \<Rightarrow> t | None \<Rightarrow> observed_at)
      in case get_open_finding_by_dedup_key db (ob_dedup_key ob) of
           None \<Rightarrow>
             (let row = new_finding (fresh_id uf_id (db_findings db)) updated_at ob
              in (\<lparr>fr_finding = row, fr_created = True, fr_in_cooldown = False\<rparr>,
                  db\<lparr>db_findings := db_findings db @ [row]\<rparr>))
         | Some old \<Rightarrow>
             (let row = merge_observation updated_at ob old
              in (\<lparr>fr_finding = row, fr_created = False,
                   fr_in_cooldown = (case uf_cooldown_until old of None \<Rightarrow> False | Some t \<Rightarrow> observed_at \<le> t)\<rparr>,
                  replace_finding row db)))"

definition link_alert_to_finding ::
  "utc \<Rightarrow> 'v ueba_finding \<Rightarrow> int \<Rightarrow> utc option \<Rightarrow> 'v ueba_db \<Rightarrow> 'v ueba_finding \<times> 'v ueba_db" where
  "link_alert_to_finding now finding alert_id linked_at db =
     (let row = finding\<lparr>uf_alert_id := Some alert_id,
            uf_updated_at := (case linked_at of Some t \<Rightarrow> t | None \<Rightarrow> now)\<rparr>
      in (row, replace_finding row db))"

section \<open>Evidence\<close>

record 'v evidence_spec =
  es_observed_at :: "utc option"
  es_columns :: "'v option columns"

definition SIGNATURE_FIELDS :: "string list" where
  "SIGNATURE_FIELDS =
     [''event_id'', ''alert_id'', ''evidence_type'', ''evidence_role'', ''entity_type'', ''entity_value'',
      ''matched_field'', ''matched_value'', ''summary'']"

text \<open>
  The signature of a specification and of a row. A time enters it as the text of the time in UTC,
  which is as good as the time. A column that was not given is \<open>None\<close> in a specification, but has the
  default of the database in a row: \<open>evidence_role\<close> has one, the parameter \<open>trigger\<close>.
\<close>

type_synonym 'v signature = "'v option list \<times> utc option"

definition given :: "'v option columns \<Rightarrow> string \<Rightarrow> 'v option" where
  "given columns f = (case dict_get columns f of None \<Rightarrow> None | Some v \<Rightarrow> v)"

definition evidence_signature_from_values :: "'v evidence_spec \<Rightarrow> 'v signature" where
  "evidence_signature_from_values spec = (map (given (es_columns spec)) SIGNATURE_FIELDS, es_observed_at spec)"

definition evidence_signature_from_row :: "'v ueba_evidence \<Rightarrow> 'v signature" where
  "evidence_signature_from_row row = (map (given (ue_columns row)) SIGNATURE_FIELDS, ue_observed_at row)"

definition new_evidence :: "'v \<Rightarrow> nat \<Rightarrow> 'v evidence_spec \<Rightarrow> 'v ueba_evidence" where
  "new_evidence trigger finding_id spec =
     \<lparr>ue_finding_id = finding_id, ue_observed_at = es_observed_at spec,
      ue_columns = dict_setdefault (es_columns spec) ''evidence_role'' (Some trigger)\<rparr>"

fun evidence_loop ::
  "'v \<Rightarrow> nat \<Rightarrow> 'v signature list \<Rightarrow> nat \<Rightarrow> 'v ueba_evidence list \<Rightarrow> 'v evidence_spec list \<Rightarrow>
     nat \<times> 'v ueba_evidence list" where
  "evidence_loop trigger finding_id seen inserted rows [] = (inserted, rows)"
| "evidence_loop trigger finding_id seen inserted rows (spec # specs) =
     (let signature = evidence_signature_from_values spec in
      if signature \<in> set seen then evidence_loop trigger finding_id seen inserted rows specs
      else evidence_loop trigger finding_id (signature # seen) (inserted + 1)
             (rows @ [new_evidence trigger finding_id spec]) specs)"

definition append_finding_evidence ::
  "'v \<Rightarrow> nat \<Rightarrow> 'v evidence_spec list \<Rightarrow> 'v ueba_db \<Rightarrow> nat \<times> 'v ueba_db" where
  "append_finding_evidence trigger finding_id specs db =
     (let seen = map evidence_signature_from_row (filter (\<lambda>e. ue_finding_id e = finding_id) (db_evidence db))
      in case evidence_loop trigger finding_id seen 0 (db_evidence db) specs of
        (inserted, rows) \<Rightarrow> (inserted, db\<lparr>db_evidence := rows\<rparr>))"

section \<open>Detector states and runs\<close>

text \<open>One keyword argument of \<open>upsert_detector_state\<close>.\<close>

datatype 'v state_arg =
    ArgVersion "int option" | ArgEnabled bool | ArgStatus string | ArgFailures int
  | ArgBaselineCount int | ArgMatureBaselineCount int | ArgOpenFindings int
  | ArgLastRunAt "utc option" | ArgLastSuccessAt "utc option" | ArgLastErrorAt "utc option"
  | ArgLastWindowStartedAt "utc option" | ArgLastWindowEndedAt "utc option"
  | ArgErrorType "string option" | ArgErrorMessage "string option" | ArgContext "'v columns"

fun set_state_arg :: "'v detector_state \<Rightarrow> 'v state_arg \<Rightarrow> 'v detector_state" where
  "set_state_arg s (ArgVersion v) = s\<lparr>dt_detector_version := v\<rparr>"
| "set_state_arg s (ArgEnabled b) = s\<lparr>dt_enabled := b\<rparr>"
| "set_state_arg s (ArgStatus t) = s\<lparr>dt_status := t\<rparr>"
| "set_state_arg s (ArgFailures n) = s\<lparr>dt_consecutive_failures := n\<rparr>"
| "set_state_arg s (ArgBaselineCount n) = s\<lparr>dt_baseline_count := n\<rparr>"
| "set_state_arg s (ArgMatureBaselineCount n) = s\<lparr>dt_mature_baseline_count := n\<rparr>"
| "set_state_arg s (ArgOpenFindings n) = s\<lparr>dt_open_findings := n\<rparr>"
| "set_state_arg s (ArgLastRunAt t) = s\<lparr>dt_last_run_at := t\<rparr>"
| "set_state_arg s (ArgLastSuccessAt t) = s\<lparr>dt_last_success_at := t\<rparr>"
| "set_state_arg s (ArgLastErrorAt t) = s\<lparr>dt_last_error_at := t\<rparr>"
| "set_state_arg s (ArgLastWindowStartedAt t) = s\<lparr>dt_last_window_started_at := t\<rparr>"
| "set_state_arg s (ArgLastWindowEndedAt t) = s\<lparr>dt_last_window_ended_at := t\<rparr>"
| "set_state_arg s (ArgErrorType e) = s\<lparr>dt_error_type := e\<rparr>"
| "set_state_arg s (ArgErrorMessage e) = s\<lparr>dt_error_message := e\<rparr>"
| "set_state_arg s (ArgContext c) = s\<lparr>dt_context := c\<rparr>"

definition new_detector_state :: "string \<Rightarrow> 'v detector_state" where
  "new_detector_state detector_id =
     \<lparr>dt_detector_id = detector_id, dt_detector_version = None, dt_enabled = True, dt_status = ''idle'',
      dt_consecutive_failures = 0, dt_baseline_count = 0, dt_mature_baseline_count = 0, dt_open_findings = 0,
      dt_last_run_at = None, dt_last_success_at = None, dt_last_error_at = None,
      dt_last_window_started_at = None, dt_last_window_ended_at = None, dt_error_type = None,
      dt_error_message = None, dt_context = [], dt_updated_at = 0\<rparr>"

definition get_detector_state :: "'v ueba_db \<Rightarrow> string \<Rightarrow> 'v detector_state option" where
  "get_detector_state db d = List.find (\<lambda>s. dt_detector_id s = d) (db_states db)"

definition put_detector_state :: "'v detector_state \<Rightarrow> 'v ueba_db \<Rightarrow> 'v ueba_db" where
  "put_detector_state row db =
     db\<lparr>db_states := (if list_ex (\<lambda>s. dt_detector_id s = dt_detector_id row) (db_states db)
        then map (\<lambda>s. if dt_detector_id s = dt_detector_id row then row else s) (db_states db)
        else db_states db @ [row])\<rparr>"

definition upsert_detector_state ::
  "utc \<Rightarrow> string \<Rightarrow> 'v state_arg list \<Rightarrow> utc option \<Rightarrow> 'v ueba_db \<Rightarrow> ('v detector_state \<times> bool) \<times> 'v ueba_db" where
  "upsert_detector_state now detector_id args updated db =
     (let updated_at = (case updated of Some t \<Rightarrow> t | None \<Rightarrow> now) in
      case get_detector_state db detector_id of
        None \<Rightarrow>
          (let row = (foldl set_state_arg (new_detector_state detector_id) args)\<lparr>dt_updated_at := updated_at\<rparr>
           in ((row, True), put_detector_state row db))
      | Some old \<Rightarrow>
          (let row = (foldl set_state_arg old args)\<lparr>dt_updated_at := updated_at\<rparr>
           in ((row, False), put_detector_state row db)))"

definition no_counters :: run_counters where
  "no_counters = \<lparr>rc_scanned_events = 0, rc_evaluated_entities = 0, rc_baselines_created = 0,
     rc_baselines_updated = 0, rc_findings_created = 0, rc_findings_updated = 0, rc_alerts_created = 0,
     rc_suppressions_applied = 0\<rparr>"

definition get_detector_run :: "'v ueba_db \<Rightarrow> nat \<Rightarrow> 'v detector_run option" where
  "get_detector_run db i = List.find (\<lambda>r. dr_id r = i) (db_runs db)"

definition put_detector_run :: "'v detector_run \<Rightarrow> 'v ueba_db \<Rightarrow> 'v ueba_db" where
  "put_detector_run run db = db\<lparr>db_runs := map (\<lambda>r. if dr_id r = dr_id run then run else r) (db_runs db)\<rparr>"

definition start_detector_run ::
  "utc \<Rightarrow> string \<Rightarrow> int option \<Rightarrow> utc \<Rightarrow> utc option \<Rightarrow> utc option \<Rightarrow> 'v columns \<Rightarrow> 'v ueba_db \<Rightarrow>
     'v detector_run \<times> 'v ueba_db" where
  "start_detector_run now detector_id version started_at window_started window_ended context db =
     (let run = \<lparr>dr_id = fresh_id dr_id (db_runs db), dr_detector_id = detector_id, dr_detector_version = version,
            dr_started_at = started_at, dr_finished_at = None, dr_status = ''running'',
            dr_window_started_at = window_started, dr_window_ended_at = window_ended, dr_counters = no_counters,
            dr_duration_ms = None, dr_error_type = None, dr_error_message = None, dr_context = context\<rparr>
      in case upsert_detector_state now detector_id
           [ArgVersion version, ArgEnabled True, ArgLastRunAt (Some started_at),
            ArgLastWindowStartedAt window_started, ArgLastWindowEndedAt window_ended] (Some started_at)
           (db\<lparr>db_runs := db_runs db @ [run]\<rparr>) of
         ((state, _), db') \<Rightarrow>
           (run, if dt_status state = ''disabled'' then put_detector_state (state\<lparr>dt_enabled := False\<rparr>) db' else db'))"

record run_outcome =
  ro_counters :: run_counters
  ro_baseline_count :: int
  ro_mature_baseline_count :: int
  ro_open_findings :: int

definition complete_detector_run ::
  "utc \<Rightarrow> 'v detector_run \<Rightarrow> utc \<Rightarrow> run_outcome \<Rightarrow> 'v columns \<Rightarrow> 'v ueba_db \<Rightarrow> 'v detector_run \<times> 'v ueba_db" where
  "complete_detector_run now run finished_at out context_patch db =
     (let run' = run\<lparr>dr_finished_at := Some finished_at, dr_status := ''completed'', dr_counters := ro_counters out,
            dr_duration_ms := Some (duration_ms (dr_started_at run) finished_at),
            dr_context := merge_dict (dr_context run) context_patch,
            dr_error_type := None, dr_error_message := None\<rparr>
      in (run', snd (upsert_detector_state now (dr_detector_id run)
           [ArgVersion (dr_detector_version run), ArgEnabled True, ArgStatus ''healthy'', ArgFailures 0,
            ArgBaselineCount (ro_baseline_count out), ArgMatureBaselineCount (ro_mature_baseline_count out),
            ArgOpenFindings (ro_open_findings out), ArgLastRunAt (Some (dr_started_at run)),
            ArgLastSuccessAt (Some finished_at), ArgLastWindowStartedAt (dr_window_started_at run),
            ArgLastWindowEndedAt (dr_window_ended_at run), ArgErrorType None, ArgErrorMessage None]
           (Some finished_at) (put_detector_run run' db))))"

definition text_or_none :: "nat \<Rightarrow> string \<Rightarrow> string option" where
  "text_or_none n s = (if take n s = [] then None else Some (take n s))"

definition fail_detector_run ::
  "utc \<Rightarrow> 'v detector_run \<Rightarrow> utc \<Rightarrow> string \<Rightarrow> string \<Rightarrow> int \<Rightarrow> 'v columns \<Rightarrow> 'v ueba_db \<Rightarrow>
     'v detector_run \<times> 'v ueba_db" where
  "fail_detector_run now run failed_at error_type error_message failing_after context_patch db =
     (let run' = run\<lparr>dr_finished_at := Some failed_at, dr_status := ''failed'',
            dr_duration_ms := Some (duration_ms (dr_started_at run) failed_at),
            dr_error_type := text_or_none 128 error_type, dr_error_message := text_or_none 512 error_message,
            dr_context := merge_dict (dr_context run) context_patch\<rparr>;
          db' = put_detector_run run' db;
          next_failures = (case get_detector_state db' (dr_detector_id run) of
              Some existing \<Rightarrow> dt_consecutive_failures existing + 1 | None \<Rightarrow> 1);
          next_status = (if next_failures \<ge> max 1 failing_after then ''failing'' else ''degraded'')
      in (run', snd (upsert_detector_state now (dr_detector_id run)
           [ArgVersion (dr_detector_version run), ArgEnabled True, ArgStatus next_status, ArgFailures next_failures,
            ArgLastRunAt (Some (dr_started_at run)), ArgLastErrorAt (Some failed_at),
            ArgLastWindowStartedAt (dr_window_started_at run), ArgLastWindowEndedAt (dr_window_ended_at run),
            ArgErrorType (dr_error_type run'), ArgErrorMessage (dr_error_message run')]
           (Some failed_at) db')))"

section \<open>Lemmas on the tables\<close>

named_theorems table_simps

lemma foldl_max_ge: "(a::nat) \<le> foldl max a ns \<and> (\<forall>n\<in>set ns. n \<le> foldl max a ns)"
proof (induction ns arbitrary: a)
  case (Cons n ns)
  show ?case using Cons.IH[of "max a n"] by auto
qed simp

lemma fresh_id_not_in [simp]: "fresh_id f rows \<notin> f ` set rows"
proof
  assume "fresh_id f rows \<in> f ` set rows"
  then have "fresh_id f rows \<le> foldl max 0 (map f rows)" using foldl_max_ge[of 0 "map f rows"] by auto
  then show False by (simp add: fresh_id_def)
qed

lemma find_append_new:
  "\<forall>x\<in>set xs. \<not> P x \<Longrightarrow> P y \<Longrightarrow> List.find P (xs @ [y]) = Some y"
  by (induction xs) auto

lemma find_append_other: "\<not> P y \<Longrightarrow> List.find P (xs @ [y]) = List.find P xs"
  by (induction xs) auto

lemma find_map_replace:
  "f row \<noteq> k \<Longrightarrow>
     List.find (\<lambda>x. f x = k) (map (\<lambda>x. if f x = f row then row else x) xs) = List.find (\<lambda>x. f x = k) xs"
  by (induction xs) auto

lemma find_map_replace_same:
  "list_ex (\<lambda>x. f x = f row) xs \<Longrightarrow>
     List.find (\<lambda>x. f x = f row) (map (\<lambda>x. if f x = f row then row else x) xs) = Some row"
  by (induction xs) auto

lemma map_key_replace: "map f (map (\<lambda>x. if f x = f row then row else x) xs) = map f xs"
  by (induction xs) auto

lemma set_state_args_id [simp]: "dt_detector_id (foldl set_state_arg s args) = dt_detector_id s"
proof (induction args arbitrary: s)
  case (Cons a args)
  then show ?case by (cases a) simp_all
qed simp

lemma new_detector_state_id [simp]: "dt_detector_id (new_detector_state d) = d"
  by (simp add: new_detector_state_def)

lemma get_detector_stateD: "get_detector_state db d = Some s \<Longrightarrow> s \<in> set (db_states db) \<and> dt_detector_id s = d"
  by (auto simp: get_detector_state_def find_Some_iff)

lemma get_detector_state_None_iff:
  "get_detector_state db d = None \<longleftrightarrow> d \<notin> dt_detector_id ` set (db_states db)"
  by (auto simp: get_detector_state_def find_None_iff)

lemma get_put_detector_state [table_simps]:
  "get_detector_state (put_detector_state row db) d =
     (if d = dt_detector_id row then Some row else get_detector_state db d)"
proof (cases "list_ex (\<lambda>s. dt_detector_id s = dt_detector_id row) (db_states db)")
  case True
  then show ?thesis
    using find_map_replace_same[of dt_detector_id row "db_states db"] find_map_replace[of dt_detector_id row d "db_states db"]
    by (simp add: get_detector_state_def put_detector_state_def)
next
  case False
  then show ?thesis
    by (auto simp: get_detector_state_def put_detector_state_def list_ex_iff intro!: find_append_new find_append_other)
qed

lemma put_detector_state_tables [table_simps]:
  "db_baselines (put_detector_state row db) = db_baselines db"
  "db_findings (put_detector_state row db) = db_findings db"
  "db_evidence (put_detector_state row db) = db_evidence db"
  "db_runs (put_detector_state row db) = db_runs db"
  by (simp_all add: put_detector_state_def)

lemma put_detector_run_tables [table_simps]:
  "db_baselines (put_detector_run run db) = db_baselines db"
  "db_findings (put_detector_run run db) = db_findings db"
  "db_evidence (put_detector_run run db) = db_evidence db"
  "db_states (put_detector_run run db) = db_states db"
  by (simp_all add: put_detector_run_def)

lemma distinct_put_detector_state:
  "distinct (map dt_detector_id (db_states db)) \<Longrightarrow>
     distinct (map dt_detector_id (db_states (put_detector_state row db)))"
  by (auto simp: put_detector_state_def list_ex_iff map_key_replace simp del: map_map)

lemma set_put_detector_state:
  "s \<in> set (db_states (put_detector_state row db)) \<Longrightarrow> s = row \<or> s \<in> set (db_states db)"
  by (auto simp: put_detector_state_def split: if_splits)

text \<open>The row that \<open>upsert_detector_state\<close> writes.\<close>

definition upserted_state :: "utc \<Rightarrow> string \<Rightarrow> 'v state_arg list \<Rightarrow> utc option \<Rightarrow> 'v ueba_db \<Rightarrow> 'v detector_state" where
  "upserted_state now d args updated db =
     (foldl set_state_arg (case get_detector_state db d of None \<Rightarrow> new_detector_state d | Some s \<Rightarrow> s) args)
       \<lparr>dt_updated_at := (case updated of Some t \<Rightarrow> t | None \<Rightarrow> now)\<rparr>"

lemma upserted_state_id [simp]: "dt_detector_id (upserted_state now d args updated db) = d"
  by (auto simp: upserted_state_def dest: get_detector_stateD split: option.splits)

lemma upsert_detector_state_eq:
  "upsert_detector_state now d args updated db =
     ((upserted_state now d args updated db, get_detector_state db d = None),
      put_detector_state (upserted_state now d args updated db) db)"
  by (simp add: upsert_detector_state_def upserted_state_def Let_def split: option.splits)

end
