(* ===== verification/Ueba_Worker.thy ===== *)
theory Ueba_Worker
  imports Ueba_Lifecycle
begin

text \<open>
  The cycle of the behavioural worker (\<open>features/ueba/worker_runtime.py\<close>): one run per detector, each in
  a session of its own that is committed or rolled back, and the triage of a finding
  (\<open>features/ueba/service.py\<close>). A detector is a record of its two methods, which may do anything to the
  database; an exception is its type name and its text. Failures of the session itself (connect,
  flush, commit) and several workers at once are not modelled here; the step relation below lets the
  operations of several runs interleave.
\<close>

section \<open>The cycle\<close>

type_synonym exc = "string \<times> string"

text \<open>JSON texts and booleans as column values.\<close>

record 'v embedding =
  em_text :: "string \<Rightarrow> 'v"
  em_bool :: "bool \<Rightarrow> 'v"

record 'v execution_result =
  er_counters :: run_counters
  er_state_context_patch :: "'v columns"
  er_run_context_patch :: "'v columns"

text \<open>
  \<open>window_bounds\<close> gets the number of the attempt, since it may fail once and succeed later. The session does
  not flush before a query (\<open>autoflush=False\<close>): after a run, a query that counts rows sees the rows as of
  the last flush of the run, \<open>ud_flushed\<close>, and not the later changes that the commit will write.
\<close>

record 'v ueba_detector =
  ud_detector_id :: string
  ud_detector_version :: int
  ud_window_bounds :: "nat \<Rightarrow> utc \<Rightarrow> 'v ueba_db \<Rightarrow> exc + utc option \<times> utc option"
  ud_run :: "utc \<Rightarrow> 'v ueba_db \<Rightarrow> (exc + 'v execution_result) \<times> 'v ueba_db"
  ud_flushed :: "utc \<Rightarrow> 'v ueba_db \<Rightarrow> 'v ueba_db"

record 'v detector_cycle_result =
  cy_detector_id :: string
  cy_detector_version :: int
  cy_status :: string
  cy_outcome :: "'v execution_result option"
  cy_error_type :: "string option"
  cy_error_message :: "string option"

definition count_detector_baselines :: "'v embedding \<Rightarrow> 'v ueba_db \<Rightarrow> string \<Rightarrow> int \<times> int" where
  "count_detector_baselines em db d =
     (let rows = filter (\<lambda>b. dict_get (ub_columns b) ''detector_id'' = Some (em_text em d)) (db_baselines db)
      in (int (length rows),
          int (length (filter (\<lambda>b. dict_get (ub_columns b) ''status'' = Some (em_text em ''mature'')) rows))))"

definition count_open_findings_for_detector :: "'v embedding \<Rightarrow> 'v ueba_db \<Rightarrow> string \<Rightarrow> int" where
  "count_open_findings_for_detector em db d =
     int (length (filter (\<lambda>f. given (uf_columns f) ''detector_id'' = Some (em_text em d) \<and> uf_status f = ''open'')
       (db_findings db)))"

definition merge_detector_context :: "utc \<Rightarrow> string \<Rightarrow> 'v columns \<Rightarrow> 'v ueba_db \<Rightarrow> 'v ueba_db" where
  "merge_detector_context clock d patch db =
     (if patch = [] then db
      else let existing = get_detector_state db d in
        snd (upsert_detector_state clock d
          [ArgVersion (case existing of None \<Rightarrow> None | Some s \<Rightarrow> dt_detector_version s),
           ArgContext (merge_dict (case existing of None \<Rightarrow> [] | Some s \<Rightarrow> dt_context s) patch)] None db))"

text \<open>The row of a run, or the run as it was when its row is gone.\<close>

definition current_run :: "'v ueba_db \<Rightarrow> 'v detector_run \<Rightarrow> 'v detector_run" where
  "current_run db run = (case get_detector_run db (dr_id run) of Some r \<Rightarrow> r | None \<Rightarrow> run)"

definition start_cycle_run ::
  "'v ueba_detector \<Rightarrow> utc \<Rightarrow> utc option \<times> utc option \<Rightarrow> 'v columns \<Rightarrow> 'v ueba_db \<Rightarrow> 'v detector_run \<times> 'v ueba_db" where
  "start_cycle_run det now bounds context db =
     start_detector_run now (ud_detector_id det) (Some (ud_detector_version det)) now (fst bounds) (snd bounds) context db"

text \<open>
  What follows a run that returned a result, up to the commit, and the handler of an exception, up to
  its commit. \<open>clock\<close> is the wall clock, which only \<open>updated_at\<close> of the merged context shows.
\<close>

definition finish_cycle_run ::
  "'v embedding \<Rightarrow> utc \<Rightarrow> 'v ueba_detector \<Rightarrow> utc \<Rightarrow> 'v detector_run \<Rightarrow> 'v execution_result \<Rightarrow>
     'v ueba_db \<Rightarrow> 'v ueba_db \<Rightarrow> 'v ueba_db" where
  "finish_cycle_run em clock det now run outcome flushed db =
     (let db' = merge_detector_context clock (ud_detector_id det) (er_state_context_patch outcome) db;
          counts = count_detector_baselines em flushed (ud_detector_id det);
          open_findings = count_open_findings_for_detector em flushed (ud_detector_id det)
      in snd (complete_detector_run clock (current_run db' run) now
           \<lparr>ro_counters = er_counters outcome, ro_baseline_count = fst counts, ro_mature_baseline_count = snd counts,
            ro_open_findings = open_findings\<rparr>
           (er_run_context_patch outcome) db'))"

definition fail_cycle_run ::
  "'v embedding \<Rightarrow> utc \<Rightarrow> int \<Rightarrow> utc \<Rightarrow> 'v detector_run \<Rightarrow> exc \<Rightarrow> 'v ueba_db \<Rightarrow> 'v ueba_db" where
  "fail_cycle_run em clock failing_after now run exc db =
     snd (fail_detector_run clock run now (fst exc) (snd exc) failing_after [(''source'', em_text em ''postgres'')] db)"

definition failed_result :: "'v ueba_detector \<Rightarrow> exc \<Rightarrow> 'v detector_cycle_result" where
  "failed_result det exc =
     \<lparr>cy_detector_id = ud_detector_id det, cy_detector_version = ud_detector_version det, cy_status = ''failed'',
      cy_outcome = None, cy_error_type = Some (fst exc), cy_error_message = Some (snd exc)\<rparr>"

definition run_one_detector ::
  "'v embedding \<Rightarrow> utc \<Rightarrow> int \<Rightarrow> utc \<Rightarrow> 'v ueba_detector \<Rightarrow> 'v ueba_db \<Rightarrow> 'v detector_cycle_result \<times> 'v ueba_db" where
  "run_one_detector em clock failing_after now det db =
     (case ud_window_bounds det 0 now db of
        Inl exc \<Rightarrow>
          (failed_result det exc,
           case ud_window_bounds det 1 now db of
             Inl _ \<Rightarrow> db
           | Inr bounds \<Rightarrow>
               (case start_cycle_run det now bounds
                  [(''source'', em_text em ''postgres''), (''failed_before_execution'', em_bool em True)] db of
                  (run, started) \<Rightarrow> fail_cycle_run em clock failing_after now run exc started))
      | Inr bounds \<Rightarrow>
          (case start_cycle_run det now bounds [(''source'', em_text em ''postgres'')] db of
             (run, started) \<Rightarrow>
               (case ud_run det now started of
                  (Inr outcome, written) \<Rightarrow>
                    (\<lparr>cy_detector_id = ud_detector_id det, cy_detector_version = ud_detector_version det,
                      cy_status = ''completed'', cy_outcome = Some outcome, cy_error_type = None, cy_error_message = None\<rparr>,
                     finish_cycle_run em clock det now run outcome (ud_flushed det now started) written)
                | (Inl exc, _) \<Rightarrow>
                    (failed_result det exc,
                     fail_cycle_run em clock failing_after now (current_run started run) exc started))))"

record worker_config =
  wc_failing_after :: int
  wc_if_retraining_interval_seconds :: int
  wc_peer_clustering_interval_seconds :: int

text \<open>
  The maintenance job is a parameter: \<open>None\<close> is an exception, which rolls back and leaves the time
  of the last maintenance.
\<close>

definition run_maintenance_if_due ::
  "(utc \<Rightarrow> 'v ueba_db \<Rightarrow> 'v ueba_db option) \<Rightarrow> worker_config \<Rightarrow> utc \<Rightarrow> utc option \<times> 'v ueba_db \<Rightarrow> utc option \<times> 'v ueba_db" where
  "run_maintenance_if_due maintenance cfg now s =
     (let interval = min (max 60 (wc_if_retraining_interval_seconds cfg)) (max 60 (wc_peer_clustering_interval_seconds cfg));
          due = (case fst s of None \<Rightarrow> True | Some l \<Rightarrow> \<not> l + interval * 1000000 > now)
      in if \<not> due then s
         else (case maintenance now (snd s) of None \<Rightarrow> s | Some db' \<Rightarrow> (Some now, db')))"

fun run_detectors ::
  "'v embedding \<Rightarrow> utc \<Rightarrow> int \<Rightarrow> utc \<Rightarrow> 'v ueba_detector list \<Rightarrow> 'v ueba_db \<Rightarrow> 'v detector_cycle_result list \<times> 'v ueba_db" where
  "run_detectors em clock failing_after now [] db = ([], db)"
| "run_detectors em clock failing_after now (det # dets) db =
     (case run_one_detector em clock failing_after now det db of
        (r, db') \<Rightarrow> (case run_detectors em clock failing_after now dets db' of (rs, db'') \<Rightarrow> (r # rs, db'')))"

definition run_ueba_cycle ::
  "'v embedding \<Rightarrow> (utc \<Rightarrow> 'v ueba_db \<Rightarrow> 'v ueba_db option) \<Rightarrow> worker_config \<Rightarrow> utc \<Rightarrow> utc \<Rightarrow> 'v ueba_detector list \<Rightarrow>
     utc option \<times> 'v ueba_db \<Rightarrow> 'v detector_cycle_result list \<times> utc option \<times> 'v ueba_db" where
  "run_ueba_cycle em maintenance cfg clock now dets s =
     (case run_maintenance_if_due maintenance cfg now s of
        (maintained, db) \<Rightarrow> (case run_detectors em clock (wc_failing_after cfg) now dets db of (rs, db') \<Rightarrow> (rs, maintained, db')))"

section \<open>Triage\<close>

definition default_status_for_verdict :: "string \<Rightarrow> bool \<Rightarrow> string" where
  "default_status_for_verdict verdict suppression_created =
     (if verdict = ''false_positive'' then (if suppression_created then ''suppressed'' else ''closed'')
      else if verdict = ''benign_acknowledged'' then ''closed'' else ''open'')"

definition resolve_suppression :: "int option \<Rightarrow> utc \<Rightarrow> bool \<times> bool \<times> utc option" where
  "resolve_suppression ttl_seconds now =
     (case ttl_seconds of None \<Rightarrow> (True, True, None)
      | Some ttl \<Rightarrow> if ttl \<le> 0 then (False, False, None) else (True, False, Some (now + ttl * 1000000)))"

definition verdict_conflict :: "string option \<Rightarrow> string \<Rightarrow> bool" where
  "verdict_conflict prior_verdict incoming_verdict =
     (case prior_verdict of None \<Rightarrow> False
      | Some p \<Rightarrow> (p, incoming_verdict) \<in> {(''true_positive'', ''false_positive''), (''false_positive'', ''true_positive'')})"

text \<open>The status and the cooldown that a triage request leaves on the finding.\<close>

definition triage_status ::
  "string option \<Rightarrow> string option \<Rightarrow> bool \<Rightarrow> utc \<Rightarrow> 'v ueba_finding \<Rightarrow> 'v ueba_finding" where
  "triage_status body_status verdict suppression_created now row =
     (let effective_status = (case (body_status, verdict) of
            (None, Some v) \<Rightarrow> Some (default_status_for_verdict v suppression_created) | _ \<Rightarrow> body_status)
      in if effective_status = Some ''closed'' \<or> effective_status = Some ''suppressed''
         then row\<lparr>uf_status := the effective_status, uf_closed_at := Some now\<rparr>
         else if effective_status = Some ''open'' then row\<lparr>uf_status := ''open'', uf_closed_at := None\<rparr>
         else row)"

definition triage_cooldown :: "int option \<Rightarrow> utc \<Rightarrow> 'v ueba_finding \<Rightarrow> 'v ueba_finding" where
  "triage_cooldown cooldown_extension_minutes now row =
     (case cooldown_extension_minutes of None \<Rightarrow> row
      | Some m \<Rightarrow>
          row\<lparr>uf_cooldown_until := Some ((case uf_cooldown_until row of
              Some c \<Rightarrow> if c > now then c else now | None \<Rightarrow> now) + m * 60000000)\<rparr>)"

definition apply_triage ::
  "string option \<Rightarrow> string option \<Rightarrow> bool \<Rightarrow> int option \<Rightarrow> utc \<Rightarrow> 'v ueba_finding \<Rightarrow> 'v ueba_db \<Rightarrow> 'v ueba_db" where
  "apply_triage body_status verdict suppression_created cooldown_extension_minutes now row db =
     replace_finding (triage_cooldown cooldown_extension_minutes now
       (triage_status body_status verdict suppression_created now row)) db"


section \<open>Which tables an operation writes\<close>

lemma upsert_baseline_tables [table_simps]:
  "db_findings (snd (upsert_baseline now k payload u db)) = db_findings db"
  "db_evidence (snd (upsert_baseline now k payload u db)) = db_evidence db"
  "db_states (snd (upsert_baseline now k payload u db)) = db_states db"
  "db_runs (snd (upsert_baseline now k payload u db)) = db_runs db"
  by (simp_all add: upsert_baseline_def Let_def split: option.splits)

lemma replace_finding_tables [table_simps]:
  "db_baselines (replace_finding row db) = db_baselines db"
  "db_evidence (replace_finding row db) = db_evidence db"
  "db_states (replace_finding row db) = db_states db"
  "db_runs (replace_finding row db) = db_runs db"
  by (simp_all add: replace_finding_def)

lemma record_finding_observation_tables [table_simps]:
  "db_baselines (snd (record_finding_observation now ob db)) = db_baselines db"
  "db_evidence (snd (record_finding_observation now ob db)) = db_evidence db"
  "db_states (snd (record_finding_observation now ob db)) = db_states db"
  "db_runs (snd (record_finding_observation now ob db)) = db_runs db"
  by (simp_all add: record_finding_observation_def Let_def table_simps split: option.splits)

lemma link_alert_to_finding_tables [table_simps]:
  "db_baselines (snd (link_alert_to_finding now f a l db)) = db_baselines db"
  "db_evidence (snd (link_alert_to_finding now f a l db)) = db_evidence db"
  "db_states (snd (link_alert_to_finding now f a l db)) = db_states db"
  "db_runs (snd (link_alert_to_finding now f a l db)) = db_runs db"
  by (simp_all add: link_alert_to_finding_def Let_def table_simps)

lemma append_finding_evidence_tables [table_simps]:
  "db_baselines (snd (append_finding_evidence t i specs db)) = db_baselines db"
  "db_findings (snd (append_finding_evidence t i specs db)) = db_findings db"
  "db_states (snd (append_finding_evidence t i specs db)) = db_states db"
  "db_runs (snd (append_finding_evidence t i specs db)) = db_runs db"
  by (simp_all add: append_finding_evidence_def Let_def split: prod.splits)

lemma merge_detector_context_tables [table_simps]:
  "db_baselines (merge_detector_context clock d patch db) = db_baselines db"
  "db_findings (merge_detector_context clock d patch db) = db_findings db"
  "db_evidence (merge_detector_context clock d patch db) = db_evidence db"
  "db_runs (merge_detector_context clock d patch db) = db_runs db"
  by (simp_all add: merge_detector_context_def Let_def upsert_detector_state_eq table_simps)

text \<open>What the start and the end of a run do to the states and the runs.\<close>

definition started_state :: "utc \<Rightarrow> string \<Rightarrow> int option \<Rightarrow> utc \<Rightarrow> utc option \<Rightarrow> utc option \<Rightarrow> 'v ueba_db \<Rightarrow> 'v detector_state" where
  "started_state now d v started_at ws we db =
     (let s = upserted_state now d [ArgVersion v, ArgEnabled True, ArgLastRunAt (Some started_at),
            ArgLastWindowStartedAt ws, ArgLastWindowEndedAt we] (Some started_at) db
      in if dt_status s = ''disabled'' then s\<lparr>dt_enabled := False\<rparr> else s)"

lemma replace_twice:
  "f r1 = k \<Longrightarrow> map (\<lambda>s. if f s = k then r2 else s) (map (\<lambda>s. if f s = k then r1 else s) xs) =
     map (\<lambda>s. if f s = k then r2 else s) xs"
  "f r1 = k \<Longrightarrow> list_ex (\<lambda>s. f s = k) (map (\<lambda>s. if f s = k then r1 else s) xs) = list_ex (\<lambda>s. f s = k) xs"
  by (induction xs) simp_all

lemma put_detector_state_twice:
  assumes same: "dt_detector_id r1 = dt_detector_id r2"
  shows "put_detector_state r2 (put_detector_state r1 db) = put_detector_state r2 db"
proof (cases "list_ex (\<lambda>s. dt_detector_id s = dt_detector_id r2) (db_states db)")
  case True
  then show ?thesis by (simp add: put_detector_state_def same replace_twice del: map_map)
next
  case False
  then have "map (\<lambda>s. if dt_detector_id s = dt_detector_id r2 then r2 else s) (db_states db) = db_states db"
    by (intro map_idI) (auto simp: list_ex_iff)
  with False show ?thesis by (simp add: put_detector_state_def same del: map_map)
qed

lemma get_detector_state_cong: "db_states db = db_states db' \<Longrightarrow> get_detector_state db d = get_detector_state db' d"
  by (simp add: get_detector_state_def)

lemma upserted_state_runs:
  "upserted_state now d args u (db\<lparr>db_runs := runs\<rparr>) = upserted_state now d args u db"
  by (simp add: upserted_state_def get_detector_state_def)

lemma start_detector_run_eq:
  fixes db :: "'v ueba_db"
  defines "run d v started_at ws we context \<equiv>
     \<lparr>dr_id = fresh_id dr_id (db_runs db), dr_detector_id = d, dr_detector_version = v,
      dr_started_at = started_at, dr_finished_at = None, dr_status = ''running'',
      dr_window_started_at = ws, dr_window_ended_at = we, dr_counters = no_counters,
      dr_duration_ms = None, dr_error_type = None, dr_error_message = None, dr_context = context\<rparr>"
  shows "start_detector_run now d v started_at ws we context db =
     (run d v started_at ws we context,
      put_detector_state (started_state now d v started_at ws we db)
        (db\<lparr>db_runs := db_runs db @ [run d v started_at ws we context]\<rparr>))"
  unfolding start_detector_run_def upsert_detector_state_eq upserted_state_runs run_def Let_def prod.case
    started_state_def
  by (simp add: put_detector_state_twice)

section \<open>The lifecycle as a step relation\<close>

text \<open>
  One step is one lifecycle operation of some worker. The steps of several runs may interleave; a run
  is completed or failed from its row. \<open>n\<close> is the number of failures after which a detector counts as
  failing.
\<close>

inductive lifecycle_step :: "int \<Rightarrow> 'v ueba_db \<Rightarrow> 'v ueba_db \<Rightarrow> bool" for n where
  baseline: "lifecycle_step n db (snd (upsert_baseline now k payload u db))"
| observe: "lifecycle_step n db (snd (record_finding_observation now ob db))"
| link: "f \<in> set (db_findings db) \<Longrightarrow> lifecycle_step n db (snd (link_alert_to_finding now f a l db))"
| evidence: "lifecycle_step n db (snd (append_finding_evidence trigger i specs db))"
| remember: "lifecycle_step n db (merge_detector_context clock d patch db)"
| start: "lifecycle_step n db (snd (start_detector_run now d v started_at ws we context db))"
| complete: "run \<in> set (db_runs db) \<Longrightarrow> lifecycle_step n db (snd (complete_detector_run now run t out patch db))"
| fail: "run \<in> set (db_runs db) \<Longrightarrow> lifecycle_step n db (snd (fail_detector_run now run t et em n patch db))"

definition empty_db :: "'v ueba_db" where
  "empty_db = \<lparr>db_baselines = [], db_findings = [], db_evidence = [], db_states = [], db_runs = []\<rparr>"

text \<open>The health of a detector is a function of its failure count and of its having ever succeeded.\<close>

definition detector_health :: "int \<Rightarrow> 'v detector_state \<Rightarrow> string" where
  "detector_health n s =
     (if max 1 n \<le> dt_consecutive_failures s then ''failing''
      else if 0 < dt_consecutive_failures s then ''degraded''
      else if dt_last_success_at s = None then ''idle'' else ''healthy'')"

definition state_ok :: "int \<Rightarrow> 'v detector_state \<Rightarrow> bool" where
  "state_ok n s \<longleftrightarrow> dt_enabled s \<and> 0 \<le> dt_consecutive_failures s \<and> dt_status s = detector_health n s"

definition run_ok :: "'v detector_run \<Rightarrow> bool" where
  "run_ok r \<longleftrightarrow> dr_status r \<in> {''running'', ''completed'', ''failed''} \<and>
     (dr_status r = ''running'' \<longleftrightarrow> dr_finished_at r = None) \<and>
     (dr_status r = ''running'' \<longleftrightarrow> dr_duration_ms r = None) \<and>
     (case dr_duration_ms r of None \<Rightarrow> True | Some t \<Rightarrow> 0 \<le> t)"

definition open_keys :: "'v ueba_finding list \<Rightarrow> string list" where
  "open_keys fs = map uf_dedup_key (filter (\<lambda>f. uf_status f = ''open'') fs)"

definition states_ok :: "int \<Rightarrow> 'v ueba_db \<Rightarrow> bool" where
  "states_ok n db \<longleftrightarrow> distinct (map dt_detector_id (db_states db)) \<and> list_all (state_ok n) (db_states db)"

definition runs_ok :: "'v ueba_db \<Rightarrow> bool" where
  "runs_ok db \<longleftrightarrow> distinct (map dr_id (db_runs db)) \<and> list_all run_ok (db_runs db)"

definition findings_ok :: "'v ueba_db \<Rightarrow> bool" where
  "findings_ok db \<longleftrightarrow> distinct (map uf_id (db_findings db)) \<and> distinct (open_keys (db_findings db))"

definition baselines_ok :: "'v ueba_db \<Rightarrow> bool" where
  "baselines_ok db \<longleftrightarrow> distinct (map ub_id (db_baselines db)) \<and> distinct (map ub_baseline_key (db_baselines db))"

definition ueba_ok :: "int \<Rightarrow> 'v ueba_db \<Rightarrow> bool" where
  "ueba_ok n db \<longleftrightarrow> baselines_ok db \<and> findings_ok db \<and> states_ok n db \<and> runs_ok db"

lemma duration_ms_nonneg [simp]: "0 \<le> duration_ms a b"
  by (simp add: duration_ms_def split: prod.splits)

lemma states_ok_put: "states_ok n db \<Longrightarrow> state_ok n row \<Longrightarrow> states_ok n (put_detector_state row db)"
  by (auto simp: states_ok_def distinct_put_detector_state list_all_iff dest: set_put_detector_state)

lemma states_ok_get: "states_ok n db \<Longrightarrow> get_detector_state db d = Some s \<Longrightarrow> state_ok n s"
  by (auto simp: states_ok_def list_all_iff dest: get_detector_stateD)

lemma state_ok_old:
  "states_ok n db \<Longrightarrow> state_ok n (case get_detector_state db d of None \<Rightarrow> new_detector_state d | Some s \<Rightarrow> s)"
  by (auto simp: state_ok_def new_detector_state_def detector_health_def dest: states_ok_get split: option.splits)

lemma states_ok_cong: "db_states db = db_states db' \<Longrightarrow> states_ok n db = states_ok n db'"
  by (simp add: states_ok_def)

lemma runs_ok_cong: "db_runs db = db_runs db' \<Longrightarrow> runs_ok db = runs_ok db'"
  by (simp add: runs_ok_def)

lemma findings_ok_cong: "db_findings db = db_findings db' \<Longrightarrow> findings_ok db = findings_ok db'"
  by (simp add: findings_ok_def)

lemma baselines_ok_cong: "db_baselines db = db_baselines db' \<Longrightarrow> baselines_ok db = baselines_ok db'"
  by (simp add: baselines_ok_def)

lemma state_ok_started:
  assumes "states_ok n db"
  shows "state_ok n (started_state now d v t ws we db)"
  using state_ok_old[OF assms, of d]
  by (cases "get_detector_state db d")
     (auto simp: started_state_def upserted_state_def state_ok_def detector_health_def Let_def)

lemma states_ok_start:
  "states_ok n db \<Longrightarrow> states_ok n (snd (start_detector_run now d v t ws we context db))"
  by (auto simp: start_detector_run_eq state_ok_started states_ok_cong[of "db\<lparr>db_runs := _\<rparr>" db] intro!: states_ok_put)

lemma states_ok_remember:
  assumes "states_ok n db"
  shows "states_ok n (merge_detector_context clock d patch db)"
  using state_ok_old[OF assms, of d] assms
  by (cases "get_detector_state db d")
     (auto simp: merge_detector_context_def Let_def upsert_detector_state_eq upserted_state_def state_ok_def
        detector_health_def intro!: states_ok_put)

lemma upserted_state_put_run:
  "upserted_state now d args u (put_detector_run run db) = upserted_state now d args u db"
  by (simp add: upserted_state_def get_detector_state_def put_detector_run_def)

lemma get_detector_state_put_run: "get_detector_state (put_detector_run run db) d = get_detector_state db d"
  by (simp add: get_detector_state_def put_detector_run_def)

lemma states_ok_put_run: "states_ok n (put_detector_run run db) = states_ok n db"
  by (simp add: states_ok_def put_detector_run_def)

lemma states_ok_complete:
  assumes "states_ok n db"
  shows "states_ok n (snd (complete_detector_run now run t out patch db))"
  using assms
  by (auto simp: complete_detector_run_def Let_def upsert_detector_state_eq upserted_state_put_run states_ok_put_run
      upserted_state_def state_ok_def detector_health_def intro!: states_ok_put)

definition next_failures :: "'v ueba_db \<Rightarrow> string \<Rightarrow> int" where
  "next_failures db d = (case get_detector_state db d of Some s \<Rightarrow> dt_consecutive_failures s + 1 | None \<Rightarrow> 1)"

definition failed_state ::
  "utc \<Rightarrow> 'v detector_run \<Rightarrow> utc \<Rightarrow> string \<Rightarrow> string \<Rightarrow> int \<Rightarrow> 'v ueba_db \<Rightarrow> 'v detector_state" where
  "failed_state now run t et em n db =
     upserted_state now (dr_detector_id run)
       [ArgVersion (dr_detector_version run), ArgEnabled True,
        ArgStatus (if next_failures db (dr_detector_id run) \<ge> max 1 n then ''failing'' else ''degraded''),
        ArgFailures (next_failures db (dr_detector_id run)),
        ArgLastRunAt (Some (dr_started_at run)), ArgLastErrorAt (Some t),
        ArgLastWindowStartedAt (dr_window_started_at run), ArgLastWindowEndedAt (dr_window_ended_at run),
        ArgErrorType (text_or_none 128 et), ArgErrorMessage (text_or_none 512 em)] (Some t) db"

definition failed_run ::
  "'v detector_run \<Rightarrow> utc \<Rightarrow> string \<Rightarrow> string \<Rightarrow> 'v columns \<Rightarrow> 'v detector_run" where
  "failed_run run t et em patch =
     run\<lparr>dr_finished_at := Some t, dr_status := ''failed'',
         dr_duration_ms := Some (duration_ms (dr_started_at run) t),
         dr_error_type := text_or_none 128 et, dr_error_message := text_or_none 512 em,
         dr_context := merge_dict (dr_context run) patch\<rparr>"

lemma fail_detector_run_eq:
  "fail_detector_run now run t et em n patch db =
     (failed_run run t et em patch,
      put_detector_state (failed_state now run t et em n db)
        (put_detector_run (failed_run run t et em patch) db))"
  by (simp add: fail_detector_run_def upsert_detector_state_eq Let_def get_detector_state_put_run
      upserted_state_put_run failed_state_def failed_run_def next_failures_def)

lemma state_ok_failed:
  assumes "states_ok n db"
  shows "state_ok n (failed_state now run t et em n db)"
  using state_ok_old[OF assms, of "dr_detector_id run"]
  by (cases "get_detector_state db (dr_detector_id run)")
     (auto simp: failed_state_def upserted_state_def next_failures_def state_ok_def detector_health_def)

lemma states_ok_fail: "states_ok n db \<Longrightarrow> states_ok n (snd (fail_detector_run now run t et em n patch db))"
  by (simp add: fail_detector_run_eq states_ok_put states_ok_put_run state_ok_failed)

lemma map_key_replace_run: "map dr_id (db_runs (put_detector_run run db)) = map dr_id (db_runs db)"
  by (simp add: put_detector_run_def map_key_replace del: map_map)

lemma runs_ok_put_run: "runs_ok db \<Longrightarrow> run_ok run \<Longrightarrow> runs_ok (put_detector_run run db)"
  unfolding runs_ok_def map_key_replace_run by (auto simp: put_detector_run_def list_all_iff)

lemma runs_ok_put_state: "runs_ok (put_detector_state s db) = runs_ok db"
  by (simp add: runs_ok_def table_simps)

lemma runs_ok_start:
  assumes "runs_ok db"
  shows "runs_ok (snd (start_detector_run now d v t ws we context db))"
  using assms fresh_id_not_in[of dr_id "db_runs db"]
  by (simp add: start_detector_run_eq runs_ok_def run_ok_def table_simps)

lemma runs_ok_complete: "runs_ok db \<Longrightarrow> runs_ok (snd (complete_detector_run now run t out patch db))"
  by (simp add: complete_detector_run_def Let_def upsert_detector_state_eq runs_ok_put_state run_ok_def runs_ok_put_run)

lemma runs_ok_fail: "runs_ok db \<Longrightarrow> runs_ok (snd (fail_detector_run now run t et em n patch db))"
  by (simp add: fail_detector_run_eq runs_ok_put_state run_ok_def runs_ok_put_run failed_run_def)

text \<open>Findings and baselines.\<close>

lemma open_keys_replace:
  assumes "distinct (map uf_id fs)" "old \<in> set fs" "uf_id row = uf_id old" "uf_dedup_key row = uf_dedup_key old"
    "uf_status row = ''open'' \<longleftrightarrow> uf_status old = ''open''"
  shows "open_keys (map (\<lambda>f. if uf_id f = uf_id row then row else f) fs) = open_keys fs"
proof -
  have "f \<in> set fs \<Longrightarrow> uf_id f = uf_id row \<Longrightarrow> f = old" for f
    using assms(1-3) by (auto simp: distinct_map dest: inj_onD)
  then have "\<forall>f\<in>set fs. uf_id f = uf_id row \<longrightarrow> f = old" by blast
  then show ?thesis unfolding open_keys_def using assms(4,5) by (induction fs) auto
qed

lemma findings_ok_replace:
  assumes "findings_ok db" "old \<in> set (db_findings db)" "uf_id row = uf_id old"
    "uf_dedup_key row = uf_dedup_key old" "uf_status row = ''open'' \<longleftrightarrow> uf_status old = ''open''"
  shows "findings_ok (replace_finding row db)"
proof -
  have "open_keys (map (\<lambda>f. if uf_id f = uf_id row then row else f) (db_findings db)) = open_keys (db_findings db)"
    by (rule open_keys_replace[of _ old]) (use assms in \<open>simp_all add: findings_ok_def\<close>)
  with assms(1) show ?thesis by (simp add: findings_ok_def replace_finding_def map_key_replace del: map_map)
qed

lemma first_SomeD: "(case xs of [] \<Rightarrow> None | x # _ \<Rightarrow> Some x) = Some y \<Longrightarrow> y \<in> set xs"
  by (cases xs) simp_all

lemma get_open_findingD:
  "get_open_finding_by_dedup_key db k = Some f \<Longrightarrow>
     f \<in> set (db_findings db) \<and> uf_dedup_key f = k \<and> uf_status f = ''open''"
  unfolding get_open_finding_by_dedup_key_def by (drule first_SomeD) simp

lemma sort_desc_Nil_iff [simp]: "sort_desc f xs = [] \<longleftrightarrow> xs = []"
  by (metis length_0_conv length_sort_desc)

lemma get_open_finding_None:
  "get_open_finding_by_dedup_key db k = None \<longleftrightarrow> k \<notin> set (open_keys (db_findings db))"
proof -
  have "get_open_finding_by_dedup_key db k = None \<longleftrightarrow>
      sort_desc last_seen_key (sort_desc uf_id
        (filter (\<lambda>f. uf_dedup_key f = k \<and> uf_status f = ''open'') (db_findings db))) = []"
    unfolding get_open_finding_by_dedup_key_def by (cases "sort_desc last_seen_key (sort_desc uf_id
        (filter (\<lambda>f. uf_dedup_key f = k \<and> uf_status f = ''open'') (db_findings db)))") (simp_all only: list.case option.distinct list.distinct simp_thms)
  then show ?thesis by (auto simp: open_keys_def filter_empty_conv)
qed

lemma merge_observation_frame [simp]:
  "uf_id (merge_observation u ob f) = uf_id f"
  "uf_dedup_key (merge_observation u ob f) = uf_dedup_key f"
  "uf_status (merge_observation u ob f) = ''open''"
  by (simp_all add: merge_observation_def)

definition written_at :: "utc \<Rightarrow> 'v observation \<Rightarrow> utc" where
  "written_at now ob =
     (case ob_updated_at ob of Some t \<Rightarrow> t | None \<Rightarrow> (case ob_last_seen_at ob of Some t \<Rightarrow> t | None \<Rightarrow> now))"

lemma observe_new:
  "get_open_finding_by_dedup_key db (ob_dedup_key ob) = None \<Longrightarrow>
     snd (record_finding_observation now ob db) =
       db\<lparr>db_findings := db_findings db @ [new_finding (fresh_id uf_id (db_findings db)) (written_at now ob) ob]\<rparr>"
  by (simp add: record_finding_observation_def Let_def written_at_def)

lemma observe_old:
  "get_open_finding_by_dedup_key db (ob_dedup_key ob) = Some old \<Longrightarrow>
     snd (record_finding_observation now ob db) = replace_finding (merge_observation (written_at now ob) ob old) db"
  by (simp add: record_finding_observation_def Let_def written_at_def)

lemma findings_ok_observe:
  assumes "findings_ok db"
  shows "findings_ok (snd (record_finding_observation now ob db))"
proof (cases "get_open_finding_by_dedup_key db (ob_dedup_key ob)")
  case None
  with assms fresh_id_not_in[of uf_id "db_findings db"] show ?thesis
    by (auto simp: observe_new[OF None] findings_ok_def get_open_finding_None open_keys_def new_finding_def
        simp del: fresh_id_not_in)
next
  case (Some old)
  then show ?thesis
    using findings_ok_replace[OF assms, of old] get_open_findingD[OF Some] by (simp add: observe_old[OF Some])
qed

lemma findings_ok_link:
  "findings_ok db \<Longrightarrow> f \<in> set (db_findings db) \<Longrightarrow> findings_ok (snd (link_alert_to_finding now f a l db))"
  by (simp add: link_alert_to_finding_def Let_def findings_ok_replace)

lemma get_baseline_None: "get_baseline_by_key db k = None \<longleftrightarrow> k \<notin> ub_baseline_key ` set (db_baselines db)"
  by (auto simp: get_baseline_by_key_def find_None_iff)

lemma get_baselineD: "get_baseline_by_key db k = Some b \<Longrightarrow> b \<in> set (db_baselines db) \<and> ub_baseline_key b = k"
  by (auto simp: get_baseline_by_key_def find_Some_iff)

lemma map_replace_same:
  assumes "distinct (map f xs)" "old \<in> set xs" "f row = f old" "g row = g old"
  shows "map g (map (\<lambda>x. if f x = f old then row else x) xs) = map g xs"
proof -
  have "x \<in> set xs \<Longrightarrow> f x = f old \<Longrightarrow> x = old" for x
    using assms(1,2) by (auto simp: distinct_map dest: inj_onD)
  then show ?thesis using assms(4) by (auto simp: map_eq_conv)
qed

lemma baselines_ok_upsert:
  assumes "baselines_ok db"
  shows "baselines_ok (snd (upsert_baseline now k payload u db))"
proof (cases "get_baseline_by_key db k")
  case None
  then have "k \<notin> ub_baseline_key ` set (db_baselines db)" by (simp add: get_baseline_None)
  with None assms show ?thesis by (simp add: upsert_baseline_def Let_def baselines_ok_def)
next
  case (Some old)
  then show ?thesis
    using assms get_baselineD[OF Some]
    by (simp add: upsert_baseline_def Let_def baselines_ok_def map_replace_same del: map_map)
qed


text \<open>Every step keeps the invariant.\<close>

lemmas ueba_ok_intros =
  baselines_ok_upsert findings_ok_observe findings_ok_link
  states_ok_start states_ok_remember states_ok_complete states_ok_fail
  runs_ok_start runs_ok_complete runs_ok_fail

lemma start_detector_run_tables [table_simps]:
  "db_baselines (snd (start_detector_run now d v t ws we context db)) = db_baselines db"
  "db_findings (snd (start_detector_run now d v t ws we context db)) = db_findings db"
  "db_evidence (snd (start_detector_run now d v t ws we context db)) = db_evidence db"
  by (simp_all add: start_detector_run_eq table_simps)

lemma complete_detector_run_tables [table_simps]:
  "db_baselines (snd (complete_detector_run now run t out patch db)) = db_baselines db"
  "db_findings (snd (complete_detector_run now run t out patch db)) = db_findings db"
  "db_evidence (snd (complete_detector_run now run t out patch db)) = db_evidence db"
  by (simp_all add: complete_detector_run_def Let_def upsert_detector_state_eq table_simps)

lemma fail_detector_run_tables [table_simps]:
  "db_baselines (snd (fail_detector_run now run t et em n patch db)) = db_baselines db"
  "db_findings (snd (fail_detector_run now run t et em n patch db)) = db_findings db"
  "db_evidence (snd (fail_detector_run now run t et em n patch db)) = db_evidence db"
  by (simp_all add: fail_detector_run_eq table_simps)

lemmas table_congs = baselines_ok_cong findings_ok_cong states_ok_cong runs_ok_cong

lemma lifecycle_step_ok: "lifecycle_step n db db' \<Longrightarrow> ueba_ok n db \<Longrightarrow> ueba_ok n db'"
  by (induction rule: lifecycle_step.induct)
     (simp_all add: ueba_ok_def ueba_ok_intros table_simps table_congs[of "snd (upsert_baseline _ _ _ _ _)"]
        table_congs[of "snd (record_finding_observation _ _ _)"] table_congs[of "snd (link_alert_to_finding _ _ _ _ _)"]
        table_congs[of "snd (append_finding_evidence _ _ _ _)"] table_congs[of "merge_detector_context _ _ _ _"]
        table_congs[of "snd (start_detector_run _ _ _ _ _ _ _ _)"] table_congs[of "snd (complete_detector_run _ _ _ _ _ _)"]
        table_congs[of "snd (fail_detector_run _ _ _ _ _ _ _ _)"])

lemma lifecycle_steps_ok: "(lifecycle_step n)\<^sup>*\<^sup>* db db' \<Longrightarrow> ueba_ok n db \<Longrightarrow> ueba_ok n db'"
  by (induction rule: rtranclp_induct) (blast intro: lifecycle_step_ok)+

lemma empty_db_ok: "ueba_ok n empty_db"
  by (simp add: ueba_ok_def baselines_ok_def findings_ok_def states_ok_def runs_ok_def empty_db_def open_keys_def)

section \<open>The cycle as lifecycle steps\<close>

lemma dr_id_put_run: "dr_id ` set (db_runs (put_detector_run run db)) = dr_id ` set (db_runs db)"
  using map_key_replace_run[of run db] by (metis list.set_map)

lemma lifecycle_step_keeps_runs:
  "lifecycle_step n db db' \<Longrightarrow> dr_id ` set (db_runs db) \<subseteq> dr_id ` set (db_runs db')"
  by (induction rule: lifecycle_step.induct)
     (auto simp: table_simps start_detector_run_eq complete_detector_run_def fail_detector_run_eq Let_def
        upsert_detector_state_eq dr_id_put_run)

lemma lifecycle_steps_keep_runs:
  "(lifecycle_step n)\<^sup>*\<^sup>* db db' \<Longrightarrow> dr_id ` set (db_runs db) \<subseteq> dr_id ` set (db_runs db')"
  by (induction rule: rtranclp_induct) (use lifecycle_step_keeps_runs in blast)+

lemma current_run_mem: "dr_id run \<in> dr_id ` set (db_runs db) \<Longrightarrow> current_run db run \<in> set (db_runs db)"
  by (auto simp: current_run_def get_detector_run_def find_None_iff find_Some_iff split: option.splits)

text \<open>A detector whose run does to the database what lifecycle operations do.\<close>

definition lifecycle_detector :: "int \<Rightarrow> 'v ueba_detector \<Rightarrow> bool" where
  "lifecycle_detector n det \<longleftrightarrow> (\<forall>now db. (lifecycle_step n)\<^sup>*\<^sup>* db (snd (ud_run det now db)))"

lemma start_cycle_run_step:
  "lifecycle_step n db (snd (start_cycle_run det now bounds context db))"
  by (simp add: start_cycle_run_def lifecycle_step.start)

lemma start_cycle_run_mem:
  "fst (start_cycle_run det now bounds context db) \<in> set (db_runs (snd (start_cycle_run det now bounds context db)))"
  by (simp add: start_cycle_run_def start_detector_run_eq table_simps)

lemma fail_cycle_run_step:
  "run \<in> set (db_runs db) \<Longrightarrow> lifecycle_step n db (fail_cycle_run em clock n now run exc db)"
  by (simp add: fail_cycle_run_def lifecycle_step.fail)

lemma finish_cycle_run_steps:
  assumes "dr_id run \<in> dr_id ` set (db_runs db)"
  shows "(lifecycle_step n)\<^sup>*\<^sup>* db (finish_cycle_run em clock det now run outcome flushed db)"
proof -
  have "lifecycle_step n db (merge_detector_context clock (ud_detector_id det) (er_state_context_patch outcome) db)"
    by (rule lifecycle_step.remember)
  moreover have "lifecycle_step n (merge_detector_context clock (ud_detector_id det) (er_state_context_patch outcome) db)
      (finish_cycle_run em clock det now run outcome flushed db)"
    unfolding finish_cycle_run_def Let_def
    by (rule lifecycle_step.complete, rule current_run_mem) (simp add: table_simps assms)
  ultimately show ?thesis by (meson rtranclp.rtrancl_refl rtranclp.rtrancl_into_rtrancl)
qed

text \<open>The four ways of a cycle: the window fails twice, fails once, the run fails, the run returns.\<close>

lemma run_one_detector_cases [consumes 1, case_names never before failed completed]:
  assumes "run_one_detector em clock n now det db = (r, db')"
  obtains e e' where "ud_window_bounds det 0 now db = Inl e" "ud_window_bounds det 1 now db = Inl e'"
      "r = failed_result det e" "db' = db"
    | e bounds run started where "ud_window_bounds det 0 now db = Inl e" "ud_window_bounds det 1 now db = Inr bounds"
      "start_cycle_run det now bounds
         [(''source'', em_text em ''postgres''), (''failed_before_execution'', em_bool em True)] db = (run, started)"
      "r = failed_result det e" "db' = fail_cycle_run em clock n now run e started"
    | bounds run started e written where "ud_window_bounds det 0 now db = Inr bounds"
      "start_cycle_run det now bounds [(''source'', em_text em ''postgres'')] db = (run, started)"
      "ud_run det now started = (Inl e, written)"
      "r = failed_result det e" "db' = fail_cycle_run em clock n now (current_run started run) e started"
    | bounds run started out written where "ud_window_bounds det 0 now db = Inr bounds"
      "start_cycle_run det now bounds [(''source'', em_text em ''postgres'')] db = (run, started)"
      "ud_run det now started = (Inr out, written)"
      "r = \<lparr>cy_detector_id = ud_detector_id det, cy_detector_version = ud_detector_version det,
         cy_status = ''completed'', cy_outcome = Some out, cy_error_type = None, cy_error_message = None\<rparr>"
      "db' = finish_cycle_run em clock det now run out (ud_flushed det now started) written"
proof (cases "ud_window_bounds det 0 now db")
  case (Inl e)
  note zero = this
  show ?thesis
  proof (cases "ud_window_bounds det 1 now db")
    case (Inl e')
    show ?thesis by (rule that(1)[OF zero Inl]) (use assms zero Inl in \<open>simp_all add: run_one_detector_def\<close>)
  next
    case (Inr bounds)
    obtain run started where start: "start_cycle_run det now bounds
        [(''source'', em_text em ''postgres''), (''failed_before_execution'', em_bool em True)] db = (run, started)"
      by fastforce
    show ?thesis by (rule that(2)[OF zero Inr start]) (use assms zero Inr start in \<open>simp_all add: run_one_detector_def\<close>)
  qed
next
  case (Inr bounds)
  note zero = this
  obtain run started where start: "start_cycle_run det now bounds [(''source'', em_text em ''postgres'')] db = (run, started)"
    by fastforce
  obtain outcome written where ran: "ud_run det now started = (outcome, written)" by fastforce
  show ?thesis
  proof (cases outcome)
    case (Inl e)
    show ?thesis by (rule that(3)[OF zero start ran[unfolded Inl]])
      (use assms zero start ran Inl in \<open>simp_all add: run_one_detector_def\<close>)
  next
    case (Inr out)
    show ?thesis by (rule that(4)[OF zero start ran[unfolded Inr]])
      (use assms zero start ran Inr in \<open>simp_all add: run_one_detector_def\<close>)
  qed
qed

lemma run_one_detector_steps:
  assumes run: "run_one_detector em clock n now det db = (r, db')" and det: "lifecycle_detector n det"
  shows "(lifecycle_step n)\<^sup>*\<^sup>* db db'"
  using run
proof (cases rule: run_one_detector_cases)
  case never
  then show ?thesis by simp
next
  case (before e bounds run started)
  have "lifecycle_step n db started" "run \<in> set (db_runs started)"
    using start_cycle_run_step start_cycle_run_mem before(3) by (metis snd_conv, metis fst_conv snd_conv)
  then show ?thesis using fail_cycle_run_step before(5) by (metis r_into_rtranclp rtranclp.rtrancl_into_rtrancl)
next
  case (failed bounds run started e written)
  have "lifecycle_step n db started" "run \<in> set (db_runs started)"
    using start_cycle_run_step start_cycle_run_mem failed(2) by (metis snd_conv, metis fst_conv snd_conv)
  then show ?thesis using fail_cycle_run_step[OF current_run_mem] failed(5)
    by (metis imageI r_into_rtranclp rtranclp.rtrancl_into_rtrancl)
next
  case (completed bounds run started out written)
  have start: "lifecycle_step n db started" "run \<in> set (db_runs started)"
    using start_cycle_run_step start_cycle_run_mem completed(2) by (metis snd_conv, metis fst_conv snd_conv)
  have steps: "(lifecycle_step n)\<^sup>*\<^sup>* started written"
    using det completed(3) unfolding lifecycle_detector_def by (metis snd_conv)
  then have "dr_id run \<in> dr_id ` set (db_runs written)" using lifecycle_steps_keep_runs start(2) by blast
  then have "(lifecycle_step n)\<^sup>*\<^sup>* written db'" using finish_cycle_run_steps completed(5) by blast
  with start(1) steps show ?thesis by (meson converse_rtranclp_into_rtranclp rtranclp_trans)
qed

lemma run_detectors_steps:
  "list_all (lifecycle_detector n) dets \<Longrightarrow> run_detectors em clock n now dets db = (rs, db') \<Longrightarrow>
     (lifecycle_step n)\<^sup>*\<^sup>* db db'"
proof (induction em clock n now dets db arbitrary: rs db' rule: run_detectors.induct)
  case (2 em clock n now det dets db)
  then show ?case by (auto split: prod.splits dest: run_one_detector_steps intro: rtranclp_trans)
qed simp

section \<open>The invariant of the worker\<close>

text \<open>A detector used by the witnesses: it observes one finding, or fails with an error.\<close>

definition sample_embedding :: "string embedding" where
  "sample_embedding = \<lparr>em_text = (\<lambda>s. s), em_bool = (\<lambda>b. if b then ''true'' else ''false'')\<rparr>"

definition sample_observation :: "string observation" where
  "sample_observation =
     \<lparr>ob_dedup_key = ''k'', ob_status = None, ob_closed_at = None, ob_first_seen_at = Some 5, ob_last_seen_at = Some 7,
      ob_window_started_at = Some 0, ob_window_ended_at = Some 10, ob_cooldown_until = None,
      ob_occurrence_count = Some 2, ob_severity = Some ''low'', ob_confidence = Some 60, ob_risk_score = Some 30,
      ob_reason_codes = [''rare''], ob_explanation = [], ob_updated_at = None, ob_alert_id = None,
      ob_columns = [(''detector_id'', Some ''d'')]\<rparr>"

definition sample_detector :: "bool \<Rightarrow> string ueba_detector" where
  "sample_detector fails =
     \<lparr>ud_detector_id = ''d'', ud_detector_version = 1, ud_window_bounds = (\<lambda>_ now _. Inr (Some (now - 10), Some now)),
      ud_run = (\<lambda>now db. (if fails then Inl (''ValueError'', ''bad'')
         else Inr \<lparr>er_counters = no_counters, er_state_context_patch = [(''last_event_id'', ''9'')], er_run_context_patch = []\<rparr>,
         snd (record_finding_observation now sample_observation db))),
      ud_flushed = (\<lambda>now db. snd (record_finding_observation now sample_observation db))\<rparr>"

lemma sample_lifecycle_detector: "lifecycle_detector n (sample_detector b)"
  by (auto simp: lifecycle_detector_def sample_detector_def intro!: r_into_rtranclp lifecycle_step.observe)

lemma run_ueba_cycle_ok:
  assumes "ueba_ok (wc_failing_after cfg) (snd s)" and "list_all (lifecycle_detector (wc_failing_after cfg)) dets"
    and maintenance: "\<And>t db db'. maintenance t db = Some db' \<Longrightarrow> ueba_ok (wc_failing_after cfg) db \<Longrightarrow> ueba_ok (wc_failing_after cfg) db'"
  shows "ueba_ok (wc_failing_after cfg) (snd (snd (run_ueba_cycle em maintenance cfg clock now dets s)))"
proof -
  obtain l db where due: "run_maintenance_if_due maintenance cfg now s = (l, db)" by fastforce
  obtain rs db' where ran: "run_detectors em clock (wc_failing_after cfg) now dets db = (rs, db')" by fastforce
  have "ueba_ok (wc_failing_after cfg) db"
    using due assms(1) maintenance by (auto simp: run_maintenance_if_due_def Let_def split: if_splits option.splits)
  with run_detectors_steps[OF assms(2) ran] have "ueba_ok (wc_failing_after cfg) db'" by (rule lifecycle_steps_ok)
  then show ?thesis by (simp add: run_ueba_cycle_def due ran)
qed



section \<open>Failing runs\<close>

lemma fail_cycle_run_tables [table_simps]:
  "db_baselines (fail_cycle_run em clock n now run exc db) = db_baselines db"
  "db_findings (fail_cycle_run em clock n now run exc db) = db_findings db"
  "db_evidence (fail_cycle_run em clock n now run exc db) = db_evidence db"
  by (simp_all add: fail_cycle_run_def table_simps)

lemma finish_cycle_run_tables [table_simps]:
  "db_baselines (finish_cycle_run em clock det now run out flushed db) = db_baselines db"
  "db_findings (finish_cycle_run em clock det now run out flushed db) = db_findings db"
  "db_evidence (finish_cycle_run em clock det now run out flushed db) = db_evidence db"
  by (simp_all add: finish_cycle_run_def Let_def table_simps)

lemma start_cycle_run_tables:
  "start_cycle_run det now bounds context db = (run, started) \<Longrightarrow>
     db_baselines started = db_baselines db \<and> db_findings started = db_findings db \<and> db_evidence started = db_evidence db"
  unfolding start_cycle_run_def by (metis snd_conv start_detector_run_tables)

definition same_product :: "'v ueba_db \<Rightarrow> 'v ueba_db \<Rightarrow> bool" where
  "same_product db db' \<longleftrightarrow>
     db_baselines db' = db_baselines db \<and> db_findings db' = db_findings db \<and> db_evidence db' = db_evidence db"

lemma run_one_detector_atomic:
  assumes "run_one_detector em clock n now det db = (r, db')"
  shows "cy_status r = ''failed'' \<and> cy_outcome r = None \<and> same_product db db' \<or>
     cy_status r = ''completed'' \<and>
     (\<exists>started out written. same_product db started \<and> ud_run det now started = (Inr out, written) \<and>
        cy_outcome r = Some out \<and> same_product written db')"
  using assms
proof (cases rule: run_one_detector_cases)
  case never
  then show ?thesis by (simp add: failed_result_def same_product_def)
next
  case (before e bounds run started)
  then show ?thesis using start_cycle_run_tables[OF before(3)] by (simp add: failed_result_def same_product_def table_simps)
next
  case (failed bounds run started e written)
  then show ?thesis using start_cycle_run_tables[OF failed(2)] by (simp add: failed_result_def same_product_def table_simps)
next
  case (completed bounds run started out written)
  have "same_product db started" "same_product written db'"
    using start_cycle_run_tables[OF completed(2)] completed(5) by (simp_all add: same_product_def table_simps)
  moreover have "cy_status r = ''completed''" "cy_outcome r = Some out" by (simp_all add: completed(4))
  ultimately show ?thesis using completed(3) by blast
qed



section \<open>The states and runs of detectors\<close>

text \<open>
  The detectors of the program leave the tables of states and runs to the worker, and their windows are
  plain arithmetic on the clock.
\<close>

definition plain_detector :: "'v ueba_detector \<Rightarrow> bool" where
  "plain_detector det \<longleftrightarrow>
     (\<forall>now db. db_states (snd (ud_run det now db)) = db_states db \<and> db_runs (snd (ud_run det now db)) = db_runs db \<and>
        \<not> isl (ud_window_bounds det 1 now db))"

lemma plain_detectorD:
  assumes "plain_detector det"
  shows "db_states (snd (ud_run det now db)) = db_states db" "db_runs (snd (ud_run det now db)) = db_runs db"
    "ud_window_bounds det 1 now db \<noteq> Inl e"
proof -
  have "\<not> isl (ud_window_bounds det 1 now db)" using assms by (simp add: plain_detector_def)
  then show "ud_window_bounds det 1 now db \<noteq> Inl e" by auto
qed (use assms in \<open>simp_all add: plain_detector_def\<close>)

lemma started_state_id [simp]: "dt_detector_id (started_state now d v t ws we db) = d"
  by (simp add: started_state_def Let_def)

lemma get_detector_state_runs: "get_detector_state (db\<lparr>db_runs := runs\<rparr>) d = get_detector_state db d"
  by (simp add: get_detector_state_def)

lemma start_cycle_run_fst:
  assumes "start_cycle_run det now bounds context db = (run, started)"
  shows "dr_id run = fresh_id dr_id (db_runs db)" "dr_detector_id run = ud_detector_id det" "dr_started_at run = now"
    "db_runs started = db_runs db @ [run]"
    "get_detector_state started d =
       (if d = ud_detector_id det
        then Some (started_state now d (Some (ud_detector_version det)) now (fst bounds) (snd bounds) db)
        else get_detector_state db d)"
  using assms
  by (auto simp: start_cycle_run_def start_detector_run_eq table_simps started_state_id get_detector_state_runs)

lemma fresh_id_neq: "r \<in> set rows \<Longrightarrow> f r \<noteq> fresh_id f rows"
  by (metis fresh_id_not_in imageI)

lemma current_run_started:
  assumes "db_runs db' = db_runs db @ [run]" "dr_id run = fresh_id dr_id (db_runs db)"
  shows "current_run db' run = run"
proof -
  have "\<forall>r\<in>set (db_runs db). dr_id r \<noteq> dr_id run"
    using fresh_id_neq[of _ "db_runs db" dr_id] assms(2) by metis
  then show ?thesis by (simp add: current_run_def get_detector_run_def assms(1) find_append_new)
qed

lemma put_started_run:
  assumes "db_runs db' = db_runs db @ [run]" "dr_id run = fresh_id dr_id (db_runs db)" "dr_id run' = dr_id run"
  shows "db_runs (put_detector_run run' db') = db_runs db @ [run']"
proof -
  have "map (\<lambda>r. if dr_id r = dr_id run' then run' else r) (db_runs db) = db_runs db"
    using fresh_id_neq[of _ "db_runs db" dr_id] assms(2,3) by (intro map_idI) metis
  then show ?thesis by (simp add: put_detector_run_def assms(1) assms(3))
qed

definition completed_run :: "'v detector_run \<Rightarrow> utc \<Rightarrow> run_outcome \<Rightarrow> 'v columns \<Rightarrow> 'v detector_run" where
  "completed_run run t out patch =
     run\<lparr>dr_finished_at := Some t, dr_status := ''completed'', dr_counters := ro_counters out,
         dr_duration_ms := Some (duration_ms (dr_started_at run) t),
         dr_context := merge_dict (dr_context run) patch, dr_error_type := None, dr_error_message := None\<rparr>"

definition completed_state ::
  "utc \<Rightarrow> 'v detector_run \<Rightarrow> utc \<Rightarrow> run_outcome \<Rightarrow> 'v ueba_db \<Rightarrow> 'v detector_state" where
  "completed_state now run t out db =
     upserted_state now (dr_detector_id run)
       [ArgVersion (dr_detector_version run), ArgEnabled True, ArgStatus ''healthy'', ArgFailures 0,
        ArgBaselineCount (ro_baseline_count out), ArgMatureBaselineCount (ro_mature_baseline_count out),
        ArgOpenFindings (ro_open_findings out), ArgLastRunAt (Some (dr_started_at run)),
        ArgLastSuccessAt (Some t), ArgLastWindowStartedAt (dr_window_started_at run),
        ArgLastWindowEndedAt (dr_window_ended_at run), ArgErrorType None, ArgErrorMessage None] (Some t) db"

lemma complete_detector_run_eq:
  "snd (complete_detector_run now run t out patch db) =
     put_detector_state (completed_state now run t out db) (put_detector_run (completed_run run t out patch) db)"
  by (simp add: complete_detector_run_def Let_def upsert_detector_state_eq completed_run_def completed_state_def
      upserted_state_put_run)

lemma completed_state_fields:
  "dt_detector_id (completed_state now run t out db) = dr_detector_id run"
  "dt_consecutive_failures (completed_state now run t out db) = 0"
  "dt_status (completed_state now run t out db) = ''healthy''"
  by (simp_all add: completed_state_def) (simp_all add: upserted_state_def)

lemma failed_state_fields:
  "dt_detector_id (failed_state now run t et em n db) = dr_detector_id run"
  "dt_consecutive_failures (failed_state now run t et em n db) = next_failures db (dr_detector_id run)"
  "dt_status (failed_state now run t et em n db) =
     (if max 1 n \<le> next_failures db (dr_detector_id run) then ''failing'' else ''degraded'')"
  by (simp_all add: failed_state_def) (simp_all add: upserted_state_def)

lemma started_state_failures:
  "dt_consecutive_failures (started_state now d v t ws we db) =
     (case get_detector_state db d of None \<Rightarrow> 0 | Some s \<Rightarrow> dt_consecutive_failures s)"
  by (simp add: started_state_def upserted_state_def Let_def new_detector_state_def split: option.splits)


text \<open>What a cycle of a plain detector leaves in the tables of states and runs.\<close>

definition failures_of :: "'v ueba_db \<Rightarrow> string \<Rightarrow> int" where
  "failures_of db d = (case get_detector_state db d of None \<Rightarrow> 0 | Some s \<Rightarrow> dt_consecutive_failures s)"

definition run_reports :: "utc \<Rightarrow> 'v detector_cycle_result \<Rightarrow> 'v detector_run \<Rightarrow> bool" where
  "run_reports now r run \<longleftrightarrow>
     dr_detector_id run = cy_detector_id r \<and> dr_status run = cy_status r \<and>
     dr_started_at run = now \<and> dr_finished_at run = Some now \<and> dr_duration_ms run = Some 0 \<and>
     dr_error_type run = Option.bind (cy_error_type r) (text_or_none 128) \<and>
     dr_error_message run = Option.bind (cy_error_message r) (text_or_none 512)"

definition health_after :: "int \<Rightarrow> bool \<Rightarrow> int \<Rightarrow> int \<times> string" where
  "health_after n failed k =
     (if failed then (k + 1, if max 1 n \<le> k + 1 then ''failing'' else ''degraded'') else (0, ''healthy''))"

definition bookkept :: "int \<Rightarrow> utc \<Rightarrow> 'v detector_cycle_result \<Rightarrow> 'v ueba_db \<Rightarrow> 'v ueba_db \<Rightarrow> bool" where
  "bookkept n now r db db' \<longleftrightarrow>
     (\<exists>run. db_runs db' = db_runs db @ [run] \<and> run_reports now r run) \<and>
     (\<exists>s. get_detector_state db' (cy_detector_id r) = Some s \<and>
        (dt_consecutive_failures s, dt_status s) = health_after n (cy_status r = ''failed'') (failures_of db (cy_detector_id r))) \<and>
     (\<forall>d. d \<noteq> cy_detector_id r \<longrightarrow> get_detector_state db' d = get_detector_state db d)"

lemma duration_ms_same [simp]: "duration_ms t t = 0"
  by (simp add: duration_ms_def)

lemma bookkept_failed:
  assumes start: "start_cycle_run det now bounds context db = (run, started)"
  shows "bookkept n now (failed_result det e) db (fail_cycle_run em clock n now run e started)"
proof -
  note s = start_cycle_run_fst[OF start]
  let ?run = "failed_run run now (fst e) (snd e) [(''source'', em_text em ''postgres'')]"
  have runs: "db_runs (fail_cycle_run em clock n now run e started) = db_runs db @ [?run]"
    using put_started_run[OF s(4) s(1), of ?run] by (simp add: fail_cycle_run_def fail_detector_run_eq table_simps failed_run_def)
  have reports: "run_reports now (failed_result det e) ?run"
    by (simp add: run_reports_def failed_result_def failed_run_def s)
  have states: "get_detector_state (fail_cycle_run em clock n now run e started) d =
      (if d = ud_detector_id det then Some (failed_state clock run now (fst e) (snd e) n started)
       else get_detector_state db d)" for d
    by (simp add: fail_cycle_run_def fail_detector_run_eq table_simps failed_state_fields get_detector_state_put_run s)
  have one_more: "next_failures started (ud_detector_id det) = failures_of db (ud_detector_id det) + 1"
    by (simp add: next_failures_def s started_state_failures failures_of_def split: option.splits)
  show ?thesis unfolding bookkept_def
    using runs reports
    by (auto simp: states failed_result_def failed_state_fields health_after_def s one_more)
qed

lemma bookkept_completed:
  assumes start: "start_cycle_run det now bounds context db = (run, started)"
    and written: "db_states written = db_states started" "db_runs written = db_runs started"
    and r: "cy_detector_id r = ud_detector_id det" "cy_status r = ''completed''" "cy_error_type r = None" "cy_error_message r = None"
  shows "bookkept n now r db (finish_cycle_run em clock det now run out flushed written)"
proof -
  note s = start_cycle_run_fst[OF start]
  let ?db = "merge_detector_context clock (ud_detector_id det) (er_state_context_patch out) written"
  have runs_db: "db_runs ?db = db_runs db @ [run]" by (simp add: table_simps written s)
  have current: "current_run ?db run = run" by (rule current_run_started[OF runs_db s(1)])
  obtain ro where finish: "finish_cycle_run em clock det now run out flushed written =
      put_detector_state (completed_state clock run now ro ?db) (put_detector_run (completed_run run now ro (er_run_context_patch out)) ?db)"
    by (simp add: finish_cycle_run_def Let_def complete_detector_run_eq current)
  let ?run = "completed_run run now ro (er_run_context_patch out)"
  have runs: "db_runs (finish_cycle_run em clock det now run out flushed written) = db_runs db @ [?run]"
    using put_started_run[OF runs_db s(1), of ?run] by (simp add: finish table_simps completed_run_def)
  have reports: "run_reports now r ?run"
    by (simp add: run_reports_def completed_run_def s r)
  have other: "d \<noteq> ud_detector_id det \<Longrightarrow> get_detector_state ?db d = get_detector_state db d" for d
    using s(5)[of d] get_detector_state_cong[OF written(1), of d]
    by (simp add: merge_detector_context_def Let_def upsert_detector_state_eq table_simps)
  have states: "get_detector_state (finish_cycle_run em clock det now run out flushed written) d =
      (if d = ud_detector_id det then Some (completed_state clock run now ro ?db) else get_detector_state db d)" for d
    using other[of d] by (simp add: finish table_simps completed_state_fields get_detector_state_put_run s)
  show ?thesis unfolding bookkept_def
    using runs reports by (auto simp: states completed_state_fields health_after_def r)
qed

lemma run_one_detector_bookkept:
  assumes run: "run_one_detector em clock n now det db = (r, db')" and plain: "plain_detector det"
  shows "bookkept n now r db db'"
  using run
proof (cases rule: run_one_detector_cases)
  case never
  then show ?thesis using plain_detectorD(3)[OF plain] by metis
next
  case (before e bounds run started)
  then show ?thesis using bookkept_failed[OF before(3)] by simp
next
  case (failed bounds run started e written)
  have "current_run started run = run"
    by (rule current_run_started) (use start_cycle_run_fst[OF failed(2)] in simp_all)
  then show ?thesis using bookkept_failed[OF failed(2)] failed(4,5) by simp
next
  case (completed bounds run started out written)
  show ?thesis unfolding completed(5)
    by (rule bookkept_completed[OF completed(2)])
       (use plain_detectorD(1,2)[OF plain, of now started] completed(3,4) in simp_all)
qed


text \<open>
  The abstract view of a detector is the list of its results, oldest first (\<open>True\<close> is a completed run).
  Its state row shows the failures at the end of that list.
\<close>

definition trailing_failures :: "bool list \<Rightarrow> nat" where
  "trailing_failures h = length (takeWhile Not (rev h))"

definition reflects :: "int \<Rightarrow> string \<Rightarrow> bool list \<Rightarrow> 'v ueba_db \<Rightarrow> bool" where
  "reflects n d h db \<longleftrightarrow>
     (case get_detector_state db d of
        None \<Rightarrow> h = []
      | Some s \<Rightarrow> h \<noteq> [] \<and> dt_consecutive_failures s = int (trailing_failures h) \<and>
          dt_status s =
            (if trailing_failures h = 0 then ''healthy''
             else if max 1 n \<le> int (trailing_failures h) then ''failing'' else ''degraded''))"

definition results_of :: "string \<Rightarrow> 'v detector_cycle_result list \<Rightarrow> bool list" where
  "results_of d rs = map (\<lambda>r. cy_status r = ''completed'') (filter (\<lambda>r. cy_detector_id r = d) rs)"

lemma trailing_failures_snoc [simp]:
  "trailing_failures (h @ [ok]) = (if ok then 0 else Suc (trailing_failures h))"
  by (simp add: trailing_failures_def)

lemma run_one_detector_result:
  assumes "run_one_detector em clock n now det db = (r, db')"
  shows "cy_detector_id r = ud_detector_id det" "cy_status r = ''failed'' \<longleftrightarrow> cy_status r \<noteq> ''completed''"
  using assms by (cases rule: run_one_detector_cases; simp add: failed_result_def)+

lemma reflects_failures: "reflects n d h db \<Longrightarrow> failures_of db d = int (trailing_failures h)"
  by (auto simp: reflects_def failures_of_def trailing_failures_def split: option.splits)

lemma reflects_step:
  assumes run: "run_one_detector em clock n now det db = (r, db')" and plain: "plain_detector det"
    and before: "reflects n d h db"
  shows "reflects n d (h @ results_of d [r]) db'"
proof (cases "cy_detector_id r = d")
  case True
  obtain s where s: "get_detector_state db' d = Some s"
    "(dt_consecutive_failures s, dt_status s) = health_after n (cy_status r = ''failed'') (failures_of db d)"
    using run_one_detector_bookkept[OF run plain] True by (auto simp: bookkept_def)
  show ?thesis
    using s(2) True by (auto simp: reflects_def s(1) results_of_def health_after_def reflects_failures[OF before]
        run_one_detector_result(2)[OF run])
next
  case False
  then have "get_detector_state db' d = get_detector_state db d"
    using run_one_detector_bookkept[OF run plain] by (simp add: bookkept_def)
  with before False show ?thesis by (simp add: reflects_def results_of_def)
qed

lemma run_detectors_Cons:
  assumes "run_detectors em clock n now (det # dets) db = (rs, db')"
  obtains r db1 rs' where "run_one_detector em clock n now det db = (r, db1)"
    "run_detectors em clock n now dets db1 = (rs', db')" "rs = r # rs'"
  using assms by (auto split: prod.splits)

lemma run_detectors_reflects:
  "list_all plain_detector dets \<Longrightarrow> run_detectors em clock n now dets db = (rs, db') \<Longrightarrow> reflects n d h db \<Longrightarrow>
     reflects n d (h @ results_of d rs) db'"
proof (induction dets arbitrary: db rs h)
  case Nil
  then show ?case by (simp add: results_of_def)
next
  case (Cons det dets)
  obtain r db1 rs' where run: "run_one_detector em clock n now det db = (r, db1)"
    and rest: "run_detectors em clock n now dets db1 = (rs', db')" "rs = r # rs'"
    using Cons.prems(2) by (rule run_detectors_Cons)
  have plain: "plain_detector det" "list_all plain_detector dets" using Cons.prems(1) by simp_all
  have "reflects n d ((h @ results_of d [r]) @ results_of d rs') db'"
    by (rule Cons.IH[OF plain(2) rest(1) reflects_step[OF run plain(1) Cons.prems(3)]])
  moreover have "(h @ results_of d [r]) @ results_of d rs' = h @ results_of d rs"
    by (simp add: results_of_def rest(2))
  ultimately show ?case by simp
qed

lemma run_detectors_settled:
  "list_all plain_detector dets \<Longrightarrow> run_detectors em clock n now dets db = (rs, db') \<Longrightarrow>
     \<exists>runs. db_runs db' = db_runs db @ runs \<and> list_all2 (run_reports now) rs runs"
proof (induction dets arbitrary: db rs)
  case (Cons det dets)
  obtain r db1 rs' where run: "run_one_detector em clock n now det db = (r, db1)"
    and rest: "run_detectors em clock n now dets db1 = (rs', db')" "rs = r # rs'"
    using Cons.prems(2) by (rule run_detectors_Cons)
  have plain: "plain_detector det" "list_all plain_detector dets" using Cons.prems(1) by simp_all
  obtain run1 where "db_runs db1 = db_runs db @ [run1]" "run_reports now r run1"
    using run_one_detector_bookkept[OF run plain(1)] by (auto simp: bookkept_def)
  with Cons.IH[OF plain(2) rest(1)] show ?case by (auto simp: rest(2))
qed simp

text \<open>
  C0: The state row of a detector is a faithful abstraction of its history: when it reflects the results
  \<open>h\<close> of the detector so far, then after a pass over any detectors it reflects \<open>h\<close> followed by the
  detector's results in that pass. Its failure count is the number of failures since the last completed
  run, and its status is healthy, degraded or failing by that number.
\<close>

theorem detector_state_reflects_history:
  assumes "list_all plain_detector dets" and "reflects failing_after d h db"
    and "run_detectors em clock failing_after now dets db = (rs, db')"
  shows "reflects failing_after d (h @ results_of d rs) db'"
  by (rule run_detectors_reflects[OF assms(1,3,2)])

lemma sample_plain: "plain_detector (sample_detector b)"
  by (simp add: plain_detector_def sample_detector_def table_simps)

theorem detector_state_reflects_history_witness:
  "reflects 2 ''d'' (results_of ''d'' (fst (run_detectors sample_embedding 0 2 100
       [sample_detector False, sample_detector True, sample_detector True] empty_db)))
     (snd (run_detectors sample_embedding 0 2 100
       [sample_detector False, sample_detector True, sample_detector True] empty_db))"
  using detector_state_reflects_history[of "[sample_detector False, sample_detector True, sample_detector True]" 2 "''d''" "[]"
      empty_db sample_embedding 0 100]
  by (simp add: sample_plain reflects_def empty_db_def get_detector_state_def)

text \<open>
  C0: No run stays behind as running: a pass over detectors appends exactly one run per result, in the
  same order, ended at the time of the cycle with the status of the result and its error cut to 128 and
  512 characters, also when the window or the run of the detector raised an exception.
\<close>

theorem every_run_is_settled:
  assumes "list_all plain_detector dets" and "run_detectors em clock failing_after now dets db = (rs, db')"
  shows "\<exists>runs. db_runs db' = db_runs db @ runs \<and> list_all2 (run_reports now) rs runs"
  by (rule run_detectors_settled[OF assms])

theorem every_run_is_settled_witness:
  "\<exists>runs. db_runs (snd (run_detectors sample_embedding 0 2 100 [sample_detector True, sample_detector False] empty_db)) = runs \<and>
     list_all2 (run_reports 100)
       (fst (run_detectors sample_embedding 0 2 100 [sample_detector True, sample_detector False] empty_db)) runs"
  using every_run_is_settled[of "[sample_detector True, sample_detector False]" sample_embedding 0 2 100 empty_db]
  by (simp add: sample_plain empty_db_def)

end
