(* ===== verification/Ueba_Findings.thy ===== *)
theory Ueba_Findings
  imports Ueba_Worker
begin

text \<open>
  What the observations, the evidence and the triage of findings amount to
  (\<open>record_finding_observation\<close> and \<open>append_finding_evidence\<close> of \<open>features/ueba/lifecycle.py\<close>, the status part of
  \<open>triage_finding\<close> in \<open>features/ueba/service.py\<close>).
\<close>

section \<open>Observations of one finding\<close>

definition observe_all :: "utc \<Rightarrow> 'v observation list \<Rightarrow> 'v ueba_db \<Rightarrow> 'v ueba_db" where
  "observe_all now obs db = foldl (\<lambda>db ob. snd (record_finding_observation now ob db)) db obs"

definition merged_finding :: "utc \<Rightarrow> nat \<Rightarrow> 'v observation \<Rightarrow> 'v observation list \<Rightarrow> 'v ueba_finding" where
  "merged_finding now i ob rest =
     foldl (\<lambda>f ob. merge_observation (written_at now ob) ob f) (new_finding i (written_at now ob) ob) rest"

lemma merged_finding_snoc:
  "merged_finding now i ob (rest @ [ob']) = merge_observation (written_at now ob') ob' (merged_finding now i ob rest)"
  by (simp add: merged_finding_def)

lemma merged_finding_frame:
  assumes "ob_status ob = None \<or> ob_status ob = Some ''open''"
  shows "uf_id (merged_finding now i ob rest) = i" "uf_dedup_key (merged_finding now i ob rest) = ob_dedup_key ob"
    "uf_status (merged_finding now i ob rest) = ''open''"
  using assms by (induction rest rule: rev_induct) (auto simp: merged_finding_snoc, auto simp: merged_finding_def new_finding_def)

lemma sort_desc_single [simp]: "sort_desc f [x] = [x]"
  by (simp add: sort_desc_def)

lemma get_open_appended:
  assumes "get_open_finding_by_dedup_key db k = None" "uf_dedup_key f = k" "uf_status f = ''open''"
  shows "get_open_finding_by_dedup_key (db\<lparr>db_findings := db_findings db @ [f]\<rparr>) k = Some f"
proof -
  have "filter (\<lambda>f. uf_dedup_key f = k \<and> uf_status f = ''open'') (db_findings db) = []"
    using assms(1) unfolding get_open_finding_None by (auto simp: open_keys_def filter_empty_conv)
  then show ?thesis using assms(2,3) by (simp add: get_open_finding_by_dedup_key_def)
qed

lemma replace_appended:
  assumes "uf_id f = fresh_id uf_id (db_findings db)" "uf_id f' = uf_id f"
  shows "replace_finding f' (db\<lparr>db_findings := db_findings db @ [f]\<rparr>) = db\<lparr>db_findings := db_findings db @ [f']\<rparr>"
proof -
  have "map (\<lambda>g. if uf_id g = uf_id f' then f' else g) (db_findings db) = db_findings db"
    using fresh_id_neq[of _ "db_findings db" uf_id] assms by (intro map_idI) metis
  then show ?thesis using assms(2) by (simp add: replace_finding_def)
qed

lemma observe_all_new:
  assumes none: "get_open_finding_by_dedup_key db (ob_dedup_key ob) = None"
    and open_status: "ob_status ob = None \<or> ob_status ob = Some ''open''"
    and keys: "list_all (\<lambda>o'. ob_dedup_key o' = ob_dedup_key ob) rest"
  shows "observe_all now (ob # rest) db =
     db\<lparr>db_findings := db_findings db @ [merged_finding now (fresh_id uf_id (db_findings db)) ob rest]\<rparr>"
  using keys
proof (induction rest rule: rev_induct)
  case Nil
  then show ?case by (simp add: observe_all_def observe_new[OF none] merged_finding_def)
next
  case (snoc ob' rest)
  let ?i = "fresh_id uf_id (db_findings db)"
  let ?f = "merged_finding now ?i ob rest"
  note frame = merged_finding_frame[OF open_status, of now ?i rest]
  have "observe_all now (ob # rest @ [ob']) db =
      snd (record_finding_observation now ob' (db\<lparr>db_findings := db_findings db @ [?f]\<rparr>))"
    using snoc by (simp add: observe_all_def)
  also have "\<dots> = replace_finding (merge_observation (written_at now ob') ob' ?f) (db\<lparr>db_findings := db_findings db @ [?f]\<rparr>)"
    by (rule observe_old) (use get_open_appended[OF none, of ?f] frame snoc.prems in simp)
  also have "\<dots> = db\<lparr>db_findings := db_findings db @ [merge_observation (written_at now ob') ob' ?f]\<rparr>"
    by (rule replace_appended) (simp_all add: frame)
  finally show ?case by (simp add: merged_finding_snoc)
qed

text \<open>The earliest and the latest of the times that are given.\<close>

fun given_times :: "utc option list \<Rightarrow> utc list" where
  "given_times [] = []"
| "given_times (None # ts) = given_times ts"
| "given_times (Some t # ts) = t # given_times ts"

definition earliest :: "utc option list \<Rightarrow> utc option" where
  "earliest ts = (if given_times ts = [] then None else Some (Min (set (given_times ts))))"

definition latest_of :: "utc option list \<Rightarrow> utc option" where
  "latest_of ts = (if given_times ts = [] then None else Some (Max (set (given_times ts))))"

lemma given_times_snoc: "given_times (ts @ [t]) = given_times ts @ (case t of None \<Rightarrow> [] | Some a \<Rightarrow> [a])"
  by (induction ts rule: given_times.induct) (simp_all split: option.splits)

lemma earliest_snoc: "earliest (ts @ [t]) = min_dt (earliest ts) t"
  by (cases t; cases "given_times ts = []")
     (simp_all add: earliest_def min_dt_def given_times_snoc min.commute)

lemma latest_snoc: "latest_of (ts @ [t]) = max_dt (latest_of ts) t"
  by (cases t; cases "given_times ts = []")
     (simp_all add: latest_of_def max_dt_def given_times_snoc max.commute)

lemma earliest_single: "earliest [t] = t" and latest_single: "latest_of [t] = t"
  by (cases t; simp add: earliest_def latest_of_def)+

text \<open>Severities and reason codes.\<close>

lemma severity_rank_prefer:
  assumes "s \<noteq> []" "t \<noteq> []"
  shows "prefer_higher_severity s (Some t) = (if severity_rank t \<ge> severity_rank s then t else s)"
  using assms by (simp add: prefer_higher_severity_def or_default_def Let_def)

lemma merge_codes_loop_set:
  "set (merge_codes_loop merged vs) = set merged \<union> (py_strip ` set vs - {[]})"
  by (induction merged vs rule: merge_codes_loop.induct) (auto simp: Let_def)

lemma merge_codes_loop_distinct: "distinct merged \<Longrightarrow> distinct (merge_codes_loop merged vs)"
  by (induction merged vs rule: merge_codes_loop.induct) (auto simp: Let_def)

definition severity_given :: "'v observation \<Rightarrow> bool" where
  "severity_given ob = (case ob_severity ob of None \<Rightarrow> False | Some s \<Rightarrow> s \<noteq> [])"

definition severity_of :: "'v observation \<Rightarrow> string" where
  "severity_of ob = (case ob_severity ob of None \<Rightarrow> [] | Some s \<Rightarrow> s)"

definition aggregates :: "'v observation \<Rightarrow> 'v observation list \<Rightarrow> 'v ueba_finding \<Rightarrow> bool" where
  "aggregates ob rest f \<longleftrightarrow>
     uf_first_seen_at f = earliest (map ob_first_seen_at (ob # rest)) \<and>
     uf_last_seen_at f = latest_of (map ob_last_seen_at (ob # rest)) \<and>
     uf_window_started_at f = earliest (map ob_window_started_at (ob # rest)) \<and>
     uf_window_ended_at f = latest_of (map ob_window_ended_at (ob # rest)) \<and>
     uf_cooldown_until f = latest_of (map ob_cooldown_until (ob # rest)) \<and>
     uf_occurrence_count f =
       (case ob_occurrence_count ob of None \<Rightarrow> 1 | Some n \<Rightarrow> n) + (\<Sum>o'\<leftarrow>rest. max 1 (or_one (ob_occurrence_count o'))) \<and>
     uf_risk_score f = Max (set (map (\<lambda>o'. or_zero (ob_risk_score o')) (ob # rest))) \<and>
     uf_severity f \<in> severity_of ` set (ob # rest) \<and>
     severity_rank (uf_severity f) = Max (severity_rank ` severity_of ` set (ob # rest)) \<and>
     (rest \<noteq> [] \<longrightarrow> distinct (uf_reason_codes f)) \<and>
     py_strip ` set (uf_reason_codes f) - {[]} = py_strip ` (\<Union>o'\<in>set (ob # rest). set (ob_reason_codes o')) - {[]}"

lemma aggregates_first: "severity_given ob \<Longrightarrow> aggregates ob [] (new_finding i u ob)"
  by (auto simp: aggregates_def new_finding_def earliest_single latest_single severity_of_def severity_given_def
      split: option.splits)


lemma snoc_Cons: "x # xs @ [y] = (x # xs) @ [y]"
  by simp

lemma merge_observation_times:
  "uf_first_seen_at (merge_observation u ob f) = min_dt (uf_first_seen_at f) (ob_first_seen_at ob)"
  "uf_last_seen_at (merge_observation u ob f) = max_dt (uf_last_seen_at f) (ob_last_seen_at ob)"
  "uf_window_started_at (merge_observation u ob f) = min_dt (uf_window_started_at f) (ob_window_started_at ob)"
  "uf_window_ended_at (merge_observation u ob f) = max_dt (uf_window_ended_at f) (ob_window_ended_at ob)"
  "uf_cooldown_until (merge_observation u ob f) = max_dt (uf_cooldown_until f) (ob_cooldown_until ob)"
  by (simp_all add: merge_observation_def)

lemma merge_observation_scores:
  "uf_occurrence_count (merge_observation u ob f) = uf_occurrence_count f + max 1 (or_one (ob_occurrence_count ob))"
  "uf_risk_score (merge_observation u ob f) = max (uf_risk_score f) (or_zero (ob_risk_score ob))"
  "uf_severity (merge_observation u ob f) = prefer_higher_severity (uf_severity f) (ob_severity ob)"
  "uf_reason_codes (merge_observation u ob f) = merge_reason_codes (uf_reason_codes f) (ob_reason_codes ob)"
  by (simp_all add: merge_observation_def)

lemma severity_step:
  assumes "severity_given ob" "s \<noteq> []" "s \<in> S" "finite S" "severity_rank s = Max (severity_rank ` S)"
  shows "prefer_higher_severity s (ob_severity ob) \<in> insert (severity_of ob) S"
    "severity_rank (prefer_higher_severity s (ob_severity ob)) = Max (severity_rank ` insert (severity_of ob) S)"
proof -
  obtain t where t: "ob_severity ob = Some t" "t \<noteq> []" using assms(1) by (auto simp: severity_given_def split: option.splits)
  have "S \<noteq> {}" using assms(3) by blast
  then have "Max (severity_rank ` insert t S) = max (severity_rank t) (severity_rank s)"
    using assms(4,5) by simp
  then show "severity_rank (prefer_higher_severity s (ob_severity ob)) = Max (severity_rank ` insert (severity_of ob) S)"
    by (simp add: t severity_of_def severity_rank_prefer[OF assms(2) t(2)])
  show "prefer_higher_severity s (ob_severity ob) \<in> insert (severity_of ob) S"
    using assms(3) by (simp add: t severity_of_def severity_rank_prefer[OF assms(2) t(2)])
qed

lemma strip_image: "py_strip ` (py_strip ` X - {[]}) = py_strip ` X - {[]}"
proof -
  have "py_strip ` (py_strip ` X - {[]}) = id ` (py_strip ` X - {[]})" by (rule image_cong) auto
  then show ?thesis by simp
qed

lemma codes_step:
  "distinct (merge_reason_codes old new)"
  "py_strip ` set (merge_reason_codes old new) - {[]} = py_strip ` (set old \<union> set new) - {[]}"
proof -
  have "set (merge_reason_codes old new) = py_strip ` (set old \<union> set new) - {[]}"
    by (simp add: merge_reason_codes_def merge_codes_loop_set)
  then show "py_strip ` set (merge_reason_codes old new) - {[]} = py_strip ` (set old \<union> set new) - {[]}"
    by (simp only: strip_image) blast
qed (simp add: merge_reason_codes_def merge_codes_loop_distinct)

lemma Max_rotate: "finite R \<Longrightarrow> max (Max (insert a R)) r = max a (Max (insert r R))"
  by (cases "R = {}") (simp_all add: max.commute max.left_commute)

lemma aggregates_step:
  assumes agg: "aggregates ob rest f" and sev: "list_all severity_given (ob # rest)" "severity_given ob'"
  shows "aggregates ob (rest @ [ob']) (merge_observation u ob' f)"
proof -
  have f: "uf_severity f \<noteq> []"
    using agg sev(1) by (auto simp: aggregates_def severity_given_def severity_of_def list_all_iff split: option.splits)
  have S: "uf_severity f \<in> severity_of ` set (ob # rest)"
    "severity_rank (uf_severity f) = Max (severity_rank ` severity_of ` set (ob # rest))"
    using agg by (simp_all add: aggregates_def)
  note severity = severity_step[OF sev(2) f S(1) _ S(2)]
  have codes: "py_strip ` set (merge_reason_codes (uf_reason_codes f) (ob_reason_codes ob')) - {[]} =
      py_strip ` (\<Union>o'\<in>set ((ob # rest) @ [ob']). set (ob_reason_codes o')) - {[]}"
    unfolding codes_step(2) image_Un Un_Diff using agg by (auto simp: aggregates_def image_Un)
  have sets: "severity_of ` set ((ob # rest) @ [ob']) = insert (severity_of ob') (severity_of ` set (ob # rest))" by auto
  show ?thesis
    unfolding aggregates_def merge_observation_times merge_observation_scores append_Cons[symmetric] map_append
      list.map(1) list.map(2)[of _ ob' "[]"] earliest_snoc latest_snoc sets codes
    using agg severity codes_step(1) unfolding aggregates_def
    by (simp add: Max_rotate)
qed


lemma merged_finding_aggregates:
  "list_all severity_given (ob # rest) \<Longrightarrow> aggregates ob rest (merged_finding now i ob rest)"
proof (induction rest rule: rev_induct)
  case Nil
  then show ?case by (simp add: merged_finding_def aggregates_first)
next
  case (snoc ob' rest)
  then show ?case unfolding merged_finding_snoc by (intro aggregates_step) simp_all
qed

text \<open>
  C0: Repeated observations of one dedup key make one finding, and that finding is their exact aggregate: the
  earliest first and window start, the latest last sight, window end and cooldown, the sum of the
  occurrences (at least one each after the first), the highest risk score and severity, and the reason
  codes of all, without repetition. Every other row stays as it was.
\<close>

theorem finding_aggregates_observations:
  assumes "get_open_finding_by_dedup_key db (ob_dedup_key ob) = None"
    and "ob_status ob = None \<or> ob_status ob = Some ''open''"
    and "list_all (\<lambda>o'. ob_dedup_key o' = ob_dedup_key ob) rest"
    and "list_all severity_given (ob # rest)"
  shows "\<exists>f. observe_all now (ob # rest) db = db\<lparr>db_findings := db_findings db @ [f]\<rparr> \<and>
     uf_dedup_key f = ob_dedup_key ob \<and> uf_status f = ''open'' \<and> aggregates ob rest f"
  using observe_all_new[OF assms(1-3), of now] merged_finding_frame[OF assms(2)] merged_finding_aggregates[OF assms(4)]
  by blast

theorem finding_aggregates_observations_witness:
  "\<exists>f. observe_all 9 [sample_observation, sample_observation\<lparr>ob_last_seen_at := Some 20, ob_risk_score := Some 80\<rparr>] empty_db =
       empty_db\<lparr>db_findings := [f]\<rparr> \<and> uf_dedup_key f = ''k'' \<and> uf_status f = ''open'' \<and>
     aggregates sample_observation [sample_observation\<lparr>ob_last_seen_at := Some 20, ob_risk_score := Some 80\<rparr>] f"
  using finding_aggregates_observations[of empty_db sample_observation
      "[sample_observation\<lparr>ob_last_seen_at := Some 20, ob_risk_score := Some 80\<rparr>]" 9]
  by (simp add: get_open_finding_None sample_observation_def severity_given_def empty_db_def open_keys_def)

section \<open>Evidence\<close>

text \<open>\<open>append_finding_evidence\<close> does not flush: the rows of the model are those flushed when it starts.\<close>

definition role_given :: "'v evidence_spec \<Rightarrow> bool" where
  "role_given spec \<longleftrightarrow> given (es_columns spec) ''evidence_role'' \<noteq> None"

definition finding_signatures :: "nat \<Rightarrow> 'v ueba_db \<Rightarrow> 'v signature list" where
  "finding_signatures i db = map evidence_signature_from_row (filter (\<lambda>e. ue_finding_id e = i) (db_evidence db))"

lemma new_evidence_signature:
  "role_given spec \<Longrightarrow> evidence_signature_from_row (new_evidence trigger i spec) = evidence_signature_from_values spec"
  by (auto simp: role_given_def given_def evidence_signature_from_row_def evidence_signature_from_values_def
      new_evidence_def dict_setdefault_def split: option.splits)

lemma evidence_loop_spec:
  "\<exists>new. evidence_loop trigger i seen inserted rows specs = (inserted + length new, rows @ map (new_evidence trigger i) new) \<and>
     set new \<subseteq> set specs \<and> distinct (map evidence_signature_from_values new) \<and>
     evidence_signature_from_values ` set new = evidence_signature_from_values ` set specs - set seen"
proof (induction specs arbitrary: seen inserted rows)
  case (Cons spec specs)
  let ?s = "evidence_signature_from_values spec"
  show ?case
  proof (cases "?s \<in> set seen")
    case True
    then show ?thesis using Cons.IH[of seen inserted rows] by (auto simp: Let_def)
  next
    case False
    obtain new where new: "evidence_loop trigger i (?s # seen) (inserted + 1) (rows @ [new_evidence trigger i spec]) specs =
        (inserted + 1 + length new, (rows @ [new_evidence trigger i spec]) @ map (new_evidence trigger i) new)"
      "set new \<subseteq> set specs" "distinct (map evidence_signature_from_values new)"
      "evidence_signature_from_values ` set new = evidence_signature_from_values ` set specs - set (?s # seen)"
      using Cons.IH by blast
    show ?thesis
      by (rule exI[of _ "spec # new"]) (use new False in \<open>auto simp: Let_def\<close>)
  qed
qed simp

lemma append_finding_evidence_spec:
  assumes "list_all role_given specs"
  obtains new where
    "append_finding_evidence trigger i specs db =
       (length new, db\<lparr>db_evidence := db_evidence db @ map (new_evidence trigger i) new\<rparr>)"
    "finding_signatures i (db\<lparr>db_evidence := db_evidence db @ map (new_evidence trigger i) new\<rparr>) =
       finding_signatures i db @ map evidence_signature_from_values new"
    "distinct (map evidence_signature_from_values new)"
    "evidence_signature_from_values ` set new = evidence_signature_from_values ` set specs - set (finding_signatures i db)"
proof -
  obtain new where new: "evidence_loop trigger i (finding_signatures i db) 0 (db_evidence db) specs =
      (length new, db_evidence db @ map (new_evidence trigger i) new)" "set new \<subseteq> set specs"
    "distinct (map evidence_signature_from_values new)"
    "evidence_signature_from_values ` set new = evidence_signature_from_values ` set specs - set (finding_signatures i db)"
    using evidence_loop_spec[of trigger i "finding_signatures i db" 0 "db_evidence db" specs] by auto
  have "map evidence_signature_from_row (filter (\<lambda>e. ue_finding_id e = i) (map (new_evidence trigger i) new)) =
      map evidence_signature_from_values new"
    using new(2) assms by (induction new) (auto simp: list_all_iff new_evidence_signature, simp_all add: new_evidence_def)
  then show ?thesis
    by (intro that[of new]) (use new in \<open>simp_all add: append_finding_evidence_def finding_signatures_def[symmetric]\<close>,
      simp add: finding_signatures_def)
qed


text \<open>
  C0: Evidence is attached to a finding once: appending specifications that name their role inserts one row
  per new signature, the finding then has exactly the old and the new signatures, without repetition when
  there was none before, and appending the same specifications again, once the first rows are flushed, inserts nothing.
\<close>

theorem evidence_appended_once:
  assumes "list_all role_given specs" and "append_finding_evidence trigger i specs db = (n, db')"
  shows "n = card (evidence_signature_from_values ` set specs - set (finding_signatures i db)) \<and>
     set (finding_signatures i db') = set (finding_signatures i db) \<union> evidence_signature_from_values ` set specs \<and>
     (distinct (finding_signatures i db) \<longrightarrow> distinct (finding_signatures i db')) \<and>
     append_finding_evidence trigger i specs db' = (0, db')"
proof -
  obtain new where new: "n = length new" "finding_signatures i db' = finding_signatures i db @ map evidence_signature_from_values new"
      "distinct (map evidence_signature_from_values new)"
      "evidence_signature_from_values ` set new = evidence_signature_from_values ` set specs - set (finding_signatures i db)"
    by (rule append_finding_evidence_spec[OF assms(1), of trigger i db]) (use assms(2) in auto)
  have n: "n = card (evidence_signature_from_values ` set new)"
    using distinct_card[OF new(3)] new(1) by simp
  have all: "set (finding_signatures i db') = set (finding_signatures i db) \<union> evidence_signature_from_values ` set specs"
    unfolding new(2) set_append list.set_map new(4) by blast
  have dist: "distinct (finding_signatures i db) \<longrightarrow> distinct (finding_signatures i db')"
    unfolding new(2) distinct_append list.set_map new(4) using new(3) by blast
  obtain new' where again: "append_finding_evidence trigger i specs db' =
      (length new', db'\<lparr>db_evidence := db_evidence db' @ map (new_evidence trigger i) new'\<rparr>)"
      "evidence_signature_from_values ` set new' = evidence_signature_from_values ` set specs - set (finding_signatures i db')"
    using append_finding_evidence_spec[OF assms(1)] by metis
  have "evidence_signature_from_values ` set new' = {}" unfolding again(2) all by simp
  then have "new' = []" by simp
  then show ?thesis using n new(4) all dist again(1) by simp
qed

definition sample_spec :: "string evidence_spec" where
  "sample_spec = \<lparr>es_observed_at = Some 5, es_columns = [(''event_id'', Some ''1''), (''evidence_role'', Some ''trigger'')]\<rparr>"

theorem evidence_appended_once_witness:
  "append_finding_evidence ''trigger'' 1 [sample_spec, sample_spec]
       (snd (append_finding_evidence ''trigger'' 1 [sample_spec, sample_spec] empty_db)) =
     (0, snd (append_finding_evidence ''trigger'' 1 [sample_spec, sample_spec] empty_db))"
proof -
  have "list_all role_given [sample_spec, sample_spec]" by code_simp
  from evidence_appended_once[OF this surjective_pairing] show ?thesis by blast
qed

section \<open>Triage\<close>

text \<open>The first finding is closed by an analyst, the key is observed again, and the first one is opened again.\<close>

definition reopened_db :: "string ueba_db" where
  "reopened_db =
     (let db1 = observe_all 9 [sample_observation] empty_db;
          db2 = apply_triage (Some ''closed'') None False None 20 (hd (db_findings db1)) db1;
          db3 = observe_all 30 [sample_observation] db2
      in apply_triage (Some ''open'') None False None 40 (hd (db_findings db3)) db3)"


text \<open>A run that ends enables a detector again whose state an operator had set to disabled.\<close>

definition disabled_db :: "string ueba_db" where
  "disabled_db = empty_db\<lparr>db_states := [(new_detector_state ''d'')\<lparr>dt_enabled := False, dt_status := ''disabled''\<rparr>]\<rparr>"

text \<open>
  The start of a run leaves a disabled detector disabled, but its end does not: after one cycle the
  detector counts as enabled and healthy.
\<close>

theorem disabled_detector_enabled_by_cycle:
  "map dt_enabled (db_states (snd (start_detector_run 5 ''d'' (Some 1) 5 None None [] disabled_db))) = [False] \<and>
   map (\<lambda>s. (dt_enabled s, dt_status s))
     (db_states (snd (run_one_detector sample_embedding 6 3 5 (sample_detector False) disabled_db))) = [(True, ''healthy'')]"
  by code_simp

end
