(* ===== verification/Wire_Bytes.thy ===== *)
theory Wire_Bytes
  imports Py_Runtime "HOL-Library.Word"
begin

unbundle bit_operations_syntax

text \<open>
  Bytes objects as the parsers of \<open>shared/protocol_intel\<close> read them: a byte is an 8-bit word, a number
  read from bytes a natural number. Slices clamp at the end and reads outside raise \<open>IndexError\<close>, as in
  Python; the encoders are those of the protocols and serve as the reference for the parsers.
\<close>

section \<open>Reading\<close>

type_synonym byte = "8 word"
type_synonym bytes = "byte list"

definition byte_at :: "bytes \<Rightarrow> nat \<Rightarrow> py_error + nat" where
  "byte_at b i = (if i < length b then Inr (unat (b ! i)) else Inl IndexError)"

text \<open>\<open>b[i:j]\<close>, and \<open>int.from_bytes(b, "big")\<close>.\<close>

definition slice :: "bytes \<Rightarrow> nat \<Rightarrow> nat \<Rightarrow> bytes" where
  "slice b i j = take (j - i) (drop i b)"

definition from_bytes :: "bytes \<Rightarrow> nat" where
  "from_bytes b = foldl (\<lambda>a x. a * 256 + unat x) 0 b"

definition bytes_hex :: "bytes \<Rightarrow> string" where
  "bytes_hex b = concat (map (\<lambda>x. hex2 (unat x)) b)"

text \<open>\<open>b.decode("ascii", "ignore")\<close> and \<open>s.encode("ascii", "ignore")\<close>, the latter kept as a text.\<close>

definition decode_ascii_ignore :: "bytes \<Rightarrow> string" where
  "decode_ascii_ignore b = map (\<lambda>x. char_of (unat x)) (filter (\<lambda>x. x < 128) b)"

definition encode_ascii_ignore :: "string \<Rightarrow> string" where
  "encode_ascii_ignore s = filter (\<lambda>c. code_point c < 128) s"

text \<open>\<open>f"{v:04x}"\<close>.\<close>

fun hex_digits :: "nat \<Rightarrow> string" where
  "hex_digits n = (if n < 16 then [hex_digit n] else hex_digits (n div 16) @ [hex_digit (n mod 16)])"

definition u16_hex :: "nat \<Rightarrow> string" where
  "u16_hex v = (let h = hex_digits v in replicate (4 - length h) (CHR ''0'') @ h)"

section \<open>Writing\<close>

definition u16_bytes :: "nat \<Rightarrow> bytes" where
  "u16_bytes n = [of_nat (n div 256), of_nat (n mod 256)]"

definition u24_bytes :: "nat \<Rightarrow> bytes" where
  "u24_bytes n = [of_nat (n div 65536), of_nat (n div 256 mod 256), of_nat (n mod 256)]"

lemma unat_of_nat_byte [simp]: "n < 256 \<Longrightarrow> unat (of_nat n :: byte) = n"
  by (simp add: unsigned_of_nat take_bit_nat_def)

lemma byte_less [simp]: "unat (x :: byte) < 256"
  using unsigned_less[where w = x and ?'a = nat] by simp

lemma length_u16 [simp]: "length (u16_bytes n) = 2"
  by (simp add: u16_bytes_def)

lemma length_u24 [simp]: "length (u24_bytes n) = 3"
  by (simp add: u24_bytes_def)

lemma from_bytes_Nil [simp]: "from_bytes [] = 0"
  by (simp add: from_bytes_def)

lemma from_bytes_single [simp]: "from_bytes [x] = unat x"
  by (simp add: from_bytes_def)

lemma from_bytes_u16 [simp]: "n < 65536 \<Longrightarrow> from_bytes (u16_bytes n) = n"
  by (simp add: from_bytes_def u16_bytes_def less_mult_imp_div_less)

lemma from_bytes_u24 [simp]:
  assumes "n < 16777216"
  shows "from_bytes (u24_bytes n) = n"
proof -
  have "n div 65536 = n div 256 div 256" by (simp only: div_mult2_eq[symmetric]) simp
  then have "(n div 65536 * 256 + n div 256 mod 256) * 256 + n mod 256 = n" by (simp only: div_mult_mod_eq)
  moreover have "n div 65536 < 256" using assms by (simp add: less_mult_imp_div_less)
  ultimately show ?thesis by (simp add: from_bytes_def u24_bytes_def del: div_mult_mod_eq)
qed

lemma slice_append1: "j \<le> length xs \<Longrightarrow> slice (xs @ ys) i j = slice xs i j"
  by (cases "i \<le> length xs") (simp_all add: slice_def)

lemma slice_append2: "length xs \<le> i \<Longrightarrow> slice (xs @ ys) i j = slice ys (i - length xs) (j - length xs)"
  by (simp add: slice_def)

lemma slice_here: "n = length ys \<Longrightarrow> slice (xs @ ys @ zs) (length xs) (length xs + n) = ys"
  by (simp add: slice_def)

lemma slice_at: "k = length xs \<Longrightarrow> n = k + length ys \<Longrightarrow> slice (xs @ ys @ zs) k n = ys"
  by (simp add: slice_def)

lemma byte_at_here: "k = length xs \<Longrightarrow> byte_at (xs @ y # zs) k = Inr (unat y)"
  by (simp add: byte_at_def)

lemma length_slice: "length (slice b i j) = min (j - i) (length b - i)"
  by (simp add: slice_def)

end
