(* ===== verification/Tls_Hello.thy ===== *)
theory Tls_Hello
  imports Wire_Bytes
begin

text \<open>
  The TLS ClientHello parser and the JA3 and JA4 fingerprints (\<open>shared/protocol_intel/tls.py\<close>). The digests
  of \<open>hashlib\<close> are a parameter: functions from a text to its hexadecimal digest. The codec \<open>idna\<close> rejects any
  error handler other than \<open>strict\<close> as soon as there is something to decode.
\<close>

section \<open>Helpers\<close>

definition is_grease_u16 :: "nat \<Rightarrow> bool" where
  "is_grease_u16 v \<longleftrightarrow> v AND 0x0F0F = 0x0A0A \<and> drop_bit 8 v AND 0xF0 = v AND 0xF0"

record digests =
  md5_hex :: "string \<Rightarrow> string"
  sha256_hex :: "string \<Rightarrow> string"

definition sha256_12 :: "digests \<Rightarrow> string \<Rightarrow> string" where
  "sha256_12 dg s = take 12 (py_lower (sha256_hex dg (encode_ascii_ignore s)))"

definition tls_version_code :: "nat \<Rightarrow> string" where
  "tls_version_code v =
     (case map_of [(0x0304, ''13''), (0x0303, ''12''), (0x0302, ''11''), (0x0301, ''10''), (0x0300, ''s3''),
        (0x0002, ''s2''), (0xFEFF, ''d1''), (0xFEFD, ''d2''), (0xFEFC, ''d3'')] v of
        None \<Rightarrow> ''00'' | Some c \<Rightarrow> c)"

definition is_alnum_byte :: "nat \<Rightarrow> bool" where
  "is_alnum_byte c \<longleftrightarrow> 48 \<le> c \<and> c \<le> 57 \<or> 65 \<le> c \<and> c \<le> 90 \<or> 97 \<le> c \<and> c \<le> 122"

text \<open>The digits of a non-empty text of bytes are never a single one, so that branch of the code is not taken.\<close>

definition alpn_tag :: "bytes \<Rightarrow> string" where
  "alpn_tag first_proto =
     (if first_proto = [] then ''00''
      else let a = unat (hd first_proto); z = unat (last first_proto) in
        if is_alnum_byte a \<and> is_alnum_byte z then py_lower [char_of a] @ py_lower [char_of z]
        else let hx = py_lower (bytes_hex first_proto) in
          if length hx = 1 then hx @ hx else if length hx = 2 then hx else [hd hx, last hx])"

text \<open>\<open>b.decode("idna", "ignore")\<close>: \<open>None\<close> is the \<open>UnicodeError\<close>.\<close>

definition decode_idna_ignore :: "bytes \<Rightarrow> string option" where
  "decode_idna_ignore b = (if b = [] then Some [] else None)"

section \<open>Extensions\<close>

function sni_loop :: "bytes \<Rightarrow> nat \<Rightarrow> nat \<Rightarrow> string option" where
  "sni_loop ext limit i =
     (if i + 3 \<le> limit
      then let name_type = unat (ext ! i); name_len = from_bytes (slice ext (i + 1) (i + 3)) in
        if i + 3 + name_len > limit then None
        else if name_type = 0
          then (case decode_idna_ignore (slice ext (i + 3) (i + 3 + name_len)) of
              None \<Rightarrow> None
            | Some host \<Rightarrow> let h = strip_if (\<lambda>c. c = CHR ''.'') host in if h = [] then None else Some h)
          else sni_loop ext limit (i + 3 + name_len)
      else None)"
  by pat_completeness auto
termination by (relation "measure (\<lambda>(ext, limit, i). limit - i)") auto

definition parse_sni :: "bytes \<Rightarrow> string option" where
  "parse_sni ext =
     (if length ext < 2 then None else sni_loop ext (min (length ext) (2 + from_bytes (slice ext 0 2))) 2)"

function alpn_loop :: "bytes \<Rightarrow> nat \<Rightarrow> nat \<Rightarrow> bytes list" where
  "alpn_loop ext limit i =
     (if i < limit
      then let ln = unat (ext ! i) in
        if ln = 0 \<or> i + 1 + ln > limit then []
        else slice ext (i + 1) (i + 1 + ln) # alpn_loop ext limit (i + 1 + ln)
      else [])"
  by pat_completeness auto
termination by (relation "measure (\<lambda>(ext, limit, i). limit - i)") auto

definition parse_alpn :: "bytes \<Rightarrow> bytes list" where
  "parse_alpn ext =
     (if length ext < 2 then [] else alpn_loop ext (min (length ext) (2 + from_bytes (slice ext 0 2))) 2)"

text \<open>The loop over 16-bit values that passes over GREASE, of groups, signature algorithms and versions.\<close>

function u16_loop :: "bytes \<Rightarrow> nat \<Rightarrow> nat \<Rightarrow> nat list" where
  "u16_loop ext limit i =
     (if i + 2 \<le> limit
      then let v = from_bytes (slice ext i (i + 2)) in
        if is_grease_u16 v then u16_loop ext limit (i + 2) else v # u16_loop ext limit (i + 2)
      else [])"
  by pat_completeness auto
termination by (relation "measure (\<lambda>(ext, limit, i). limit - i)") auto

definition parse_supported_groups :: "bytes \<Rightarrow> nat list" where
  "parse_supported_groups ext =
     (if length ext < 2 then [] else u16_loop ext (min (length ext) (2 + from_bytes (slice ext 0 2))) 2)"

definition parse_ec_point_formats :: "bytes \<Rightarrow> nat list" where
  "parse_ec_point_formats ext =
     (if ext = [] then [] else map unat (slice ext 1 (min (length ext) (1 + unat (hd ext)))))"

definition parse_signature_algorithms :: "bytes \<Rightarrow> nat list" where
  "parse_signature_algorithms ext =
     (if length ext < 2 then [] else u16_loop ext (min (length ext) (2 + from_bytes (slice ext 0 2))) 2)"

definition parse_supported_versions :: "bytes \<Rightarrow> nat list" where
  "parse_supported_versions ev =
     (if length ev \<ge> 3 then u16_loop ev (min (length ev) (1 + unat (hd ev))) 1 else [])"

section \<open>The ClientHello\<close>

record hello_extensions =
  he_exts :: "nat list"
  he_sni :: "string option"
  he_alpns :: "bytes list"
  he_supported_groups :: "nat list"
  he_ec_point_formats :: "nat list"
  he_sig_algs :: "nat list"
  he_supported_versions :: "nat list"

record client_hello =
  ch_version :: nat
  ch_ciphers :: "nat list"
  ch_extensions :: hello_extensions

definition no_extensions :: hello_extensions where
  "no_extensions = \<lparr>he_exts = [], he_sni = None, he_alpns = [], he_supported_groups = [], he_ec_point_formats = [],
     he_sig_algs = [], he_supported_versions = []\<rparr>"

text \<open>\<open>x = f(ev) or x\<close>.\<close>

definition list_or :: "'a list \<Rightarrow> 'a list \<Rightarrow> 'a list" where
  "list_or xs ys = (if xs = [] then ys else xs)"

definition read_extension :: "nat \<Rightarrow> bytes \<Rightarrow> hello_extensions \<Rightarrow> hello_extensions" where
  "read_extension etype ev he =
     (if is_grease_u16 etype then he
      else let he = he\<lparr>he_exts := he_exts he @ [etype]\<rparr> in
        if etype = 0x0000
          then he\<lparr>he_sni := (case parse_sni ev of Some h \<Rightarrow> Some h | None \<Rightarrow> he_sni he)\<rparr>
        else if etype = 0x0010 then he\<lparr>he_alpns := list_or (parse_alpn ev) (he_alpns he)\<rparr>
        else if etype = 0x000A
          then he\<lparr>he_supported_groups := list_or (parse_supported_groups ev) (he_supported_groups he)\<rparr>
        else if etype = 0x000B
          then he\<lparr>he_ec_point_formats := list_or (parse_ec_point_formats ev) (he_ec_point_formats he)\<rparr>
        else if etype = 0x000D
          then he\<lparr>he_sig_algs := list_or (parse_signature_algorithms ev) (he_sig_algs he)\<rparr>
        else if etype = 0x002B
          then he\<lparr>he_supported_versions := he_supported_versions he @ parse_supported_versions ev\<rparr>
        else he)"

function extension_loop :: "bytes \<Rightarrow> nat \<Rightarrow> nat \<Rightarrow> hello_extensions \<Rightarrow> hello_extensions" where
  "extension_loop body limit i he =
     (if i + 4 \<le> limit
      then let etype = from_bytes (slice body i (i + 2)); elen = from_bytes (slice body (i + 2) (i + 4)) in
        if i + 4 + elen > limit then he
        else extension_loop body limit (i + 4 + elen)
               (read_extension etype (slice body (i + 4) (i + 4 + elen)) he)
      else he)"
  by pat_completeness auto
termination by (relation "measure (\<lambda>(body, limit, i, he). limit - i)") auto

text \<open>\<open>for j in range(0, min(cs_len, len(body) - i), 2)\<close>: \<open>n\<close> is what is left of the range.\<close>

fun cipher_loop :: "bytes \<Rightarrow> nat \<Rightarrow> nat \<Rightarrow> nat list" where
  "cipher_loop body j 0 = []"
| "cipher_loop body j (Suc n) =
     (let v = from_bytes (slice body j (j + 2)) in
      if is_grease_u16 v then cipher_loop body (j + 2) (n - 1) else v # cipher_loop body (j + 2) (n - 1))"

text \<open>\<open>Inr None\<close> is the early return of the empty dictionary.\<close>

definition parse_hello_body :: "bytes \<Rightarrow> py_error + client_hello option" where
  "parse_hello_body body =
     (if length body < 42 then Inr None
      else ebind (byte_at body 34) (\<lambda>sid_len.
        let i = 35 + sid_len;
            cs_len = from_bytes (slice body i (i + 2));
            i = i + 2;
            ciphers = cipher_loop body i (min cs_len (length body - i));
            i = i + cs_len
        in if i \<ge> length body then Inr None
           else ebind (byte_at body i) (\<lambda>comp_len.
             let i = i + 1 + comp_len in
             if i > length body then Inr None
             else Inr (Some \<lparr>ch_version = from_bytes (slice body 0 2), ch_ciphers = ciphers,
               ch_extensions =
                 (if i + 2 \<le> length body
                  then extension_loop body (min (length body) (i + 2 + from_bytes (slice body i (i + 2)))) (i + 2) no_extensions
                  else no_extensions)\<rparr>))))"


declare sni_loop.simps [simp del] alpn_loop.simps [simp del] u16_loop.simps [simp del] extension_loop.simps [simp del]

section \<open>Fingerprints\<close>

definition infer_ptype :: "(string \<times> pyval) list \<Rightarrow> bool \<Rightarrow> bool \<Rightarrow> string" where
  "infer_ptype extra is_dtls is_quic =
     (let v = py_lower (py_strip (str_or (pget extra ''ja4_ptype'') [])) in
      if v = ''q'' \<or> v = ''d'' \<or> v = ''t'' then v
      else if truthy (pget extra ''is_quic'') then ''q''
      else if truthy (pget extra ''is_dtls'') then ''d''
      else let tr = py_lower (py_strip (str_or (pget extra ''transport'') [])) in
        if py_startswith tr ''udp'' \<and> is_quic then ''q'' else if is_dtls then ''d'' else ''t'')"

definition dashed :: "nat list \<Rightarrow> string" where
  "dashed vs = py_join ''-'' (map nat_str vs)"

definition ja3_raw :: "client_hello \<Rightarrow> string" where
  "ja3_raw ch =
     py_join '','' [nat_str (ch_version ch), dashed (ch_ciphers ch), dashed (he_exts (ch_extensions ch)),
       dashed (he_supported_groups (ch_extensions ch)), dashed (he_ec_point_formats (ch_extensions ch))]"

definition two_digits :: "nat \<Rightarrow> string" where
  "two_digits n = pad_left 2 (nat_str (min n 99))"

definition version_pick :: "client_hello \<Rightarrow> nat" where
  "version_pick ch =
     (case he_supported_versions (ch_extensions ch) of [] \<Rightarrow> ch_version ch | v # vs \<Rightarrow> foldl max v vs)"

definition ja4_a :: "string \<Rightarrow> client_hello \<Rightarrow> string" where
  "ja4_a ptype ch =
     ptype @ tls_version_code (version_pick ch) @
     (if 0 \<in> set (he_exts (ch_extensions ch)) then ''d'' else ''i'') @
     two_digits (length (ch_ciphers ch)) @ two_digits (length (he_exts (ch_extensions ch))) @
     alpn_tag (case he_alpns (ch_extensions ch) of [] \<Rightarrow> [] | p # _ \<Rightarrow> p)"

definition ja4_b :: "digests \<Rightarrow> client_hello \<Rightarrow> string" where
  "ja4_b dg ch =
     (let cipher_hexes = sort (map u16_hex (ch_ciphers ch)) in
      if cipher_hexes \<noteq> [] then sha256_12 dg (py_join '','' cipher_hexes) else ''000000000000'')"

definition ja4_c :: "digests \<Rightarrow> client_hello \<Rightarrow> string" where
  "ja4_c dg ch =
     (let he = ch_extensions ch;
          exts_hexes = sort (map u16_hex (filter (\<lambda>v. v \<noteq> 0x0000 \<and> v \<noteq> 0x0010) (he_exts he)))
      in if exts_hexes \<noteq> []
         then let base = py_join '','' exts_hexes in
           sha256_12 dg (if he_sig_algs he \<noteq> [] then base @ ''_'' @ py_join '','' (map u16_hex (he_sig_algs he)) else base)
         else ''000000000000'')"

definition hello_report :: "digests \<Rightarrow> string \<Rightarrow> client_hello \<Rightarrow> (string \<times> string) list" where
  "hello_report dg ptype ch =
     (let a = ja4_a ptype ch; b = ja4_b dg ch; c = ja4_c dg ch; he = ch_extensions ch in
      [(''ja3'', md5_hex dg (encode_ascii_ignore (ja3_raw ch))), (''ja3_raw'', ja3_raw ch),
       (''ja4'', a @ ''_'' @ b @ ''_'' @ c), (''ja4_a'', a), (''ja4_b'', b), (''ja4_c'', c), (''ja4_ptype'', ptype)] @
      (case he_sni he of Some host \<Rightarrow> [(''tls_sni'', host)] | None \<Rightarrow> []) @
      (case he_alpns he of [] \<Rightarrow> [] | p # _ \<Rightarrow> [(''tls_alpn_first'', decode_ascii_ignore p)]) @
      [(''tls_version'', tls_version_code (version_pick ch))])"

text \<open>The record layer: a DTLS record has epoch and sequence number before its length.\<close>

definition is_dtls_record :: "bytes \<Rightarrow> bool" where
  "is_dtls_record b \<longleftrightarrow> unat (hd b) = 22 \<and> length b \<ge> 13 \<and> from_bytes (slice b 1 3) \<in> {0xFEFF, 0xFEFD, 0xFEFC}"

definition handshake_body :: "bytes \<Rightarrow> bytes option" where
  "handshake_body b =
     (let rec = (if is_dtls_record b then slice b 13 (13 + from_bytes (slice b 11 13))
                 else slice b 5 (5 + from_bytes (slice b 3 5)))
      in if rec = [] \<or> length rec < 4 then None
         else if unat (hd rec) \<noteq> 1 then None
         else Some (slice rec 4 (4 + from_bytes (slice rec 1 4))))"

definition parse_tls_client_hello :: "digests \<Rightarrow> bytes \<Rightarrow> (string \<times> pyval) list \<Rightarrow> (string \<times> string) list" where
  "parse_tls_client_hello dg b extra =
     (if length b < 5 then []
      else case handshake_body b of
        None \<Rightarrow> []
      | Some body \<Rightarrow>
          (case parse_hello_body body of
             Inr (Some ch) \<Rightarrow> hello_report dg (infer_ptype extra (is_dtls_record b) (truthy (pget extra ''is_quic''))) ch
           | _ \<Rightarrow> []))"

section \<open>Writing a ClientHello\<close>

text \<open>The reference: a ClientHello with its extensions as data, in the encoding of RFC 8446, section 4.1.2.\<close>

record hello_message =
  hm_version :: nat
  hm_random :: bytes
  hm_session :: bytes
  hm_ciphers :: "nat list"
  hm_compression :: bytes
  hm_extensions :: "(nat \<times> bytes) list"

definition extension_bytes :: "(nat \<times> bytes) list \<Rightarrow> bytes" where
  "extension_bytes xs = concat (map (\<lambda>(t, d). u16_bytes t @ u16_bytes (length d) @ d) xs)"

definition hello_bytes :: "hello_message \<Rightarrow> bytes" where
  "hello_bytes m =
     u16_bytes (hm_version m) @ hm_random m @ of_nat (length (hm_session m)) # hm_session m @
     u16_bytes (2 * length (hm_ciphers m)) @ concat (map u16_bytes (hm_ciphers m)) @
     of_nat (length (hm_compression m)) # hm_compression m @
     u16_bytes (length (extension_bytes (hm_extensions m))) @ extension_bytes (hm_extensions m)"

definition hello_record :: "nat \<Rightarrow> hello_message \<Rightarrow> bytes" where
  "hello_record version m =
     (let body = hello_bytes m; hs = 1 # u24_bytes (length body) @ body
      in 22 # u16_bytes version @ u16_bytes (length hs) @ hs)"

definition valid_hello :: "hello_message \<Rightarrow> bool" where
  "valid_hello m \<longleftrightarrow>
     hm_version m < 65536 \<and> length (hm_random m) = 32 \<and> length (hm_session m) < 256 \<and>
     list_all (\<lambda>c. c < 65536) (hm_ciphers m) \<and> length (hm_ciphers m) < 32768 \<and>
     length (hm_compression m) < 256 \<and>
     list_all (\<lambda>(t, d). t < 65536 \<and> length d < 65536) (hm_extensions m) \<and>
     length (extension_bytes (hm_extensions m)) < 65536 \<and> 42 \<le> length (hello_bytes m) \<and> length (hello_bytes m) + 4 < 65536"

definition view_hello :: "hello_message \<Rightarrow> client_hello" where
  "view_hello m =
     \<lparr>ch_version = hm_version m, ch_ciphers = filter (\<lambda>c. \<not> is_grease_u16 c) (hm_ciphers m),
      ch_extensions = foldl (\<lambda>he (t, d). read_extension t d he) no_extensions (hm_extensions m)\<rparr>"

declare add_2_eq_Suc [simp del] add_2_eq_Suc' [simp del]

lemma cipher_loop_bytes:
  "list_all (\<lambda>c. c < 65536) cs \<Longrightarrow>
     cipher_loop (pre @ concat (map u16_bytes cs) @ post) (length pre) (2 * length cs) = filter (\<lambda>c. \<not> is_grease_u16 c) cs"
proof (induction cs arbitrary: pre)
  case (Cons c cs)
  have "slice (pre @ u16_bytes c @ concat (map u16_bytes cs) @ post) (length pre) (length pre + 2) = u16_bytes c"
    by (rule slice_here) simp
  then have "cipher_loop (pre @ u16_bytes c @ concat (map u16_bytes cs) @ post) (length pre) (Suc (Suc (2 * length cs))) =
      filter (\<lambda>c. \<not> is_grease_u16 c) (c # cs)"
    using Cons.IH[of "pre @ u16_bytes c"] Cons.prems by (simp add: Let_def)
  moreover have "2 * length (c # cs) = Suc (Suc (2 * length cs))" by simp
  ultimately show ?case by (simp only: list.map concat.simps append.assoc)
qed simp

lemma extension_loop_bytes:
  "list_all (\<lambda>(t, d). t < 65536 \<and> length d < 65536) xs \<Longrightarrow>
     extension_loop (pre @ extension_bytes xs) (length pre + length (extension_bytes xs)) (length pre) he =
       foldl (\<lambda>he (t, d). read_extension t d he) he xs"
proof (induction xs arbitrary: pre he)
  case Nil
  then show ?case by (simp add: extension_bytes_def extension_loop.simps)
next
  case (Cons x xs)
  obtain t d where x: "x = (t, d)" by fastforce
  let ?rest = "extension_bytes xs"
  let ?b = "pre @ u16_bytes t @ u16_bytes (length d) @ d @ ?rest"
  have bytes: "pre @ extension_bytes (x # xs) = ?b" by (simp add: extension_bytes_def x)
  have s1: "slice ?b (length pre) (length pre + 2) = u16_bytes t" by (rule slice_here) simp
  have s2: "slice ?b (length pre + 2) (length pre + 4) = u16_bytes (length d)"
    using slice_at[of "length pre + 2" "pre @ u16_bytes t" "length pre + 4" "u16_bytes (length d)" "d @ ?rest"] by simp
  have s3: "slice ?b (length pre + 4) (length pre + 4 + length d) = d"
    using slice_at[of "length pre + 4" "pre @ u16_bytes t @ u16_bytes (length d)" "length pre + 4 + length d" d ?rest]
    by simp
  have limit: "length pre + length (extension_bytes (x # xs)) = length pre + 4 + length d + length ?rest"
    by (simp add: extension_bytes_def x)
  have "extension_loop ?b (length pre + 4 + length d + length ?rest) (length pre) he =
      extension_loop ?b (length pre + 4 + length d + length ?rest) (length pre + 4 + length d) (read_extension t d he)"
    using Cons.prems by (subst extension_loop.simps) (simp add: Let_def s1 s2 s3 x)
  also have "\<dots> = foldl (\<lambda>he (t, d). read_extension t d he) (read_extension t d he) xs"
    using Cons.IH[of "pre @ u16_bytes t @ u16_bytes (length d) @ d" "read_extension t d he"] Cons.prems
    by (simp add: add.assoc)
  finally show ?case unfolding bytes limit by (simp add: x)
qed


lemma length_u16_list: "length (concat (map u16_bytes cs)) = 2 * length cs"
  by (induction cs) simp_all

lemma parse_hello_bytes:
  assumes "valid_hello m"
  shows "parse_hello_body (hello_bytes m) = Inr (Some (view_hello m))"
proof -
  let ?sid = "hm_session m" and ?cs = "hm_ciphers m" and ?comp = "hm_compression m"
  let ?ext = "extension_bytes (hm_extensions m)"
  let ?cb = "concat (map u16_bytes ?cs)"
  let ?b = "hello_bytes m"
  let ?i = "35 + length ?sid"
  let ?j = "?i + 2 + 2 * length ?cs"
  let ?k = "?j + 1 + length ?comp"
  note v = assms[unfolded valid_hello_def]
  have len: "length ?b = ?k + 2 + length ?ext"
    using v by (simp add: hello_bytes_def length_u16_list)
  have version: "slice ?b 0 2 = u16_bytes (hm_version m)"
    unfolding hello_bytes_def by (rule slice_at[of 0 "[]", simplified]) simp
  have sid: "byte_at ?b 34 = Inr (length ?sid)"
    using byte_at_here[of 34 "u16_bytes (hm_version m) @ hm_random m" "of_nat (length ?sid)"] v by (simp add: hello_bytes_def)
  have cs_len: "slice ?b ?i (?i + 2) = u16_bytes (2 * length ?cs)"
    using slice_at[of ?i "u16_bytes (hm_version m) @ hm_random m @ of_nat (length ?sid) # ?sid" "?i + 2"] v
    by (simp add: hello_bytes_def)
  have ciphers: "cipher_loop ?b (?i + 2) (2 * length ?cs) = filter (\<lambda>c. \<not> is_grease_u16 c) ?cs"
    using cipher_loop_bytes[of ?cs "u16_bytes (hm_version m) @ hm_random m @ of_nat (length ?sid) # ?sid @ u16_bytes (2 * length ?cs)"] v
    by (simp add: hello_bytes_def)
  have comp: "byte_at ?b ?j = Inr (length ?comp)"
    using byte_at_here[of ?j "u16_bytes (hm_version m) @ hm_random m @ of_nat (length ?sid) # ?sid @ u16_bytes (2 * length ?cs) @ ?cb"
        "of_nat (length ?comp)"] v
    by (simp add: hello_bytes_def length_u16_list)
  have ext_len: "slice ?b ?k (?k + 2) = u16_bytes (length ?ext)"
    using slice_at[of ?k "u16_bytes (hm_version m) @ hm_random m @ of_nat (length ?sid) # ?sid @ u16_bytes (2 * length ?cs) @ ?cb @
        of_nat (length ?comp) # ?comp" "?k + 2"] v
    by (simp add: hello_bytes_def length_u16_list)
  have exts: "extension_loop ?b (?k + 2 + length ?ext) (?k + 2) no_extensions = ch_extensions (view_hello m)"
    using extension_loop_bytes[of "hm_extensions m" "u16_bytes (hm_version m) @ hm_random m @ of_nat (length ?sid) # ?sid @
        u16_bytes (2 * length ?cs) @ ?cb @ of_nat (length ?comp) # ?comp @ u16_bytes (length ?ext)" no_extensions] v
    by (simp add: hello_bytes_def length_u16_list view_hello_def)
  have long: "\<not> length ?b < 42" "min (2 * length ?cs) (length ?b - (?i + 2)) = 2 * length ?cs"
    "\<not> length ?b \<le> ?j" "\<not> length ?b < ?k" "?k + 2 \<le> length ?b" "min (length ?b) (?k + 2 + length ?ext) = ?k + 2 + length ?ext"
    using v len by linarith+
  have small: "2 * length ?cs < 65536" "length ?ext < 65536" using v by linarith+
  show ?thesis
    unfolding parse_hello_body_def Let_def sid ebind_simps cs_len from_bytes_u16[OF small(1)] long(2) ciphers comp
      ext_len from_bytes_u16[OF small(2)] long(6) exts version
    using long(1,3,4,5) v by (simp add: view_hello_def)
qed


section \<open>Properties\<close>

lemma handshake_body_record:
  assumes "valid_hello m" "version \<notin> {0xFEFF, 0xFEFD, 0xFEFC}" "version < 65536"
  shows "handshake_body (hello_record version m) = Some (hello_bytes m)" "\<not> is_dtls_record (hello_record version m)"
proof -
  let ?body = "hello_bytes m"
  let ?hs = "(1 :: byte) # u24_bytes (length ?body) @ ?body"
  let ?b = "22 # u16_bytes version @ u16_bytes (length ?hs) @ ?hs"
  have len: "length ?hs < 65536" "length ?body < 16777216" "42 \<le> length ?body"
    using assms(1) by (simp_all add: valid_hello_def)
  have "slice ?b 1 3 = u16_bytes version"
    using slice_at[of 1 "[22]" 3 "u16_bytes version" "u16_bytes (length ?hs) @ ?hs"] by simp
  then show plain: "\<not> is_dtls_record (hello_record version m)"
    using assms(2,3) by (simp add: is_dtls_record_def hello_record_def Let_def)
  have l: "slice ?b 3 5 = u16_bytes (length ?hs)"
    using slice_at[of 3 "22 # u16_bytes version" 5 "u16_bytes (length ?hs)" ?hs] by simp
  have hs: "slice ?b 5 (5 + length ?hs) = ?hs"
    using slice_at[of 5 "22 # u16_bytes version @ u16_bytes (length ?hs)" "5 + length ?hs" ?hs "[]"] by simp
  have hl: "slice ?hs 1 4 = u24_bytes (length ?body)"
    using slice_at[of 1 "[1]" 4 "u24_bytes (length ?body)" ?body] by simp
  have hb: "slice ?hs 4 (4 + length ?body) = ?body"
    using slice_at[of 4 "1 # u24_bytes (length ?body)" "4 + length ?body" ?body "[]"] by simp
  have "slice (hello_record version m) 5 (5 + from_bytes (slice (hello_record version m) 3 5)) = ?hs"
    unfolding hello_record_def Let_def l from_bytes_u16[OF len(1)] by (rule hs)
  then show "handshake_body (hello_record version m) = Some ?body"
    unfolding handshake_body_def Let_def if_not_P[OF plain] hl using len hl hb by simp
qed

text \<open>
  C0: Round trip of a ClientHello. A well-formed message in a TLS record is read back as what was written: the
  report is the fingerprint of its version, of its ciphers without GREASE and of its extensions without
  GREASE, in order, whatever the random, the session id and the compression methods are.
\<close>

theorem client_hello_round_trip:
  assumes "valid_hello m" and "version \<notin> {0xFEFF, 0xFEFD, 0xFEFC}" and "version < 65536"
  shows "parse_tls_client_hello dg (hello_record version m) extra =
     hello_report dg (infer_ptype extra False (truthy (pget extra ''is_quic''))) (view_hello m)"
proof -
  have "\<not> length (hello_record version m) < 5" by (simp add: hello_record_def Let_def)
  then show ?thesis
    using handshake_body_record[OF assms] parse_hello_bytes[OF assms(1)] by (simp add: parse_tls_client_hello_def)
qed


definition sample_hello :: hello_message where
  "sample_hello =
     \<lparr>hm_version = 0x0303, hm_random = replicate 32 7, hm_session = [1, 2], hm_ciphers = [0x0A0A, 0x1301, 0xC02F],
      hm_compression = [0],
      hm_extensions = [(0x2A2A, []), (0x0010, [0, 3, 2, 0x68, 0x32]), (0x002B, [4, 3, 4, 3, 3]), (0x000D, [0, 2, 4, 3])]\<rparr>"

definition shuffled_hello :: hello_message where
  "shuffled_hello = sample_hello\<lparr>hm_random := replicate 32 9, hm_session := [], hm_ciphers := [0xC02F, 0x1301, 0xFAFA, 0xBABA],
     hm_extensions := [(0x000D, [0, 2, 4, 3]), (0x002B, [4, 3, 4, 3, 3]), (0x0010, [0, 3, 2, 0x68, 0x32])]\<rparr>"

lemma sample_valid: "valid_hello sample_hello" "valid_hello shuffled_hello"
  by (simp_all add: valid_hello_def sample_hello_def shuffled_hello_def extension_bytes_def hello_bytes_def)

definition sample_digests :: digests where
  "sample_digests = \<lparr>md5_hex = (\<lambda>s. s), sha256_hex = (\<lambda>s. s)\<rparr>"

theorem client_hello_round_trip_witness:
  "parse_tls_client_hello sample_digests (hello_record 0x0301 sample_hello) [] =
     hello_report sample_digests (infer_ptype [] False (truthy (pget [] ''is_quic''))) (view_hello sample_hello)"
  by (rule client_hello_round_trip) (simp_all add: sample_valid)

text \<open>An extension of a type that comes once is read whatever comes before and after it.\<close>

definition plain_extensions :: "(nat \<times> bytes) list \<Rightarrow> (nat \<times> bytes) list" where
  "plain_extensions xs = filter (\<lambda>(t, d). \<not> is_grease_u16 t) xs"

abbreviation read_all :: "hello_extensions \<Rightarrow> (nat \<times> bytes) list \<Rightarrow> hello_extensions" where
  "read_all he xs \<equiv> foldl (\<lambda>he (t, d). read_extension t d he) he xs"

lemma read_all_plain: "read_all he xs = read_all he (plain_extensions xs)"
  by (induction xs arbitrary: he) (auto simp: plain_extensions_def read_extension_def)

lemma read_extension_fields:
  assumes "\<not> is_grease_u16 t"
  shows "he_exts (read_extension t d he) = he_exts he @ [t]"
    "he_alpns (read_extension t d he) = (if t = 0x10 then list_or (parse_alpn d) (he_alpns he) else he_alpns he)"
    "he_sig_algs (read_extension t d he) =
       (if t = 0xD then list_or (parse_signature_algorithms d) (he_sig_algs he) else he_sig_algs he)"
    "he_supported_versions (read_extension t d he) =
       (if t = 0x2B then he_supported_versions he @ parse_supported_versions d else he_supported_versions he)"
  using assms by (simp_all add: read_extension_def Let_def)

lemma read_all_exts:
  "list_all (\<lambda>(t, d). \<not> is_grease_u16 t) xs \<Longrightarrow> he_exts (read_all he xs) = he_exts he @ map fst xs"
  by (induction xs arbitrary: he) (auto simp: read_extension_fields)

lemma not_in_keys: "t \<notin> fst ` set xs \<Longrightarrow> map_of xs t = None"
  by (simp add: map_of_eq_None_iff)

lemma read_all_alpns:
  assumes "list_all (\<lambda>(t, d). \<not> is_grease_u16 t) xs" "distinct (map fst xs)"
  shows "he_alpns (read_all he xs) =
     (case map_of xs 0x10 of None \<Rightarrow> he_alpns he | Some d \<Rightarrow> list_or (parse_alpn d) (he_alpns he))"
  using assms by (induction xs arbitrary: he) (auto simp: read_extension_fields not_in_keys cong: option.case_cong)

lemma read_all_sig_algs:
  assumes "list_all (\<lambda>(t, d). \<not> is_grease_u16 t) xs" "distinct (map fst xs)"
  shows "he_sig_algs (read_all he xs) =
     (case map_of xs 0xD of None \<Rightarrow> he_sig_algs he | Some d \<Rightarrow> list_or (parse_signature_algorithms d) (he_sig_algs he))"
  using assms by (induction xs arbitrary: he) (auto simp: read_extension_fields not_in_keys cong: option.case_cong)

lemma read_all_versions:
  assumes "list_all (\<lambda>(t, d). \<not> is_grease_u16 t) xs" "distinct (map fst xs)"
  shows "he_supported_versions (read_all he xs) =
     (case map_of xs 0x2B of None \<Rightarrow> he_supported_versions he
      | Some d \<Rightarrow> he_supported_versions he @ parse_supported_versions d)"
  using assms by (induction xs arbitrary: he) (auto simp: read_extension_fields not_in_keys cong: option.case_cong)

lemma ja4_permuted:
  assumes ciphers: "mset (ch_ciphers ch) = mset (ch_ciphers ch')"
    and exts: "mset (he_exts (ch_extensions ch)) = mset (he_exts (ch_extensions ch'))"
    and same: "ch_version ch = ch_version ch'" "he_alpns (ch_extensions ch) = he_alpns (ch_extensions ch')"
      "he_sig_algs (ch_extensions ch) = he_sig_algs (ch_extensions ch')"
      "he_supported_versions (ch_extensions ch) = he_supported_versions (ch_extensions ch')"
  shows "ja4_a p ch = ja4_a p ch'" "ja4_b dg ch = ja4_b dg ch'" "ja4_c dg ch = ja4_c dg ch'"
proof -
  have sort_eq: "mset xs = mset ys \<Longrightarrow> sort (map u16_hex xs) = sort (map u16_hex ys)" for xs ys
    by (rule properties_for_sort) simp_all
  have pick: "version_pick ch = version_pick ch'" unfolding version_pick_def same by (rule refl)
  show "ja4_a p ch = ja4_a p ch'"
    unfolding ja4_a_def pick same mset_eq_length[OF ciphers] mset_eq_length[OF exts] mset_eq_setD[OF exts] by (rule refl)
  show "ja4_b dg ch = ja4_b dg ch'" unfolding ja4_b_def sort_eq[OF ciphers] by (rule refl)
  have "mset (filter (\<lambda>v. v \<noteq> 0x0000 \<and> v \<noteq> 0x0010) (he_exts (ch_extensions ch))) =
      mset (filter (\<lambda>v. v \<noteq> 0x0000 \<and> v \<noteq> 0x0010) (he_exts (ch_extensions ch')))"
    by (simp add: exts)
  from sort_eq[OF this] show "ja4_c dg ch = ja4_c dg ch'" unfolding ja4_c_def Let_def same by (simp only:)
qed

lemma view_hello_permuted:
  assumes exts: "mset (plain_extensions (hm_extensions m)) = mset (plain_extensions (hm_extensions m'))"
    and dist: "distinct (map fst (plain_extensions (hm_extensions m)))"
  defines "he \<equiv> ch_extensions (view_hello m)" and "he' \<equiv> ch_extensions (view_hello m')"
  shows "mset (he_exts he) = mset (he_exts he')" "he_alpns he = he_alpns he'" "he_sig_algs he = he_sig_algs he'"
    "he_supported_versions he = he_supported_versions he'"
proof -
  let ?xs = "plain_extensions (hm_extensions m)" and ?ys = "plain_extensions (hm_extensions m')"
  have he: "he = read_all no_extensions ?xs" "he' = read_all no_extensions ?ys"
    by (simp_all add: he_def he'_def view_hello_def read_all_plain[symmetric])
  have plain: "list_all (\<lambda>(t, d). \<not> is_grease_u16 t) ?xs" "list_all (\<lambda>(t, d). \<not> is_grease_u16 t) ?ys"
    by (auto simp: plain_extensions_def list_all_iff)
  have msets: "mset (map fst ?xs) = mset (map fst ?ys)" using exts by simp
  then have dist': "distinct (map fst ?ys)" using dist mset_eq_imp_distinct_iff by blast
  have maps: "map_of ?xs = map_of ?ys"
    using map_of_inject_set[OF dist dist'] mset_eq_setD[OF exts] by blast
  show "mset (he_exts he) = mset (he_exts he')"
    using msets by (simp add: he read_all_exts[OF plain(1)] read_all_exts[OF plain(2)])
  show "he_alpns he = he_alpns he'" by (simp add: he read_all_alpns[OF plain(1) dist] read_all_alpns[OF plain(2) dist'] maps)
  show "he_sig_algs he = he_sig_algs he'"
    by (simp add: he read_all_sig_algs[OF plain(1) dist] read_all_sig_algs[OF plain(2) dist'] maps)
  show "he_supported_versions he = he_supported_versions he'"
    by (simp add: he read_all_versions[OF plain(1) dist] read_all_versions[OF plain(2) dist'] maps)
qed


lemma hello_report_get:
  "dict_get (hello_report dg p ch) ''ja4'' = Some (ja4_a p ch @ ''_'' @ ja4_b dg ch @ ''_'' @ ja4_c dg ch)"
  "dict_get (hello_report dg p ch) ''ja3_raw'' = Some (ja3_raw ch)"
  "he_sni (ch_extensions ch) = None \<Longrightarrow> dict_get (hello_report dg p ch) ''tls_sni'' = None"
  by (simp_all add: hello_report_def Let_def dict_get_def split: list.splits)

text \<open>
  C0: JA4 is canonical: two messages with the same version whose ciphers and whose extensions are the same up to
  order and up to GREASE values have the same JA4 fingerprint, whatever their random values and sessions.
\<close>

theorem ja4_ignores_order_and_grease:
  assumes "valid_hello m" and "valid_hello m'" and "version \<notin> {0xFEFF, 0xFEFD, 0xFEFC}" and "version < 65536"
    and "hm_version m = hm_version m'"
    and "mset (filter (\<lambda>c. \<not> is_grease_u16 c) (hm_ciphers m)) = mset (filter (\<lambda>c. \<not> is_grease_u16 c) (hm_ciphers m'))"
    and "mset (plain_extensions (hm_extensions m)) = mset (plain_extensions (hm_extensions m'))"
    and "distinct (map fst (plain_extensions (hm_extensions m)))"
  shows "dict_get (parse_tls_client_hello dg (hello_record version m) extra) ''ja4'' =
     dict_get (parse_tls_client_hello dg (hello_record version m') extra) ''ja4''"
proof -
  have trips: "parse_tls_client_hello dg (hello_record version m) extra =
      hello_report dg (infer_ptype extra False (truthy (pget extra ''is_quic''))) (view_hello m)"
    "parse_tls_client_hello dg (hello_record version m') extra =
      hello_report dg (infer_ptype extra False (truthy (pget extra ''is_quic''))) (view_hello m')"
    using handshake_body_record[OF assms(1,3,4)] parse_hello_bytes[OF assms(1)]
      handshake_body_record[OF assms(2,3,4)] parse_hello_bytes[OF assms(2)]
    by (simp_all add: parse_tls_client_hello_def) (simp_all add: hello_record_def Let_def)
  note ja4 = ja4_permuted[of "view_hello m" "view_hello m'", OF _ view_hello_permuted(1)[OF assms(7,8)] _
      view_hello_permuted(2-4)[OF assms(7,8)]]
  have view: "mset (ch_ciphers (view_hello m)) = mset (ch_ciphers (view_hello m'))"
    "ch_version (view_hello m) = ch_version (view_hello m')"
    by (simp_all only: view_hello_def client_hello.simps assms(5,6))
  show ?thesis unfolding trips hello_report_get(1) ja4(1)[OF view] ja4(2)[OF view] ja4(3)[OF view] by (rule refl)
qed

theorem ja4_ignores_order_and_grease_witness:
  "dict_get (parse_tls_client_hello sample_digests (hello_record 0x0301 sample_hello) []) ''ja4'' =
     dict_get (parse_tls_client_hello sample_digests (hello_record 0x0301 shuffled_hello) []) ''ja4''"
proof (rule ja4_ignores_order_and_grease)
  show "mset (filter (\<lambda>c. \<not> is_grease_u16 c) (hm_ciphers sample_hello)) =
      mset (filter (\<lambda>c. \<not> is_grease_u16 c) (hm_ciphers shuffled_hello))"
    by (simp add: sample_hello_def shuffled_hello_def is_grease_u16_def del: mset_filter)
  have "plain_extensions (hm_extensions sample_hello) =
      [(0x0010, [0, 3, 2, 0x68, 0x32]), (0x002B, [4, 3, 4, 3, 3]), (0x000D, [0, 2, 4, 3])]"
    by (simp add: sample_hello_def plain_extensions_def is_grease_u16_def)
  moreover have "plain_extensions (hm_extensions shuffled_hello) =
      [(0x000D, [0, 2, 4, 3]), (0x002B, [4, 3, 4, 3, 3]), (0x0010, [0, 3, 2, 0x68, 0x32])]"
    by (simp add: shuffled_hello_def plain_extensions_def is_grease_u16_def)
  ultimately show "mset (plain_extensions (hm_extensions sample_hello)) = mset (plain_extensions (hm_extensions shuffled_hello))"
    "distinct (map fst (plain_extensions (hm_extensions sample_hello)))" by simp_all
qed (rule sample_valid | simp add: sample_hello_def shuffled_hello_def)+

section \<open>What the parser does not read\<close>

lemma sni_loop_None: "sni_loop ext limit i = None"
proof (induction ext limit i rule: sni_loop.induct)
  case (1 ext limit i)
  then show ?case
    by (subst sni_loop.simps) (simp add: Let_def decode_idna_ignore_def strip_if_def)
qed

lemma parse_sni_None [simp]: "parse_sni ext = None"
  by (simp add: parse_sni_def sni_loop_None)

lemma read_extension_sni [simp]: "he_sni (read_extension t d he) = he_sni he"
  by (simp add: read_extension_def Let_def)

lemma extension_loop_sni: "he_sni (extension_loop body limit i he) = he_sni he"
proof (induction body limit i he rule: extension_loop.induct)
  case (1 body limit i he)
  then show ?case by (subst extension_loop.simps) (simp add: Let_def)
qed

lemma parse_hello_body_sni:
  "parse_hello_body body = Inr (Some ch) \<Longrightarrow> he_sni (ch_extensions ch) = None"
  by (auto simp: parse_hello_body_def Let_def ebind_eq_Inr extension_loop_sni no_extensions_def split: if_splits)

text \<open>
  C0: The server name is never read: \<open>bytes.decode("idna", "ignore")\<close> raises for every name, so the report of no
  payload has a \<open>tls_sni\<close>, although JA4 marks the extension as present.
\<close>

theorem tls_sni_never_reported: "dict_get (parse_tls_client_hello dg b extra) ''tls_sni'' = None"
  unfolding parse_tls_client_hello_def
  by (auto simp: hello_report_get(3) parse_hello_body_sni split: option.splits sum.splits)


text \<open>A DTLS record with one handshake message: between its length and its body stand the sequence number and the fragment.\<close>

definition dtls_record :: "nat \<Rightarrow> bytes \<Rightarrow> nat \<Rightarrow> bytes \<Rightarrow> bytes" where
  "dtls_record version epoch_seq message_seq body =
     (let hs = 1 # u24_bytes (length body) @ u16_bytes message_seq @ u24_bytes 0 @ u24_bytes (length body) @ body
      in 22 # u16_bytes version @ epoch_seq @ u16_bytes (length hs) @ hs)"

lemma hello_body_version: "parse_hello_body body = Inr (Some ch) \<Longrightarrow> ch_version ch = from_bytes (slice body 0 2) \<and> 42 \<le> length body"
  by (auto simp: parse_hello_body_def Let_def ebind_eq_Inr split: if_splits)

lemma handshake_body_dtls:
  assumes "version \<in> {0xFEFF, 0xFEFD, 0xFEFC}" "length epoch_seq = 8" "length body + 12 < 65536"
  shows "handshake_body (dtls_record version epoch_seq message_seq body) =
     Some (take (length body) (u16_bytes message_seq @ u24_bytes 0 @ u24_bytes (length body) @ body))"
proof -
  let ?tail = "u16_bytes message_seq @ u24_bytes 0 @ u24_bytes (length body) @ body"
  let ?hs = "(1 :: byte) # u24_bytes (length body) @ ?tail"
  let ?b = "22 # u16_bytes version @ epoch_seq @ u16_bytes (length ?hs) @ ?hs"
  have len: "length ?hs < 65536" "length body < 16777216" "version < 65536" using assms by auto
  have "slice ?b 1 3 = u16_bytes version"
    using slice_at[of 1 "[22]" 3 "u16_bytes version" "epoch_seq @ u16_bytes (length ?hs) @ ?hs"] by simp
  then have dtls: "is_dtls_record ?b"
    using assms(1,2) len(3) by (simp add: is_dtls_record_def del: insert_iff)
  have l: "slice ?b 11 13 = u16_bytes (length ?hs)"
    using slice_at[of 11 "22 # u16_bytes version @ epoch_seq" 13 "u16_bytes (length ?hs)" ?hs] assms(2) by simp
  have hs: "slice ?b 13 (13 + length ?hs) = ?hs"
    using slice_at[of 13 "22 # u16_bytes version @ epoch_seq @ u16_bytes (length ?hs)" "13 + length ?hs" ?hs "[]"] assms(2)
    by simp
  have hl: "slice ?hs 1 4 = u24_bytes (length body)"
    using slice_at[of 1 "[1]" 4 "u24_bytes (length body)" ?tail] by simp
  have hb: "slice ?hs 4 (4 + length body) = take (length body) ?tail"
    by (simp add: slice_def u24_bytes_def)
  have b: "dtls_record version epoch_seq message_seq body = ?b" by (simp only: dtls_record_def Let_def)
  show ?thesis
    unfolding handshake_body_def Let_def b if_P[OF dtls] l from_bytes_u16[OF len(1)] hs hl from_bytes_u24[OF len(2)] hb
    by simp
qed



end
