(* ===== verification/Dns_Message.thy ===== *)
theory Dns_Message
  imports Wire_Bytes
begin

text \<open>
  The DNS message parser (\<open>shared/protocol_intel/dns.py\<close>). Whether the entropy of a name reaches 4.0, which
  the code computes with \<open>log2\<close> in floats, is a parameter.
\<close>

section \<open>Reading\<close>

definition read_u16 :: "bytes \<Rightarrow> nat \<Rightarrow> py_error + nat \<times> nat" where
  "read_u16 b i = ebind (byte_at b i) (\<lambda>x. ebind (byte_at b (i + 1)) (\<lambda>y. Inr (push_bit 8 x OR y, i + 2)))"

definition read_u32 :: "bytes \<Rightarrow> nat \<Rightarrow> py_error + nat \<times> nat" where
  "read_u32 b i =
     ebind (byte_at b i) (\<lambda>x. ebind (byte_at b (i + 1)) (\<lambda>y. ebind (byte_at b (i + 2)) (\<lambda>z. ebind (byte_at b (i + 3)) (\<lambda>w.
       Inr (push_bit 24 x OR push_bit 16 y OR push_bit 8 z OR w, i + 4)))))"

definition is_pointer :: "nat \<Rightarrow> bool" where
  "is_pointer label_len \<longleftrightarrow> label_len AND 0xC0 = 0xC0"

definition join_labels :: "string list \<Rightarrow> string" where
  "join_labels labels = strip_if (\<lambda>c. c = CHR ''.'') (py_join ''.'' (filter (\<lambda>x. x \<noteq> []) labels))"

function (sequential) decode_name :: "bytes \<Rightarrow> nat \<Rightarrow> nat \<Rightarrow> string \<times> nat"
  and name_loop :: "bytes \<Rightarrow> nat \<Rightarrow> string list \<Rightarrow> nat \<Rightarrow> string \<times> nat" where
  "decode_name b i depth = (if depth > 8 then ([], i) else name_loop b depth [] i)"
| "name_loop b depth labels i =
     (if i < length b
      then let label_len = unat (b ! i) in
        if label_len = 0 then (join_labels labels, i + 1)
        else if is_pointer label_len
          then if i + 1 \<ge> length b then ([], i + 1)
            else let ptr = push_bit 8 (label_len AND 0x3F) OR unat (b ! (i + 1));
                     name = fst (decode_name b ptr (depth + 1))
              in (join_labels (if name \<noteq> [] then labels @ [name] else labels), i + 2)
        else if i + 1 + label_len > length b then ([], i + 1)
        else name_loop b depth (labels @ [decode_ascii_ignore (slice b (i + 1) (i + 1 + label_len))]) (i + 1 + label_len)
      else (join_labels labels, i))"
  by pat_completeness auto
termination
  by (relation "measures
      [\<lambda>x. case x of Inl (b, i, depth) \<Rightarrow> if depth > 8 then 0 else Suc (9 - depth) | Inr (b, depth, labels, i) \<Rightarrow> Suc (9 - depth),
       \<lambda>x. case x of Inl (b, i, depth) \<Rightarrow> Suc (length b) | Inr (b, depth, labels, i) \<Rightarrow> length b - i]")
     auto

declare decode_name.simps [simp del] name_loop.simps [simp del]

definition count_char :: "char \<Rightarrow> string \<Rightarrow> nat" where
  "count_char c s = length (filter (\<lambda>d. d = c) s)"

definition risk_score :: "(string \<Rightarrow> bool) \<Rightarrow> string \<Rightarrow> nat" where
  "risk_score high_entropy qname =
     (let parts = filter (\<lambda>p. p \<noteq> []) (py_split (CHR ''.'') qname) in
      if qname = [] \<or> parts = [] then 0
      else let longest = Max (set (map length parts)); tld = py_lower (last parts);
               score = (if length qname \<ge> 45 then 20 else 0) + (if longest \<ge> 20 then 20 else 0) +
                 (if high_entropy qname then 20 else 0) +
                 (if tld \<in> {''zip'', ''mov'', ''top'', ''xyz'', ''gq'', ''tk'', ''cn''} then 15 else 0) +
                 (if count_char (CHR ''-'') qname \<ge> 4 then 10 else 0)
           in min score 100)"

section \<open>Messages\<close>

record dns_report =
  dns_is_response :: bool
  dns_opcode :: nat
  dns_rcode :: nat
  dns_aa :: bool
  dns_tc :: bool
  dns_rd :: bool
  dns_ra :: bool
  dns_qd :: nat
  dns_an :: nat
  dns_ns :: nat
  dns_ar :: nat
  dns_qname :: "string option"
  dns_risk :: "nat option"
  dns_qtype :: "nat option"
  dns_answers :: "string list option"

definition flag_bit :: "nat \<Rightarrow> nat \<Rightarrow> bool" where
  "flag_bit flags k \<longleftrightarrow> drop_bit k flags AND 1 \<noteq> 0"

definition read_answer :: "bytes \<Rightarrow> nat \<Rightarrow> nat \<Rightarrow> nat \<Rightarrow> string list" where
  "read_answer b rtype rdlen i =
     (let rdata = slice b i (i + rdlen) in
      if rtype = 1 \<and> rdlen = 4 then [py_join ''.'' (map (\<lambda>x. nat_str (unat x)) rdata)]
      else if rtype = 28 \<and> rdlen = 16
        then [py_join '':'' (map (\<lambda>j. bytes_hex (slice rdata (2 * j) (2 * j + 2))) [0..<8])]
      else if rtype = 5
        then (let cname = fst (decode_name b i 0) in if cname \<noteq> [] then [cname] else [])
      else [])"

fun answer_loop :: "bytes \<Rightarrow> nat \<Rightarrow> nat \<Rightarrow> string list \<Rightarrow> py_error + string list" where
  "answer_loop b 0 i answers = Inr answers"
| "answer_loop b (Suc n) i answers =
     (let i = snd (decode_name b i 0) in
      if i + 10 > length b then Inr answers
      else ebind (read_u16 b i) (\<lambda>(rtype, i). ebind (read_u16 b i) (\<lambda>(rclass, i). ebind (read_u32 b i) (\<lambda>(ttl, i).
        ebind (read_u16 b i) (\<lambda>(rdlen, i).
          if i + rdlen > length b then Inr answers
          else answer_loop b n (i + rdlen) (answers @ read_answer b rtype rdlen i))))))"

definition read_question :: "bytes \<Rightarrow> nat \<Rightarrow> nat \<Rightarrow> py_error + string \<times> nat option \<times> nat" where
  "read_question b qd i =
     (if qd > 0
      then let (qname, i) = decode_name b i 0 in
        if i + 4 \<le> length b
        then ebind (read_u16 b i) (\<lambda>(qtype, i). ebind (read_u16 b i) (\<lambda>(qclass, i). Inr (qname, Some qtype, i)))
        else Inr (qname, None, i)
      else Inr ([], None, i))"

definition parse_dns_fields :: "(string \<Rightarrow> bool) \<Rightarrow> bytes \<Rightarrow> py_error + dns_report" where
  "parse_dns_fields high_entropy b =
     ebind (read_u16 b 0) (\<lambda>(ident, i). ebind (read_u16 b i) (\<lambda>(flags, i). ebind (read_u16 b i) (\<lambda>(qd, i).
     ebind (read_u16 b i) (\<lambda>(an, i). ebind (read_u16 b i) (\<lambda>(ns, i). ebind (read_u16 b i) (\<lambda>(ar, i).
     ebind (read_question b qd i) (\<lambda>(qname, qtype, i).
     ebind (answer_loop b (min an 8) i []) (\<lambda>answers.
       Inr \<lparr>dns_is_response = flag_bit flags 15, dns_opcode = drop_bit 11 flags AND 0xF, dns_rcode = flags AND 0xF,
          dns_aa = flag_bit flags 10, dns_tc = flag_bit flags 9, dns_rd = flag_bit flags 8, dns_ra = flag_bit flags 7,
          dns_qd = qd, dns_an = an, dns_ns = ns, dns_ar = ar,
          dns_qname = (if qname \<noteq> [] then Some qname else None),
          dns_risk = (if qname \<noteq> [] then Some (risk_score high_entropy qname) else None),
          dns_qtype = qtype, dns_answers = (if answers \<noteq> [] then Some answers else None)\<rparr>))))))))"

text \<open>\<open>None\<close> is the empty dictionary.\<close>

definition parse_dns_message :: "(string \<Rightarrow> bool) \<Rightarrow> bytes \<Rightarrow> dns_report option" where
  "parse_dns_message high_entropy b =
     (if length b < 12 then None
      else case parse_dns_fields high_entropy b of Inl _ \<Rightarrow> None | Inr r \<Rightarrow> Some r)"

section \<open>No read fails\<close>

declare add_2_eq_Suc [simp del] add_2_eq_Suc' [simp del]

lemma byte_at_ok [simp]: "i < length b \<Longrightarrow> byte_at b i = Inr (unat (b ! i))"
  by (simp add: byte_at_def)

lemma read_u16_ok: "i + 2 \<le> length b \<Longrightarrow> read_u16 b i = Inr (push_bit 8 (unat (b ! i)) OR unat (b ! (i + 1)), i + 2)"
  by (simp add: read_u16_def)

lemma read_u32_ok: "i + 4 \<le> length b \<Longrightarrow> \<exists>v. read_u32 b i = Inr (v, i + 4)"
  by (simp add: read_u32_def)

lemma answer_loop_ok:
  "\<exists>new. answer_loop b n i answers = Inr (answers @ new) \<and> length new \<le> n"
proof (induction n arbitrary: i answers)
  case (Suc n)
  let ?i = "snd (decode_name b i 0)"
  show ?case
  proof (cases "?i + 10 > length b")
    case False
    then obtain rtype rclass ttl rdlen where reads: "read_u16 b ?i = Inr (rtype, ?i + 2)" "read_u16 b (?i + 2) = Inr (rclass, ?i + 4)"
      "read_u32 b (?i + 4) = Inr (ttl, ?i + 8)" "read_u16 b (?i + 8) = Inr (rdlen, ?i + 10)"
      using read_u16_ok[of ?i b] read_u16_ok[of "?i + 2" b] read_u32_ok[of "?i + 4" b] read_u16_ok[of "?i + 8" b]
      by (auto simp: add.assoc)
    show ?thesis
    proof (cases "?i + 10 + rdlen > length b")
      case True
      then show ?thesis using False by (simp add: Let_def reads)
    next
      case in_range: False
      let ?a = "read_answer b rtype rdlen (?i + 10)"
      obtain new where "answer_loop b n (?i + 10 + rdlen) (answers @ ?a) = Inr (answers @ ?a @ new)" "length new \<le> n"
        using Suc.IH[of "?i + 10 + rdlen" "answers @ ?a"] by auto
      moreover have "length ?a \<le> 1" by (simp add: read_answer_def Let_def)
      ultimately show ?thesis using False in_range by (intro exI[of _ "?a @ new"]) (simp add: Let_def reads)
    qed
  qed (auto simp: Let_def)
qed simp

lemma read_question_ok: "\<exists>q. read_question b qd i = Inr q"
  by (auto simp: read_question_def read_u16_ok Let_def split: prod.splits)


lemma parse_dns_fields_ok:
  assumes "12 \<le> length b"
  shows "\<exists>r. parse_dns_fields high_entropy b = Inr r \<and>
     (case dns_answers r of None \<Rightarrow> True | Some xs \<Rightarrow> xs \<noteq> [] \<and> length xs \<le> 8) \<and>
     dns_opcode r < 16 \<and> dns_rcode r < 16 \<and>
     (case dns_risk r of None \<Rightarrow> dns_qname r = None | Some s \<Rightarrow> \<exists>q. dns_qname r = Some q \<and> q \<noteq> [] \<and> s = risk_score high_entropy q)"
proof -
  have reads: "\<exists>v. read_u16 b 0 = Inr (v, 2)" "\<exists>v. read_u16 b 2 = Inr (v, 4)" "\<exists>v. read_u16 b 4 = Inr (v, 6)"
    "\<exists>v. read_u16 b 6 = Inr (v, 8)" "\<exists>v. read_u16 b 8 = Inr (v, 10)" "\<exists>v. read_u16 b 10 = Inr (v, 12)"
    using assms by (simp_all add: read_u16_ok)
  then obtain ident flags qd an ns ar where r: "read_u16 b 0 = Inr (ident, 2)" "read_u16 b 2 = Inr (flags, 4)"
    "read_u16 b 4 = Inr (qd, 6)" "read_u16 b 6 = Inr (an, 8)" "read_u16 b 8 = Inr (ns, 10)" "read_u16 b 10 = Inr (ar, 12)"
    by blast
  obtain qname qtype i where q: "read_question b qd 12 = Inr (qname, qtype, i)" using read_question_ok[of b qd 12] by auto
  obtain answers where a: "answer_loop b (min an 8) i [] = Inr answers" "length answers \<le> min an 8"
    using answer_loop_ok[of b "min an 8" i "[]"] by auto
  have nibble: "n AND 0xF < 16" for n :: nat
    using take_bit_nat_less_exp[of 4 n] by (simp add: take_bit_eq_mask mask_eq_exp_minus_1)
  show ?thesis using a(2) by (simp add: parse_dns_fields_def r q a(1) nibble)
qed

lemma risk_score_bound: "risk_score high_entropy q \<le> 85"
  by (simp add: risk_score_def Let_def)



section \<open>Names\<close>

text \<open>The reference: a name as labels of 1 to 63 ASCII characters other than the dot, in the encoding of RFC 1035.\<close>

definition valid_label :: "string \<Rightarrow> bool" where
  "valid_label l \<longleftrightarrow> l \<noteq> [] \<and> length l < 64 \<and> list_all (\<lambda>c. code_point c < 128 \<and> c \<noteq> CHR ''.'') l"

definition label_bytes :: "string \<Rightarrow> bytes" where
  "label_bytes l = of_nat (length l) # map (\<lambda>c. of_nat (code_point c)) l"

definition labels_bytes :: "string list \<Rightarrow> bytes" where
  "labels_bytes ls = concat (map label_bytes ls)"

definition pointer_bytes :: "nat \<Rightarrow> bytes" where
  "pointer_bytes p = [of_nat (192 + p div 256), of_nat (p mod 256)]"

lemma decode_ascii:
  "list_all (\<lambda>c. code_point c < 128) l \<Longrightarrow> decode_ascii_ignore (map (\<lambda>c. of_nat (code_point c)) l) = l"
  unfolding decode_ascii_ignore_def by (induction l) (auto simp: code_point_def word_less_nat_alt)

lemma decode_label: "valid_label l \<Longrightarrow> decode_ascii_ignore (map (\<lambda>c. of_nat (code_point c)) l) = l"
  by (rule decode_ascii) (auto simp: valid_label_def list_all_iff)

lemma small_not_pointer:
  assumes "n < 64"
  shows "\<not> is_pointer n"
proof -
  have "list_all (\<lambda>n. \<not> is_pointer n) [0..<64]" by code_simp
  then show ?thesis by (rule list_all_memD) (simp add: assms)
qed

lemma pointer_bits:
  assumes "q < 64"
  shows "is_pointer (192 + q)" "(192 + q) AND 0x3F = q"
proof -
  have "list_all (\<lambda>q. is_pointer (192 + q) \<and> (192 + q) AND 0x3F = q) [0..<64]" by code_simp
  then have "is_pointer (192 + q) \<and> (192 + q) AND 0x3F = q" by (rule list_all_memD) (simp add: assms)
  then show "is_pointer (192 + q)" "(192 + q) AND 0x3F = q" by simp_all
qed

lemma or_is_plus:
  assumes "y < 256"
  shows "push_bit 8 x OR y = x * 256 + (y :: nat)"
proof -
  have "take_bit 8 y = y" using assms by (simp add: take_bit_nat_eq_self)
  then have "\<not> bit y n" if "8 \<le> n" for n using that by (metis bit_take_bit_iff not_less)
  then have "push_bit 8 x + y = push_bit 8 x OR y"
    by (intro disjunctive_add) (auto simp: bit_push_bit_iff)
  then show ?thesis by (simp add: push_bit_nat_def)
qed


text \<open>One label of a name, and the end of a name.\<close>

lemma name_loop_label:
  assumes "valid_label l"
  shows "name_loop (pre @ label_bytes l @ post) depth labels (length pre) =
     name_loop (pre @ label_bytes l @ post) depth (labels @ [l]) (length pre + length (label_bytes l))"
proof -
  let ?b = "pre @ label_bytes l @ post"
  have l: "0 < length l" "length l < 64" using assms by (auto simp: valid_label_def)
  have first: "unat (?b ! length pre) = length l" using l by (simp add: label_bytes_def nth_append)
  have body: "slice ?b (length pre + 1) (length pre + 1 + length l) = map (\<lambda>c. of_nat (code_point c)) l"
    using slice_at[of "length pre + 1" "pre @ [of_nat (length l)]" "length pre + 1 + length l"
        "map (\<lambda>c. of_nat (code_point c)) l" post]
    by (simp add: label_bytes_def)
  have len: "length pre + length (label_bytes l) = length pre + 1 + length l" by (simp add: label_bytes_def)
  have "length pre < length ?b" "\<not> length pre + 1 + length l > length ?b" by (simp_all add: label_bytes_def)
  with l show ?thesis
    by (subst name_loop.simps) (simp only: Let_def first body decode_label[OF assms] small_not_pointer[OF l(2)] if_True if_False len
        neq0_conv[symmetric])
qed

lemma name_loop_labels:
  "list_all valid_label ls \<Longrightarrow>
     name_loop (pre @ labels_bytes ls @ post) depth labels (length pre) =
     name_loop (pre @ labels_bytes ls @ post) depth (labels @ ls) (length pre + length (labels_bytes ls))"
proof (induction ls arbitrary: pre labels)
  case Nil
  then show ?case by (simp add: labels_bytes_def)
next
  case (Cons l ls)
  have bytes: "pre @ labels_bytes (l # ls) @ post = pre @ label_bytes l @ labels_bytes ls @ post"
    "pre @ label_bytes l @ labels_bytes ls @ post = (pre @ label_bytes l) @ labels_bytes ls @ post"
    by (simp_all add: labels_bytes_def)
  have "name_loop (pre @ labels_bytes (l # ls) @ post) depth labels (length pre) =
      name_loop (pre @ label_bytes l @ labels_bytes ls @ post) depth (labels @ [l]) (length pre + length (label_bytes l))"
    unfolding bytes(1) using Cons.prems by (intro name_loop_label) simp
  also have "\<dots> = name_loop ((pre @ label_bytes l) @ labels_bytes ls @ post) depth ((labels @ [l]) @ ls)
      (length (pre @ label_bytes l) + length (labels_bytes ls))"
    unfolding bytes(2) using Cons.IH[of "pre @ label_bytes l" "labels @ [l]"] Cons.prems by simp
  finally show ?case by (simp add: labels_bytes_def add.assoc)
qed

definition dotted :: "string list \<Rightarrow> string" where
  "dotted ls = py_join ''.'' ls"

lemma hd_dotted: "l \<noteq> [] \<Longrightarrow> hd (dotted (l # ls)) = hd l" and dotted_nonempty: "l \<noteq> [] \<Longrightarrow> dotted (l # ls) \<noteq> []"
  by (cases ls; simp add: dotted_def)+

lemma last_dotted: "list_all valid_label ls \<Longrightarrow> ls \<noteq> [] \<Longrightarrow> dotted ls \<noteq> [] \<and> last (dotted ls) \<noteq> CHR ''.''"
proof (induction ls)
  case (Cons l ls)
  show ?case
  proof (cases ls)
    case Nil
    have "last l \<in> set l" using Cons.prems by (auto simp: valid_label_def)
    then show ?thesis using Cons.prems by (auto simp: Nil dotted_def valid_label_def list_all_iff)
  next
    case (Cons l' ls')
    then have "dotted (l # ls) = l @ ''.'' @ dotted ls" by (simp add: dotted_def)
    then show ?thesis using Cons.IH Cons.prems Cons by auto
  qed
qed simp

lemma join_labels_valid:
  assumes "list_all valid_label ls"
  shows "join_labels ls = dotted ls"
proof -
  have f: "filter (\<lambda>x. x \<noteq> []) ls = ls"
    using assms by (auto simp: filter_id_conv list_all_iff valid_label_def)
  show ?thesis
  proof (cases ls)
    case Nil
    then show ?thesis by (simp add: join_labels_def dotted_def strip_if_def)
  next
    case (Cons l ls')
    have "hd l \<in> set l" "l \<noteq> []" using assms Cons by (auto simp: valid_label_def)
    then have "hd (dotted ls) \<noteq> CHR ''.''" using assms by (auto simp: Cons hd_dotted valid_label_def list_all_iff)
    with last_dotted[OF assms] show ?thesis
      unfolding join_labels_def f dotted_def[symmetric] by (intro strip_if_no_ends) (auto simp: Cons)
  qed
qed


lemma name_loop_zero:
  "i = length pre \<Longrightarrow> name_loop (pre @ 0 # post) depth labels i = (join_labels labels, i + 1)"
  by (subst name_loop.simps) (simp add: Let_def)

lemma name_loop_pointer:
  assumes "p < 16384" "i = length pre"
  shows "name_loop (pre @ pointer_bytes p @ post) depth labels i =
     (let name = fst (decode_name (pre @ pointer_bytes p @ post) p (depth + 1))
      in (join_labels (if name \<noteq> [] then labels @ [name] else labels), i + 2))"
proof -
  let ?b = "pre @ pointer_bytes p @ post"
  have q: "p div 256 < 64" using assms(1) by (simp add: less_mult_imp_div_less)
  have "unat (of_nat (192 + p div 256) :: byte) = 192 + p div 256" by (rule unat_of_nat_byte) (use q in simp)
  then have first: "unat (?b ! i) = 192 + p div 256"
    using assms(2) by (simp add: pointer_bytes_def nth_append del: of_nat_add)
  have second: "unat (?b ! (i + 1)) = p mod 256" using assms(2) by (simp add: pointer_bytes_def nth_append)
  have ptr: "push_bit 8 ((192 + p div 256) AND 0x3F) OR p mod 256 = p"
    unfolding pointer_bits(2)[OF q] by (simp add: or_is_plus)
  have "i < length ?b" "\<not> i + 1 \<ge> length ?b" by (simp_all add: assms(2) pointer_bytes_def)
  moreover have "192 + p div 256 \<noteq> 0" by simp
  ultimately show ?thesis
    by (subst name_loop.simps) (simp only: first second ptr Let_def pointer_bits(1)[OF q] if_True if_False)
qed

lemma decode_name_plain:
  assumes "list_all valid_label ls" "depth \<le> 8" "i = length pre"
  shows "decode_name (pre @ labels_bytes ls @ 0 # post) i depth = (dotted ls, i + length (labels_bytes ls) + 1)"
  using name_loop_labels[OF assms(1), of pre "0 # post" depth "[]"] name_loop_zero[of _ "pre @ labels_bytes ls" post] assms(2)
  by (simp add: decode_name.simps assms(3) join_labels_valid[OF assms(1)])

lemma dotted_append: "ls' \<noteq> [] \<Longrightarrow> ls \<noteq> [] \<Longrightarrow> dotted (ls @ ls') = dotted (ls @ [dotted ls'])"
proof (induction ls)
  case (Cons l ls)
  then show ?case by (cases ls; cases ls') (auto simp: dotted_def)
qed simp

lemma join_labels_tail:
  assumes "list_all valid_label ls" "list_all valid_label ls'" "ls' \<noteq> []"
  shows "join_labels (ls @ [dotted ls']) = dotted (ls @ ls')"
proof -
  have both: "list_all valid_label (ls @ ls')" using assms by simp
  have "dotted ls' \<noteq> []" using last_dotted[OF assms(2,3)] by simp
  then have "join_labels (ls @ [dotted ls']) = strip_if (\<lambda>c. c = CHR ''.'') (dotted (ls @ [dotted ls']))"
    using assms(1) by (simp add: join_labels_def dotted_def valid_label_def list_all_iff cong: filter_cong)
  also have "dotted (ls @ [dotted ls']) = dotted (ls @ ls')"
    using dotted_append[OF assms(3)] by (cases "ls = []") (simp_all add: dotted_def)
  also have "strip_if (\<lambda>c. c = CHR ''.'') (dotted (ls @ ls')) = dotted (ls @ ls')"
    using join_labels_valid[OF both] unfolding join_labels_def
    by (metis strip_if_idem)
  finally show ?thesis .
qed

text \<open>
  C0: Round trip of a compressed name: labels followed by a pointer to a name written earlier in the message read
  back as all the labels joined by dots, and reading goes on behind the pointer.
\<close>

theorem dns_compressed_name_round_trip:
  assumes "list_all valid_label ls" and "list_all valid_label ls'" and "length pre < 16384"
    and "b = pre @ labels_bytes ls' @ 0 # mid @ labels_bytes ls @ pointer_bytes (length pre) @ post"
    and "i = length (pre @ labels_bytes ls' @ 0 # mid)"
  shows "decode_name b i 0 = (dotted (ls @ ls'), i + length (labels_bytes ls) + 2)"
proof -
  have target: "fst (decode_name b (length pre) (0 + 1)) = dotted ls'"
    unfolding assms(4) using decode_name_plain[OF assms(2), of 1 "length pre" pre] by simp
  let ?pre = "pre @ labels_bytes ls' @ 0 # mid"
  have "decode_name b i 0 = name_loop (?pre @ labels_bytes ls @ pointer_bytes (length pre) @ post) 0 [] (length ?pre)"
    by (simp add: decode_name.simps assms(4,5))
  also have "\<dots> = name_loop ((?pre @ labels_bytes ls) @ pointer_bytes (length pre) @ post) 0 ls (i + length (labels_bytes ls))"
    by (subst name_loop_labels[OF assms(1)]) (simp add: assms(5))
  also have "\<dots> = (join_labels (if dotted ls' \<noteq> [] then ls @ [dotted ls'] else ls), i + length (labels_bytes ls) + 2)"
    by (subst name_loop_pointer[OF assms(3)]) (use target in \<open>simp_all add: assms(4,5) Let_def\<close>)
  also have "join_labels (if dotted ls' \<noteq> [] then ls @ [dotted ls'] else ls) = dotted (ls @ ls')"
  proof (cases "ls' = []")
    case True
    then show ?thesis using join_labels_valid[OF assms(1)] by (simp add: dotted_def)
  next
    case False
    then show ?thesis using join_labels_tail[OF assms(1,2) False] last_dotted[OF assms(2) False] by simp
  qed
  finally show ?thesis .
qed

theorem dns_compressed_name_round_trip_witness:
  "decode_name (replicate 12 0 @ labels_bytes [''example'', ''com''] @ 0 # [] @ labels_bytes [''www''] @ pointer_bytes 12 @ []) 25 0 =
     (''www.example.com'', 31)"
proof -
  have "list_all valid_label [''www'']" "list_all valid_label [''example'', ''com'']" by code_simp+
  from dns_compressed_name_round_trip[OF this, of "replicate 12 0" _ "[]" "[]", OF _ refl refl]
  show ?thesis by (simp add: labels_bytes_def label_bytes_def dotted_def)
qed

text \<open>
  C0: Compression loops end: a pointer that points to itself is followed at most nine times and gives the empty
  name, at any depth of recursion, and reading goes on behind the pointer.
\<close>

theorem dns_pointer_loop_ends:
  assumes "length pre < 16384"
  shows "decode_name (pre @ pointer_bytes (length pre) @ post) (length pre) depth =
     ([], length pre + (if depth > 8 then 0 else 2))"
proof (induction "9 - depth" arbitrary: depth)
  case 0
  then show ?case by (simp add: decode_name.simps)
next
  case (Suc n)
  then have ih: "fst (decode_name (pre @ pointer_bytes (length pre) @ post) (length pre) (depth + 1)) = []" by simp
  have "\<not> depth > 8" using Suc.hyps(2) by simp
  then show ?case
    by (simp add: decode_name.simps name_loop_pointer[OF assms refl] ih[simplified] join_labels_def strip_if_def)
qed

theorem dns_pointer_loop_ends_witness:
  "decode_name (replicate 12 0 @ pointer_bytes 12 @ [1, 2]) 12 0 = ([], 14)"
  using dns_pointer_loop_ends[of "replicate 12 0" "[1, 2]" 0] by simp

end
