(* ===== verification/Audit_Chain.thy ===== *)
theory Audit_Chain
  imports Py_Runtime
begin

text \<open>
  The audit chain (\<open>core/audit/chain.py\<close>, \<open>prune_audit_events\<close> of \<open>core/audit/retention.py\<close> and \<open>verify_chain\<close> of
  \<open>workers/maintenance/audit_verifier.py\<close>): events linked by hashes, pruned with checkpoints, and verified in
  pages. The keyed digest is a parameter. The head row is locked from reading it to the commit, so the
  writes of concurrent transactions follow each other; row ids and times come from the caller. A row
  whose \<open>seq\<close> is null takes no part in any query here and is not a row of the model.
\<close>

section \<open>Rows\<close>

record audit_event =
  ae_id :: string
  ae_seq :: int
  ae_operation_id :: "string option"
  ae_created_at :: int
  ae_event_type :: string
  ae_action :: string
  ae_outcome :: string
  ae_actor_user_id :: "int option"
  ae_actor_username :: "string option"
  ae_resource_type :: string
  ae_resource_id :: "string option"
  ae_request_id :: "string option"
  ae_trace_id :: "string option"
  ae_ip :: "string option"
  ae_user_agent :: "string option"
  ae_method :: "string option"
  ae_path :: "string option"
  ae_reason :: "string option"
  ae_error :: "string option"
  ae_before :: pyval
  ae_after :: pyval
  ae_changed_fields :: "string list"
  ae_context :: pyval
  ae_prev_event_hash :: "string option"
  ae_event_hash :: "string option"
  ae_schema_version :: int

record chain_head =
  ch_seq :: int
  ch_head_hash :: "string option"
  ch_chain_from_seq :: int

record chain_checkpoint =
  cp_id :: string
  cp_created_at :: int
  cp_from_seq :: int
  cp_to_seq :: int
  cp_pruned_count :: int
  cp_last_event_hash :: "string option"
  cp_prev_checkpoint_hash :: "string option"
  cp_checkpoint_hash :: string

record audit_db =
  ad_events :: "audit_event list"
  ad_head :: "chain_head option"
  ad_checkpoints :: "chain_checkpoint list"

datatype break_reason = PrevHashMismatch | EventHashMismatch | MissingPredecessor | SeqGap

record chain_break =
  br_seq :: int
  br_event_id :: string
  br_reason :: break_reason

record chain_page =
  pg_checked :: nat
  pg_last_seq :: int
  pg_breaks :: "chain_break list"
  pg_exhausted :: bool

section \<open>Signatures\<close>

definition text_or_null :: "string option \<Rightarrow> pyval" where
  "text_or_null s = (case s of None \<Rightarrow> PNone | Some t \<Rightarrow> PStr t)"

definition int_or_one :: "int \<Rightarrow> int" where
  "int_or_one i = (if i = 0 then 1 else i)"

definition event_payload :: "audit_event \<Rightarrow> pyval" where
  "event_payload row = PDict
     [(''seq'', PInt (ae_seq row)), (''id'', PStr (ae_id row)), (''operation_id'', text_or_null (ae_operation_id row)),
      (''created_at'', PStr (iso_format ''T'' (ae_created_at row))), (''event_type'', PStr (ae_event_type row)),
      (''action'', PStr (ae_action row)), (''outcome'', PStr (ae_outcome row)),
      (''actor_user_id'', case ae_actor_user_id row of None \<Rightarrow> PNone | Some i \<Rightarrow> PInt i),
      (''actor_username'', text_or_null (ae_actor_username row)), (''resource_type'', PStr (ae_resource_type row)),
      (''resource_id'', text_or_null (ae_resource_id row)), (''request_id'', text_or_null (ae_request_id row)),
      (''trace_id'', text_or_null (ae_trace_id row)), (''ip'', text_or_null (ae_ip row)),
      (''user_agent'', text_or_null (ae_user_agent row)), (''method'', text_or_null (ae_method row)),
      (''path'', text_or_null (ae_path row)), (''reason'', text_or_null (ae_reason row)),
      (''error'', text_or_null (ae_error row)), (''before'', ae_before row), (''after'', ae_after row),
      (''changed_fields'', PList (map PStr (ae_changed_fields row))), (''context'', ae_context row),
      (''schema_version'', PInt (int_or_one (ae_schema_version row)))]"

text \<open>\<open>s or None\<close> and \<open>s or ""\<close> of a hash column.\<close>

definition or_none :: "string option \<Rightarrow> string option" where
  "or_none s = (case s of Some [] \<Rightarrow> None | _ \<Rightarrow> s)"

definition or_empty :: "string option \<Rightarrow> string" where
  "or_empty s = (case s of None \<Rightarrow> [] | Some t \<Rightarrow> t)"

lemma or_none_idem [simp]: "or_none (or_none h) = or_none h"
  by (auto simp: or_none_def split: option.splits list.splits)

lemma or_none_None [simp]: "or_none None = None"
  by (simp add: or_none_def)

lemma or_empty_or_none [simp]: "or_empty (or_none h) = or_empty h"
  by (auto simp: or_none_def or_empty_def split: option.splits list.splits)

definition sign_event :: "(string \<Rightarrow> string) \<Rightarrow> pyval \<Rightarrow> string option \<Rightarrow> string" where
  "sign_event digest payload prev_hash =
     digest (json_dumps (PDict [(''payload'', payload), (''prev_event_hash'', PStr (or_empty prev_hash))]))"

definition checkpoint_payload :: "int \<Rightarrow> int \<Rightarrow> int \<Rightarrow> int \<Rightarrow> string option \<Rightarrow> pyval" where
  "checkpoint_payload created_at from_seq to_seq pruned_count last_event_hash = PDict
     [(''created_at'', PStr (iso_format ''T'' created_at)), (''from_seq'', PInt from_seq), (''to_seq'', PInt to_seq),
      (''pruned_count'', PInt pruned_count), (''last_event_hash'', PStr (or_empty last_event_hash))]"

definition sign_checkpoint :: "(string \<Rightarrow> string) \<Rightarrow> pyval \<Rightarrow> string option \<Rightarrow> string" where
  "sign_checkpoint digest payload prev_hash =
     digest (json_dumps (PDict [(''checkpoint'', payload), (''prev_checkpoint_hash'', PStr (or_empty prev_hash))]))"

section \<open>Writing and pruning\<close>

definition locked_head :: "audit_db \<Rightarrow> chain_head" where
  "locked_head db =
     (case ad_head db of Some head \<Rightarrow> head | None \<Rightarrow> \<lparr>ch_seq = 0, ch_head_hash = None, ch_chain_from_seq = 1\<rparr>)"

text \<open>\<open>link_event\<close> and the \<open>db.add(row)\<close> of its caller.\<close>

definition link_event :: "(string \<Rightarrow> string) \<Rightarrow> audit_event \<Rightarrow> audit_db \<Rightarrow> audit_event \<times> audit_db" where
  "link_event digest row db =
     (let head = locked_head db;
          row = row\<lparr>ae_seq := ch_seq head + 1, ae_prev_event_hash := or_none (ch_head_hash head)\<rparr>;
          row = row\<lparr>ae_event_hash := Some (sign_event digest (event_payload row) (ae_prev_event_hash row))\<rparr>
      in (row, db\<lparr>ad_events := ad_events db @ [row],
            ad_head := Some (head\<lparr>ch_seq := ae_seq row, ch_head_hash := ae_event_hash row\<rparr>)\<rparr>))"

definition chain_floor :: "audit_db \<Rightarrow> int" where
  "chain_floor db = (case ad_head db of Some head \<Rightarrow> int_or_one (ch_chain_from_seq head) | None \<Rightarrow> 1)"

definition latest_checkpoint :: "audit_db \<Rightarrow> chain_checkpoint option" where
  "latest_checkpoint db = (case sort_desc cp_to_seq (ad_checkpoints db) of [] \<Rightarrow> None | c # _ \<Rightarrow> Some c)"

definition seal_pruned_range ::
  "(string \<Rightarrow> string) \<Rightarrow> string \<Rightarrow> int \<Rightarrow> int \<Rightarrow> int \<Rightarrow> int \<Rightarrow> string option \<Rightarrow> audit_db \<Rightarrow> chain_checkpoint \<times> audit_db" where
  "seal_pruned_range digest uuid created_at from_seq to_seq pruned_count last_event_hash db =
     (let payload = checkpoint_payload created_at from_seq to_seq pruned_count last_event_hash;
          prev_hash = map_option cp_checkpoint_hash (latest_checkpoint db);
          row = \<lparr>cp_id = uuid, cp_created_at = created_at, cp_from_seq = from_seq, cp_to_seq = to_seq,
             cp_pruned_count = pruned_count, cp_last_event_hash = last_event_hash, cp_prev_checkpoint_hash = prev_hash,
             cp_checkpoint_hash = sign_checkpoint digest payload prev_hash\<rparr>
      in (row, db\<lparr>ad_checkpoints := ad_checkpoints db @ [row]\<rparr>))"

definition prune_audit_events ::
  "(string \<Rightarrow> string) \<Rightarrow> string \<Rightarrow> int \<Rightarrow> int \<Rightarrow> nat \<Rightarrow> audit_db \<Rightarrow> nat \<times> audit_db" where
  "prune_audit_events digest uuid now cutoff batch db =
     (let rows = take batch (sort_key ae_seq (filter (\<lambda>r. ae_created_at r < cutoff) (ad_events db))) in
      if rows = [] then (0, db)
      else let sealed = snd (seal_pruned_range digest uuid now (ae_seq (hd rows)) (ae_seq (last rows)) (int (length rows))
                  (or_none (ae_event_hash (last rows))) db);
               kept = filter (\<lambda>r. ae_id r \<notin> set (map ae_id rows)) (ad_events db)
           in (length (ad_events db) - length kept, sealed\<lparr>ad_events := kept\<rparr>))"

section \<open>Verification\<close>

text \<open>The hash the first row of a page must point to, and whether its predecessor is gone without a trace.\<close>

definition predecessor_hash :: "audit_db \<Rightarrow> audit_event \<Rightarrow> int \<Rightarrow> string option \<times> bool" where
  "predecessor_hash db first_row floor_seq =
     (if ae_seq first_row \<le> floor_seq then (None, False)
      else case List.find (\<lambda>r. ae_seq r = ae_seq first_row - 1) (ad_events db) of
        Some r \<Rightarrow> (or_none (ae_event_hash r), False)
      | None \<Rightarrow>
          (case List.find (\<lambda>c. cp_to_seq c = ae_seq first_row - 1) (ad_checkpoints db) of
             Some c \<Rightarrow> (or_none (cp_last_event_hash c), False)
           | None \<Rightarrow> (None, True)))"

definition rows_after :: "audit_db \<Rightarrow> int \<Rightarrow> audit_event list" where
  "rows_after db after_seq = sort_key ae_seq (filter (\<lambda>r. ae_seq r > after_seq) (ad_events db))"

definition page_rows :: "audit_db \<Rightarrow> int \<Rightarrow> nat \<Rightarrow> audit_event list" where
  "page_rows db after_seq limit = take limit (rows_after db after_seq)"

definition break_at :: "audit_event \<Rightarrow> break_reason \<Rightarrow> chain_break" where
  "break_at row reason = \<lparr>br_seq = ae_seq row, br_event_id = ae_id row, br_reason = reason\<rparr>"

definition signed :: "(string \<Rightarrow> string) \<Rightarrow> audit_event \<Rightarrow> bool" where
  "signed digest row \<longleftrightarrow>
     sign_event digest (event_payload row) (or_none (ae_prev_event_hash row)) = or_empty (ae_event_hash row)"

fun verify_rows :: "(string \<Rightarrow> string) \<Rightarrow> string option \<Rightarrow> int \<Rightarrow> audit_event list \<Rightarrow> chain_break list" where
  "verify_rows digest expected_prev expected_seq [] = []"
| "verify_rows digest expected_prev expected_seq (row # rows) =
     (if ae_seq row \<noteq> expected_seq then [break_at row SeqGap] else []) @
     (if or_none (ae_prev_event_hash row) \<noteq> expected_prev then [break_at row PrevHashMismatch] else []) @
     (if \<not> signed digest row then [break_at row EventHashMismatch] else []) @
     verify_rows digest (or_none (ae_event_hash row)) (ae_seq row + 1) rows"

definition verify_page :: "(string \<Rightarrow> string) \<Rightarrow> audit_db \<Rightarrow> int \<Rightarrow> nat \<Rightarrow> chain_page" where
  "verify_page digest db after_seq limit =
     (let floor_seq = chain_floor db; start = max after_seq (floor_seq - 1) in
      case page_rows db start limit of
        [] \<Rightarrow> \<lparr>pg_checked = 0, pg_last_seq = start, pg_breaks = [], pg_exhausted = True\<rparr>
      | first_row # rows \<Rightarrow>
          (let (expected_prev, orphaned) = predecessor_hash db first_row floor_seq;
               breaks = (if orphaned then [break_at first_row MissingPredecessor] else []);
               expected_prev = (if orphaned then or_none (ae_prev_event_hash first_row) else expected_prev)
           in \<lparr>pg_checked = length (first_row # rows), pg_last_seq = ae_seq (last (first_row # rows)),
               pg_breaks = breaks @ verify_rows digest expected_prev (ae_seq first_row) (first_row # rows),
               pg_exhausted = length (first_row # rows) < limit\<rparr>))"

lemma set_rows_after: "set (rows_after db s) = {r \<in> set (ad_events db). ae_seq r > s}"
  by (auto simp: rows_after_def)

lemma verify_page_progress:
  assumes "\<not> pg_exhausted (verify_page digest db after_seq limit)"
  shows "length (filter (\<lambda>r. ae_seq r > pg_last_seq (verify_page digest db after_seq limit)) (ad_events db))
     < length (filter (\<lambda>r. ae_seq r > after_seq) (ad_events db))"
proof -
  let ?start = "max after_seq (chain_floor db - 1)"
  obtain r rs where rows: "page_rows db ?start limit = r # rs"
    using assms by (cases "page_rows db ?start limit") (auto simp: verify_page_def Let_def)
  have last: "pg_last_seq (verify_page digest db after_seq limit) = ae_seq (last (r # rs))"
    by (simp add: verify_page_def Let_def rows split: prod.splits)
  have "last (r # rs) \<in> set (rows_after db ?start)"
    using rows unfolding page_rows_def by (metis in_set_takeD last_in_set list.distinct(1))
  then have mem: "last (r # rs) \<in> set (ad_events db)" and gt: "ae_seq (last (r # rs)) > after_seq"
    by (auto simp: set_rows_after)
  have sub: "filter (\<lambda>r'. ae_seq r' > ae_seq (last (r # rs))) (ad_events db) =
      filter (\<lambda>r'. ae_seq r' > ae_seq (last (r # rs))) (filter (\<lambda>r. ae_seq r > after_seq) (ad_events db))"
    using gt by (auto intro: filter_cong)
  have "last (r # rs) \<in> set (filter (\<lambda>r. ae_seq r > after_seq) (ad_events db))" using mem gt by simp
  then show ?thesis unfolding last sub by (rule length_filter_less) simp
qed

function verify_from :: "(string \<Rightarrow> string) \<Rightarrow> audit_db \<Rightarrow> nat \<Rightarrow> int \<Rightarrow> nat \<times> int \<times> chain_break list" where
  "verify_from digest db batch after_seq =
     (let page = verify_page digest db after_seq batch in
      if pg_exhausted page then (pg_checked page, pg_last_seq page, pg_breaks page)
      else case verify_from digest db batch (pg_last_seq page) of
        (checked, last_seq, breaks) \<Rightarrow> (pg_checked page + checked, last_seq, pg_breaks page @ breaks))"
  by pat_completeness auto
termination
  by (relation "measure (\<lambda>(digest, db, batch, after_seq). length (filter (\<lambda>r. ae_seq r > after_seq) (ad_events db)))")
     (auto simp: verify_page_progress)

declare verify_from.simps [simp del]

definition verify_chain :: "(string \<Rightarrow> string) \<Rightarrow> nat \<Rightarrow> audit_db \<Rightarrow> nat \<times> int \<times> chain_break list" where
  "verify_chain digest batch db = verify_from digest db batch (chain_floor db - 1)"

end
