(* ===== verification/Audit_Verify.thy ===== *)
theory Audit_Verify
  imports Audit_Chain
begin

text \<open>What the verifier accepts, and what it says of chains the program itself writes.\<close>

section \<open>Pages\<close>

definition row_intact :: "(string \<Rightarrow> string) \<Rightarrow> audit_db \<Rightarrow> audit_event \<Rightarrow> bool" where
  "row_intact digest db r \<longleftrightarrow> signed digest r \<and>
     predecessor_hash db r (chain_floor db) = (or_none (ae_prev_event_hash r), False)"

definition chain_rows :: "audit_db \<Rightarrow> audit_event list" where
  "chain_rows db = rows_after db (chain_floor db - 1)"

text \<open>Sequence numbers are unique, and no checkpoint covers a row that is still there.\<close>

definition sealed_below :: "audit_db \<Rightarrow> bool" where
  "sealed_below db \<longleftrightarrow> distinct (map ae_seq (ad_events db)) \<and>
     (\<forall>c \<in> set (ad_checkpoints db). \<forall>r \<in> set (chain_rows db). cp_to_seq c < ae_seq r)"

lemma strictly_sorted_rows_after:
  assumes "distinct (map ae_seq (ad_events db))"
  shows "sorted_wrt (<) (map ae_seq (rows_after db s))"
proof -
  have "distinct (map ae_seq (filter (\<lambda>r. ae_seq r > s) (ad_events db)))"
    using assms by (rule distinct_map_filter)
  then have "distinct (map ae_seq (rows_after db s))"
    by (simp add: rows_after_def distinct_map)
  then show ?thesis by (simp add: strict_sorted_iff rows_after_def)
qed

lemma find_unique:
  assumes "distinct (map f xs)" and "x \<in> set xs"
  shows "List.find (\<lambda>y. f y = f x) xs = Some x"
  using assms by (induction xs) (auto simp: image_iff)

lemma find_skip: "List.find P xs = None \<Longrightarrow> List.find P (xs @ ys) = List.find P ys"
  by (induction xs) (auto split: if_splits)

lemma predecessor_in_rows:
  assumes db: "sealed_below db" and s: "chain_floor db - 1 \<le> s"
    and rows: "rows_after db s = pre @ r # r' # post"
  shows "predecessor_hash db r' (chain_floor db) =
    (if ae_seq r' = ae_seq r + 1 then (or_none (ae_event_hash r), False) else (None, True))"
proof -
  have dist: "distinct (map ae_seq (ad_events db))" using db by (simp add: sealed_below_def)
  have sorted: "sorted_wrt (<) (map ae_seq (pre @ r # r' # post))"
    using strictly_sorted_rows_after[OF dist, of s] rows by simp
  have mem: "r \<in> set (ad_events db)" "ae_seq r > s" "r' \<in> set (ad_events db)"
    using set_rows_after[of db s] rows by auto
  have lt: "ae_seq r < ae_seq r'" using sorted by (simp add: sorted_wrt_append)
  have nocp: "cp_to_seq c \<noteq> ae_seq r' - 1" if "c \<in> set (ad_checkpoints db)" for c
  proof -
    have "r \<in> set (chain_rows db)" using mem s by (auto simp: chain_rows_def set_rows_after)
    then have "cp_to_seq c < ae_seq r" using db that by (auto simp: sealed_below_def)
    then show ?thesis using lt by simp
  qed
  have nofind: "List.find (\<lambda>c. cp_to_seq c = ae_seq r' - 1) (ad_checkpoints db) = None"
    using nocp by (auto simp: find_None_iff)
  show ?thesis
  proof (cases "ae_seq r' = ae_seq r + 1")
    case True
    then have "List.find (\<lambda>x. ae_seq x = ae_seq r' - 1) (ad_events db) = Some r"
      using find_unique[OF dist mem(1)] by simp
    then show ?thesis using True lt mem s by (simp add: predecessor_hash_def)
  next
    case False
    have "ae_seq x \<noteq> ae_seq r' - 1" if "x \<in> set (ad_events db)" for x
    proof
      assume eq: "ae_seq x = ae_seq r' - 1"
      then have "ae_seq r < ae_seq x" using lt False by simp
      then have "x \<in> set (pre @ r # r' # post)" using that mem rows set_rows_after[of db s] by force
      with sorted eq \<open>ae_seq r < ae_seq x\<close> show False by (auto simp: sorted_wrt_append)
    qed
    then have "List.find (\<lambda>x. ae_seq x = ae_seq r' - 1) (ad_events db) = None"
      by (auto simp: find_None_iff)
    then show ?thesis using False nofind lt mem s by (simp add: predecessor_hash_def)
  qed
qed

lemma verify_rows_intact:
  assumes "sealed_below db" and "chain_floor db - 1 \<le> s"
    and "rows_after db s = pre @ r # rows @ post"
  shows "verify_rows digest (or_none (ae_event_hash r)) (ae_seq r + 1) rows = [] \<longleftrightarrow>
    (\<forall>x \<in> set rows. row_intact digest db x)"
  using assms(3)
proof (induction rows arbitrary: pre r)
  case (Cons r' rows)
  have "rows_after db s = (pre @ [r]) @ r' # rows @ post" using Cons.prems by simp
  note IH = Cons.IH[OF this]
  have "rows_after db s = pre @ r # r' # (rows @ post)" using Cons.prems by simp
  note pred = predecessor_in_rows[OF assms(1,2) this]
  show ?case by (auto simp: IH pred row_intact_def)
qed simp

lemma page_fields:
  fixes digest db after_seq limit
  defines "p \<equiv> verify_page digest db after_seq limit" and "s \<equiv> max after_seq (chain_floor db - 1)"
  shows "pg_checked p = length (page_rows db s limit)"
    and "pg_exhausted p \<longleftrightarrow> page_rows db s limit = [] \<or> length (page_rows db s limit) < limit"
    and "pg_last_seq p = (if page_rows db s limit = [] then s else ae_seq (last (page_rows db s limit)))"
  unfolding p_def s_def
  by (cases "page_rows db (max after_seq (chain_floor db - 1)) limit"; simp add: verify_page_def Let_def split: prod.splits)+

lemma page_breaks:
  assumes "page_rows db (max after_seq (chain_floor db - 1)) limit = r # rows"
  shows "pg_breaks (verify_page digest db after_seq limit) = [] \<longleftrightarrow>
    row_intact digest db r \<and> verify_rows digest (or_none (ae_event_hash r)) (ae_seq r + 1) rows = []"
  using assms by (auto simp: verify_page_def Let_def row_intact_def split: prod.splits)

lemma verify_page_intact:
  assumes "sealed_below db" and s: "s = max after_seq (chain_floor db - 1)"
  shows "pg_breaks (verify_page digest db after_seq limit) = [] \<longleftrightarrow>
    (\<forall>x \<in> set (page_rows db s limit). row_intact digest db x)"
proof (cases "page_rows db s limit")
  case Nil
  then show ?thesis using s by (simp add: verify_page_def Let_def)
next
  case (Cons r rows)
  have "rows_after db s = [] @ r # rows @ drop limit (rows_after db s)"
    using Cons append_take_drop_id[of limit "rows_after db s"] by (simp add: page_rows_def)
  note rest = verify_rows_intact[OF assms(1) _ this]
  show ?thesis using s Cons page_breaks[of db after_seq limit r rows digest] rest by simp
qed

lemma rows_after_last:
  assumes "distinct (map ae_seq (ad_events db))" and "s \<le> u"
    and "rows_after db s = xs @ x # ys" and "u = ae_seq x"
  shows "rows_after db u = ys"
proof -
  have "rows_after db u = filter (\<lambda>r. ae_seq r > u) (rows_after db s)"
    unfolding rows_after_def filter_sort
    using assms(2) by (simp add: conj_commute) (metis (mono_tags, lifting) filter_cong order_le_less_trans)
  also have "\<dots> = ys"
  proof -
    have "sorted_wrt (<) (map ae_seq (xs @ x # ys))"
      using strictly_sorted_rows_after[OF assms(1), of s] assms(3) by simp
    then have "filter (\<lambda>r. ae_seq r > u) xs = []" "filter (\<lambda>r. ae_seq r > u) ys = ys"
      using assms(4) by (auto simp: sorted_wrt_append filter_empty_conv filter_id_conv)
    then show ?thesis using assms(3,4) by simp
  qed
  finally show ?thesis .
qed

lemma next_page:
  assumes db: "distinct (map ae_seq (ad_events db))" and batch: "batch > 0"
    and more: "\<not> pg_exhausted (verify_page digest db after_seq batch)"
    and s: "s = max after_seq (chain_floor db - 1)"
  defines "u \<equiv> pg_last_seq (verify_page digest db after_seq batch)"
  shows "chain_floor db - 1 \<le> u" and "rows_after db u = drop batch (rows_after db s)"
    and "pg_checked (verify_page digest db after_seq batch) = batch"
    and "batch \<le> length (rows_after db s)"
proof -
  let ?p = "page_rows db s batch"
  have len: "?p \<noteq> []" "length ?p = batch" and u: "u = ae_seq (last ?p)"
    using more by (auto simp: u_def s page_fields page_rows_def)
  have split: "rows_after db s = butlast ?p @ last ?p # drop batch (rows_after db s)"
    using len(1) append_butlast_last_id[of ?p]
    by (metis append.assoc append_Cons append_Nil append_take_drop_id page_rows_def)
  have "last ?p \<in> set (rows_after db s)" by (subst split) simp
  then have "u > s" using u by (simp add: set_rows_after)
  then show "chain_floor db - 1 \<le> u" using s by simp
  show "rows_after db u = drop batch (rows_after db s)"
    using rows_after_last[OF db _ split u] \<open>u > s\<close> by simp
  show "pg_checked (verify_page digest db after_seq batch) = batch"
    using len by (simp add: s page_fields)
  show "batch \<le> length (rows_after db s)" using len by (simp add: page_rows_def)
qed

lemma last_page:
  assumes "pg_exhausted (verify_page digest db after_seq batch)" and "batch > 0"
    and "s = max after_seq (chain_floor db - 1)"
  shows "page_rows db s batch = rows_after db s"
    and "pg_checked (verify_page digest db after_seq batch) = length (rows_after db s)"
  using assms by (auto simp: page_fields page_rows_def)

lemma verify_from_intact:
  assumes "sealed_below db" and "batch > 0"
    and "s = max after_seq (chain_floor db - 1)"
  shows "(snd (snd (verify_from digest db batch after_seq)) = [] \<longleftrightarrow>
      (\<forall>x \<in> set (rows_after db s). row_intact digest db x)) \<and>
    fst (verify_from digest db batch after_seq) = length (rows_after db s)"
  using assms
proof (induction digest db batch after_seq arbitrary: s rule: verify_from.induct)
  case (1 digest db batch after_seq)
  let ?page = "verify_page digest db after_seq batch"
  have dist: "distinct (map ae_seq (ad_events db))" using 1 by (simp add: sealed_below_def)
  note page = verify_page_intact[OF 1(2,4), of digest batch]
  show ?case
  proof (cases "pg_exhausted ?page")
    case True
    then show ?thesis using last_page[OF True 1(3,4)] page
      by (subst (1 2) verify_from.simps) (simp add: Let_def)
  next
    case False
    note np = next_page[OF dist 1(3) False 1(4)]
    have IH: "(snd (snd (verify_from digest db batch (pg_last_seq ?page))) = [] \<longleftrightarrow>
        (\<forall>x \<in> set (rows_after db (pg_last_seq ?page)). row_intact digest db x)) \<and>
      fst (verify_from digest db batch (pg_last_seq ?page)) = length (rows_after db (pg_last_seq ?page))"
      using 1(1)[OF refl False 1(2,3), of "pg_last_seq ?page"] np(1) by simp
    have "set (rows_after db s) = set (page_rows db s batch) \<union> set (drop batch (rows_after db s))"
      by (metis append_take_drop_id page_rows_def set_append)
    then show ?thesis using False IH page np(2,3,4)
      by (subst (1 2) verify_from.simps) (auto simp: Let_def split: prod.splits)
  qed
qed

lemma verify_chain_intact:
  assumes "sealed_below db" and "batch > 0"
  shows "snd (snd (verify_chain digest batch db)) = [] \<longleftrightarrow> (\<forall>x \<in> set (chain_rows db). row_intact digest db x)"
    and "fst (verify_chain digest batch db) = length (chain_rows db)"
  using verify_from_intact[OF assms, of "chain_floor db - 1" "chain_floor db - 1" digest]
  by (simp_all add: verify_chain_def chain_rows_def)

section \<open>Chains the program writes\<close>

text \<open>
  A write takes its place under the lock on the head; its time, taken by the caller before, is assumed
  here not to lie before the times of the rows that are already in the chain.
\<close>

definition empty_audit :: audit_db where
  "empty_audit = \<lparr>ad_events = [], ad_head = None, ad_checkpoints = []\<rparr>"

inductive audit_step :: "(string \<Rightarrow> string) \<Rightarrow> audit_db \<Rightarrow> audit_db \<Rightarrow> bool" for digest where
  write_event:
    "(\<And>e. e \<in> set (ad_events db) \<Longrightarrow> ae_id e \<noteq> ae_id row \<and> ae_created_at e \<le> ae_created_at row)
     \<Longrightarrow> audit_step digest db (snd (link_event digest row db))"
| prune_events: "audit_step digest db (snd (prune_audit_events digest uuid now cutoff batch db))"

inductive audit_reachable :: "(string \<Rightarrow> string) \<Rightarrow> audit_db \<Rightarrow> bool" for digest where
  start: "audit_reachable digest empty_audit"
| step: "audit_reachable digest db \<Longrightarrow> audit_step digest db db' \<Longrightarrow> audit_reachable digest db'"

text \<open>Consecutive rows point to each other's hashes; \<open>h\<close> is the hash before the first.\<close>

fun linked :: "string option \<Rightarrow> audit_event list \<Rightarrow> bool" where
  "linked h [] = True"
| "linked h (e # es) = (or_none (ae_prev_event_hash e) = h \<and> linked (or_none (ae_event_hash e)) es)"

definition tail_hash :: "string option \<Rightarrow> audit_event list \<Rightarrow> string option" where
  "tail_hash h es = (if es = [] then h else or_none (ae_event_hash (last es)))"

lemma linked_append: "linked h (xs @ ys) \<longleftrightarrow> linked h xs \<and> linked (tail_hash h xs) ys"
  by (induction h xs rule: linked.induct) (auto simp: tail_hash_def)

lemma tail_hash_append: "tail_hash h (xs @ ys) = tail_hash (tail_hash h xs) ys"
  by (simp add: tail_hash_def)

definition sealed_seq :: "audit_db \<Rightarrow> int" where
  "sealed_seq db = (if ad_checkpoints db = [] then 0 else cp_to_seq (last (ad_checkpoints db)))"

definition sealed_hash :: "audit_db \<Rightarrow> string option" where
  "sealed_hash db = (if ad_checkpoints db = [] then None else or_none (cp_last_event_hash (last (ad_checkpoints db))))"

text \<open>The rows are numbered without gaps after the last checkpoint, signed and linked, up to the head.\<close>

definition rows_ok :: "(string \<Rightarrow> string) \<Rightarrow> audit_db \<Rightarrow> bool" where
  "rows_ok digest db \<longleftrightarrow>
     map ae_seq (ad_events db) = [sealed_seq db + 1..sealed_seq db + int (length (ad_events db))] \<and>
     sorted (map ae_created_at (ad_events db)) \<and> distinct (map ae_id (ad_events db)) \<and>
     (\<forall>r \<in> set (ad_events db). signed digest r) \<and> linked (sealed_hash db) (ad_events db)"

definition head_ok :: "audit_db \<Rightarrow> bool" where
  "head_ok db \<longleftrightarrow> (case ad_head db of
     None \<Rightarrow> ad_events db = [] \<and> ad_checkpoints db = []
   | Some head \<Rightarrow> ch_seq head = sealed_seq db + int (length (ad_events db)) \<and>
       or_none (ch_head_hash head) = tail_hash (sealed_hash db) (ad_events db) \<and> ch_chain_from_seq head = 1)"

definition checkpoints_ok :: "audit_db \<Rightarrow> bool" where
  "checkpoints_ok db \<longleftrightarrow> sorted_wrt (<) (0 # map cp_to_seq (ad_checkpoints db))"

definition audit_inv :: "(string \<Rightarrow> string) \<Rightarrow> audit_db \<Rightarrow> bool" where
  "audit_inv digest db \<longleftrightarrow> rows_ok digest db \<and> head_ok db \<and> checkpoints_ok db"

lemma or_none_sealed [simp]: "or_none (sealed_hash db) = sealed_hash db"
  by (simp add: sealed_hash_def)

lemma or_none_tail [simp]: "or_none h = h \<Longrightarrow> or_none (tail_hash h es) = tail_hash h es"
  by (simp add: tail_hash_def)

lemma event_payload_unhashed [simp]: "event_payload (r\<lparr>ae_event_hash := h\<rparr>) = event_payload r"
  by (simp add: event_payload_def)

lemma upto_snoc: "0 \<le> n \<Longrightarrow> [a + 1..a + (1 + n)] = [a + 1..a + n] @ [a + (1 + n)]" for a n :: int
  using upto_rec2[of "a + 1" "a + (1 + n)"] by (simp add: algebra_simps)

lemma link_event_inv:
  assumes inv: "audit_inv digest db"
    and row: "\<And>e. e \<in> set (ad_events db) \<Longrightarrow> ae_id e \<noteq> ae_id row \<and> ae_created_at e \<le> ae_created_at row"
  shows "audit_inv digest (snd (link_event digest row db))"
proof -
  define r where "r = fst (link_event digest row db)"
  define db' where "db' = snd (link_event digest row db)"
  have head: "ch_seq (locked_head db) = sealed_seq db + int (length (ad_events db))"
      "or_none (ch_head_hash (locked_head db)) = tail_hash (sealed_hash db) (ad_events db)"
      "ch_chain_from_seq (locked_head db) = 1"
    using inv by (auto simp: audit_inv_def head_ok_def locked_head_def sealed_seq_def sealed_hash_def tail_hash_def
        split: option.splits)
  have db': "ad_events db' = ad_events db @ [r]" "ad_checkpoints db' = ad_checkpoints db"
      "ad_head db' = Some ((locked_head db)\<lparr>ch_seq := ae_seq r, ch_head_hash := ae_event_hash r\<rparr>)"
    by (simp_all add: db'_def r_def link_event_def Let_def)
  have r: "ae_seq r = sealed_seq db + (1 + int (length (ad_events db)))" "ae_id r = ae_id row"
      "ae_created_at r = ae_created_at row" "signed digest r"
      "or_none (ae_prev_event_hash r) = tail_hash (sealed_hash db) (ad_events db)"
    by (simp_all add: r_def link_event_def Let_def head signed_def or_empty_def)
  have sealed: "sealed_seq db' = sealed_seq db" "sealed_hash db' = sealed_hash db"
    by (simp_all add: sealed_seq_def sealed_hash_def db')
  have "rows_ok digest db'"
    using inv upto_snoc[of "int (length (ad_events db))" "sealed_seq db"]
    by (auto simp: rows_ok_def audit_inv_def db' r sealed linked_append sorted_append dest!: row)
  moreover have "head_ok db'" using head r by (simp add: head_ok_def db' sealed tail_hash_def)
  moreover have "checkpoints_ok db'" using inv by (simp add: checkpoints_ok_def audit_inv_def db')
  ultimately show ?thesis by (simp add: audit_inv_def db'_def)
qed

lemma checkpoint_bounds:
  assumes "checkpoints_ok db" and "c \<in> set (ad_checkpoints db)"
  shows "0 < cp_to_seq c \<and> cp_to_seq c \<le> sealed_seq db"
proof (cases "ad_checkpoints db" rule: rev_cases)
  case (snoc cs c')
  then have "\<forall>x \<in> set cs. 0 < cp_to_seq x \<and> cp_to_seq x < cp_to_seq c'" "0 < cp_to_seq c'"
    using assms(1) by (auto simp: checkpoints_ok_def sorted_wrt_append)
  then show ?thesis using assms(2) snoc by (auto simp: sealed_seq_def)
qed (use assms in simp)

lemma sealed_seq_nonneg: "checkpoints_ok db \<Longrightarrow> 0 \<le> sealed_seq db"
  using checkpoint_bounds[of db "last (ad_checkpoints db)"] by (auto simp: sealed_seq_def)

text \<open>A prune takes away a prefix of the rows, and the new checkpoint ends where that prefix ends.\<close>

lemma filter_before_cutoff:
  "sorted (map f xs) \<Longrightarrow> filter (\<lambda>r. f r < (c :: int)) xs = takeWhile (\<lambda>r. f r < c) xs"
proof (induction xs)
  case (Cons x xs)
  then have "takeWhile (\<lambda>r. f r < c) xs = []" if "\<not> f x < c" using that by (cases xs) auto
  then show ?case using Cons by simp
qed simp

lemma take_takeWhile: "\<exists>k \<le> length xs. take n (takeWhile P xs) = take k xs"
  by (rule exI[of _ "min n (length (takeWhile P xs))"])
     (metis (no_types) length_takeWhile_le min.coboundedI2 min_def take_all nat_le_linear takeWhile_eq_take take_take)

lemma filter_not_in_prefix:
  "distinct (map f xs) \<Longrightarrow> filter (\<lambda>r. f r \<notin> set (map f (take k xs))) xs = drop k xs"
proof (induction xs arbitrary: k)
  case (Cons x xs)
  show ?case
  proof (cases k)
    case (Suc n)
    have "filter (\<lambda>r. f r \<notin> set (map f (take k (x # xs)))) (x # xs) =
        filter (\<lambda>r. f r \<notin> set (map f (take n xs))) xs"
      using Cons.prems Suc by (auto intro!: filter_cong simp: image_iff)
    then show ?thesis using Cons Suc by simp
  qed simp
qed simp

lemma prune_drops_prefix:
  assumes inv: "rows_ok digest db"
  obtains "snd (prune_audit_events digest uuid now cutoff batch db) = db"
  | k cp where "0 < k" "k \<le> length (ad_events db)"
      "snd (prune_audit_events digest uuid now cutoff batch db) =
        db\<lparr>ad_events := drop k (ad_events db), ad_checkpoints := ad_checkpoints db @ [cp]\<rparr>"
      "cp_to_seq cp = sealed_seq db + int k" "or_none (cp_last_event_hash cp) = tail_hash (sealed_hash db) (take k (ad_events db))"
proof -
  let ?es = "ad_events db"
  let ?rows = "take batch (sort_key ae_seq (filter (\<lambda>r. ae_created_at r < cutoff) ?es))"
  have seqs: "map ae_seq ?es = [sealed_seq db + 1..sealed_seq db + int (length ?es)]"
    and times: "sorted (map ae_created_at ?es)" and ids: "distinct (map ae_id ?es)"
    using inv by (auto simp: rows_ok_def)
  have "sorted (map ae_seq ?es)" by (simp add: seqs)
  then have "sort_key ae_seq (filter (\<lambda>r. ae_created_at r < cutoff) ?es) = filter (\<lambda>r. ae_created_at r < cutoff) ?es"
    by (simp add: sort_key_id_if_sorted sorted_filter)
  then obtain k where k: "k \<le> length ?es" "?rows = take k ?es"
    using take_takeWhile[of ?es batch "\<lambda>r. ae_created_at r < cutoff"] times by (auto simp: filter_before_cutoff)
  show ?thesis
  proof (cases "?rows = []")
    case True
    then show ?thesis using that(1) by (simp add: prune_audit_events_def)
  next
    case False
    then have k0: "0 < k" using k by auto
    obtain cp where cp: "snd (prune_audit_events digest uuid now cutoff batch db) =
        db\<lparr>ad_events := drop k ?es, ad_checkpoints := ad_checkpoints db @ [cp]\<rparr>"
      "cp_to_seq cp = ae_seq (last (take k ?es))" "cp_last_event_hash cp = or_none (ae_event_hash (last (take k ?es)))"
    proof
      show "snd (prune_audit_events digest uuid now cutoff batch db) =
          db\<lparr>ad_events := drop k ?es, ad_checkpoints := ad_checkpoints db @ [fst (seal_pruned_range digest uuid now
            (ae_seq (hd (take k ?es))) (ae_seq (last (take k ?es))) (int (length (take k ?es)))
            (or_none (ae_event_hash (last (take k ?es)))) db)]\<rparr>"
        using False unfolding prune_audit_events_def Let_def k(2) filter_not_in_prefix[OF ids]
        by (simp add: seal_pruned_range_def Let_def)
    qed (simp_all add: seal_pruned_range_def Let_def)
    have "last (take k ?es) = ?es ! (k - 1)" using k0 k(1) by (subst last_conv_nth) (auto simp: min_def)
    moreover have "ae_seq (?es ! (k - 1)) = sealed_seq db + int k"
      using arg_cong[OF seqs, of "\<lambda>xs. xs ! (k - 1)"] k0 k(1) by (simp add: nth_upto)
    ultimately show ?thesis using cp(2,3) k0 k(1) by (intro that(2)[OF k0 k(1) cp(1)]) (auto simp: tail_hash_def)
  qed
qed

lemma rows_ok_drop:
  assumes rows: "rows_ok digest db" and k: "k \<le> length (ad_events db)"
    and db': "ad_events db' = drop k (ad_events db)" "sealed_seq db' = sealed_seq db + int k"
      "sealed_hash db' = tail_hash (sealed_hash db) (take k (ad_events db))"
  shows "rows_ok digest db'"
proof -
  have "map ae_seq (ad_events db') = drop k [sealed_seq db + 1..sealed_seq db + int (length (ad_events db))]"
    using rows by (simp add: db' rows_ok_def flip: drop_map)
  also have "\<dots> = [sealed_seq db' + 1..sealed_seq db' + int (length (ad_events db'))]"
    using k by (intro nth_equalityI) (auto simp: db' nth_upto)
  finally have seqs: "map ae_seq (ad_events db') = [sealed_seq db' + 1..sealed_seq db' + int (length (ad_events db'))]" .
  have "linked (sealed_hash db) (take k (ad_events db) @ drop k (ad_events db))"
    using rows by (simp add: rows_ok_def)
  then show ?thesis using rows seqs unfolding rows_ok_def linked_append
    by (simp add: db') (auto simp: distinct_map sorted_wrt_drop dest: in_set_dropD simp flip: drop_map)
qed

lemma prune_inv:
  assumes inv: "audit_inv digest db"
  shows "audit_inv digest (snd (prune_audit_events digest uuid now cutoff batch db))"
proof -
  have rows: "rows_ok digest db" using inv by (simp add: audit_inv_def)
  then show ?thesis
  proof (cases rule: prune_drops_prefix[of _ _ uuid now cutoff batch])
    case (2 k cp)
    define db' where "db' = db\<lparr>ad_events := drop k (ad_events db), ad_checkpoints := ad_checkpoints db @ [cp]\<rparr>"
    have fields': "ad_events db' = drop k (ad_events db)" "ad_head db' = ad_head db"
        "ad_checkpoints db' = ad_checkpoints db @ [cp]"
      by (simp_all add: db'_def)
    have sealed: "sealed_seq db' = sealed_seq db + int k"
        "sealed_hash db' = tail_hash (sealed_hash db) (take k (ad_events db))"
      using 2 by (simp_all add: db'_def sealed_seq_def sealed_hash_def)
    have "rows_ok digest db'" using rows_ok_drop[OF rows 2(2) fields'(1) sealed] .
    moreover have "head_ok db'" using inv 2 tail_hash_append[of "sealed_hash db" "take k (ad_events db)" "drop k (ad_events db)"]
      by (auto simp: head_ok_def audit_inv_def sealed fields' split: option.splits)
    moreover have "checkpoints_ok db'" 
    proof -
      have ok: "checkpoints_ok db" using inv by (simp add: audit_inv_def)
      have "0 < cp_to_seq cp" "\<forall>c \<in> set (ad_checkpoints db). cp_to_seq c < cp_to_seq cp"
        using checkpoint_bounds[OF ok] sealed_seq_nonneg[OF ok] 2 by fastforce+
      then show ?thesis using ok by (simp add: checkpoints_ok_def fields' sorted_wrt_append)
    qed
    ultimately show ?thesis using 2 by (simp add: audit_inv_def db'_def)
  qed (use inv in simp)
qed

lemma audit_reachable_inv: "audit_reachable digest db \<Longrightarrow> audit_inv digest db"
proof (induction rule: audit_reachable.induct)
  case start
  show ?case by (simp add: audit_inv_def rows_ok_def head_ok_def checkpoints_ok_def empty_audit_def sealed_seq_def)
next
  case (step db db')
  from step(2,3) show ?case by (cases rule: audit_step.cases) (auto intro: link_event_inv prune_inv)
qed

text \<open>Every row of such a chain is intact. The head does not matter for it, so a cut chain is intact, too.\<close>

definition chain_ok :: "(string \<Rightarrow> string) \<Rightarrow> audit_db \<Rightarrow> bool" where
  "chain_ok digest db \<longleftrightarrow> rows_ok digest db \<and> checkpoints_ok db \<and> chain_floor db = 1"

lemma audit_inv_chain_ok: "audit_inv digest db \<Longrightarrow> chain_ok digest db"
  by (auto simp: audit_inv_def head_ok_def chain_floor_def int_or_one_def chain_ok_def split: option.splits)

lemma chain_ok_take: "chain_ok digest db \<Longrightarrow> chain_ok digest (db\<lparr>ad_events := take n (ad_events db)\<rparr>)"
proof -
  assume ok: "chain_ok digest db"
  define db' where "db' = db\<lparr>ad_events := take n (ad_events db)\<rparr>"
  have fields': "ad_events db' = take n (ad_events db)" "ad_checkpoints db' = ad_checkpoints db"
      "ad_head db' = ad_head db"
    by (simp_all add: db'_def)
  have "sealed_seq db' = sealed_seq db" "sealed_hash db' = sealed_hash db"
    by (simp_all add: sealed_seq_def sealed_hash_def fields')
  moreover have "map ae_seq (take n (ad_events db)) =
      [sealed_seq db + 1..sealed_seq db + int (length (take n (ad_events db)))]"
    using ok unfolding chain_ok_def rows_ok_def take_map[symmetric]
    by (intro nth_equalityI) (auto simp: nth_upto)
  moreover have "linked (sealed_hash db) (take n (ad_events db) @ drop n (ad_events db))"
    using ok by (simp add: chain_ok_def rows_ok_def)
  ultimately have "rows_ok digest db'" using ok unfolding rows_ok_def chain_ok_def linked_append
    by (simp add: fields') (auto simp: distinct_map sorted_wrt_take inj_on_def dest: in_set_takeD simp flip: take_map)
  then show ?thesis using ok
    by (simp add: chain_ok_def checkpoints_ok_def chain_floor_def db'_def)
qed

lemma chain_ok_bounds:
  assumes "chain_ok digest db" and "r \<in> set (ad_events db)"
  shows "0 \<le> sealed_seq db" and "sealed_seq db < ae_seq r"
proof -
  show "0 \<le> sealed_seq db" using assms sealed_seq_nonneg by (simp add: chain_ok_def)
  have "set (map ae_seq (ad_events db)) = {sealed_seq db + 1..sealed_seq db + int (length (ad_events db))}"
    using assms(1) by (simp add: chain_ok_def rows_ok_def del: set_map)
  moreover have "ae_seq r \<in> set (map ae_seq (ad_events db))" using assms(2) by simp
  ultimately show "sealed_seq db < ae_seq r" by (simp del: set_map)
qed

lemma chain_ok_rows:
  assumes "chain_ok digest db"
  shows "chain_rows db = ad_events db" and "sealed_below db"
proof -
  have "filter (\<lambda>r. ae_seq r > 0) (ad_events db) = ad_events db"
    using chain_ok_bounds[OF assms] by (fastforce simp: filter_id_conv)
  moreover have "sorted (map ae_seq (ad_events db))" "distinct (map ae_seq (ad_events db))"
    using assms by (simp_all add: chain_ok_def rows_ok_def)
  ultimately show rows: "chain_rows db = ad_events db"
    using assms by (simp add: chain_rows_def rows_after_def chain_ok_def sort_key_id_if_sorted)
  have "cp_to_seq c < ae_seq r" if "c \<in> set (ad_checkpoints db)" "r \<in> set (ad_events db)" for c r
    using checkpoint_bounds[OF _ that(1)] chain_ok_bounds(2)[OF assms that(2)] assms by (auto simp: chain_ok_def)
  then show "sealed_below db"
    using \<open>distinct _\<close> by (simp add: sealed_below_def rows)
qed

lemma chain_ok_split:
  assumes ok: "chain_ok digest db" and events: "ad_events db = pre @ r # post"
  shows "ae_seq r = sealed_seq db + int (length pre) + 1"
    and "or_none (ae_prev_event_hash r) = tail_hash (sealed_hash db) pre"
    and "linked (or_none (ae_event_hash r)) post" and "signed digest r"
proof -
  have "map ae_seq (pre @ r # post) ! length pre = [sealed_seq db + 1..sealed_seq db + int (length (pre @ r # post))] ! length pre"
    using ok events by (simp add: chain_ok_def rows_ok_def)
  then show "ae_seq r = sealed_seq db + int (length pre) + 1" by (simp add: nth_append nth_upto)
  have "linked (sealed_hash db) (pre @ r # post)" using ok events by (simp add: chain_ok_def rows_ok_def)
  then show "or_none (ae_prev_event_hash r) = tail_hash (sealed_hash db) pre"
      "linked (or_none (ae_event_hash r)) post"
    by (simp_all add: linked_append)
  show "signed digest r" using ok events by (simp add: chain_ok_def rows_ok_def)
qed

text \<open>The predecessor of a row depends on the rows before it and on the checkpoints only.\<close>

lemma chain_ok_predecessor:
  assumes ok: "chain_ok digest db" and events: "ad_events db = pre @ r # post"
    and db': "ad_events db' = pre @ r' # post'" "ad_checkpoints db' = ad_checkpoints db"
      "ae_seq r' = ae_seq r" "\<forall>x \<in> set post'. ae_seq r < ae_seq x"
  shows "predecessor_hash db' r' 1 = (or_none (ae_prev_event_hash r), False)"
proof (cases pre rule: rev_cases)
  case Nil
  note seq = chain_ok_split(1,2)[OF ok events, unfolded Nil]
  have none: "List.find (\<lambda>x. ae_seq x = ae_seq r - 1) (ad_events db') = None"
    using db' Nil by (force simp: find_None_iff)
  show ?thesis
  proof (cases "ad_checkpoints db" rule: rev_cases)
    case Nil
    then show ?thesis using seq db'(3) by (simp add: predecessor_hash_def sealed_seq_def sealed_hash_def tail_hash_def)
  next
    case (snoc cs c)
    have ok': "checkpoints_ok db" using ok by (simp add: chain_ok_def)
    have "distinct (map cp_to_seq (ad_checkpoints db))"
      using ok' by (auto simp: checkpoints_ok_def strict_sorted_iff)
    from find_unique[OF this, of c] have "List.find (\<lambda>c. cp_to_seq c = ae_seq r - 1) (ad_checkpoints db) = Some c"
      using seq snoc by (simp add: sealed_seq_def)
    moreover have "\<not> ae_seq r \<le> 1" using seq snoc checkpoint_bounds[OF ok', of c] by (simp add: sealed_seq_def)
    ultimately show ?thesis using seq snoc none db'
      by (simp add: predecessor_hash_def sealed_hash_def tail_hash_def)
  qed
next
  case (snoc pre' p)
  have events': "ad_events db = pre' @ p # r # post" using events snoc by simp
  have p: "ae_seq p = ae_seq r - 1" "ae_seq r \<ge> 2"
    using chain_ok_split(1)[OF ok events] chain_ok_split(1)[OF ok events'] chain_ok_bounds(1)[OF ok, of r] events snoc
    by simp_all
  have "\<forall>x \<in> set pre'. ae_seq x < ae_seq p"
  proof
    fix x assume "x \<in> set pre'"
    then obtain us vs where "pre' = us @ x # vs" by (meson split_list)
    then have "ad_events db = us @ x # (vs @ p # r # post)" using events' by simp
    from chain_ok_split(1)[OF ok this] chain_ok_split(1)[OF ok events'] \<open>pre' = us @ x # vs\<close>
    show "ae_seq x < ae_seq p" by simp
  qed
  then have "List.find (\<lambda>x. ae_seq x = ae_seq p) pre' = None" by (auto simp: find_None_iff)
  then have "List.find (\<lambda>x. ae_seq x = ae_seq r - 1) (ad_events db') = Some p"
    using db'(1) snoc p(1) by (simp add: find_skip)
  then show ?thesis using chain_ok_split(2)[OF ok events] snoc p(2) db'(3)
    by (simp add: predecessor_hash_def tail_hash_def)
qed

lemma chain_ok_intact:
  assumes "chain_ok digest db" and "r \<in> set (ad_events db)"
  shows "row_intact digest db r"
proof -
  obtain pre post where events: "ad_events db = pre @ r # post" using assms(2) by (meson split_list)
  have "\<forall>x \<in> set post. ae_seq r < ae_seq x"
  proof
    fix x assume "x \<in> set post"
    then obtain us vs where "post = us @ x # vs" by (meson split_list)
    then have "ad_events db = (pre @ r # us) @ x # vs" using events by simp
    from chain_ok_split(1)[OF assms(1) this] chain_ok_split(1)[OF assms(1) events]
    show "ae_seq r < ae_seq x" by simp
  qed
  then show ?thesis using chain_ok_predecessor[OF assms(1) events, of db r post] chain_ok_split(4)[OF assms(1) events] assms
    by (simp add: row_intact_def events chain_ok_def)
qed

lemma chain_ok_verifies:
  assumes "chain_ok digest db" and "batch > 0"
  shows "fst (verify_chain digest batch db) = length (ad_events db)"
    and "snd (snd (verify_chain digest batch db)) = []"
  using verify_chain_intact[OF chain_ok_rows(2)[OF assms(1)] assms(2), of digest] chain_ok_intact[OF assms(1)]
  by (auto simp: chain_ok_rows(1)[OF assms(1)])

section \<open>Tampering\<close>

lemma replaced_row:
  assumes ok: "chain_ok digest db" and events: "ad_events db = pre @ r # post"
    and seq: "ae_seq r' = ae_seq r" and db': "db' = db\<lparr>ad_events := pre @ r' # post\<rparr>"
  shows "chain_rows db' = ad_events db'" and "sealed_below db'"
proof -
  have map: "map ae_seq (ad_events db') = map ae_seq (ad_events db)" using events seq db' by simp
  then have sorted: "sorted (map ae_seq (ad_events db'))" "distinct (map ae_seq (ad_events db'))"
    using ok by (simp_all add: chain_ok_def rows_ok_def)
  have pos: "0 < ae_seq x" if "x \<in> set (ad_events db')" for x
  proof -
    have "ae_seq x \<in> set (map ae_seq (ad_events db'))" using that by simp
    then show ?thesis unfolding map using chain_ok_bounds[OF ok] by fastforce
  qed
  have "chain_floor db' = 1" using ok db' by (simp add: chain_ok_def chain_floor_def)
  moreover have "filter (\<lambda>r. ae_seq r > 0) (ad_events db') = ad_events db'" using pos by (simp add: filter_id_conv)
  ultimately show rows: "chain_rows db' = ad_events db'"
    using sorted by (simp add: chain_rows_def rows_after_def sort_key_id_if_sorted)
  have "cp_to_seq c < ae_seq x" if "c \<in> set (ad_checkpoints db')" "x \<in> set (ad_events db')" for c x
  proof -
    have "ae_seq x \<in> set (map ae_seq (ad_events db))" using that(2) map by (metis in_set_conv_nth length_map nth_map nth_mem)
    then obtain y where y: "y \<in> set (ad_events db)" "ae_seq y = ae_seq x" by auto
    have "cp_to_seq c < ae_seq y" using chain_ok_rows[OF ok] y(1) that(1) db' by (simp add: sealed_below_def)
    then show ?thesis using y(2) by simp
  qed
  then show "sealed_below db'" using sorted rows by (simp add: sealed_below_def)
qed

lemma chain_ok_later:
  assumes ok: "chain_ok digest db" and events: "ad_events db = pre @ r # post" and x: "x \<in> set post"
  shows "ae_seq r < ae_seq x"
proof -
  obtain us vs where "post = us @ x # vs" using x by (meson split_list)
  then have "ad_events db = (pre @ r # us) @ x # vs" using events by simp
  from chain_ok_split(1)[OF ok this] chain_ok_split(1)[OF ok events] show ?thesis by simp
qed

lemma undetected_edit:
  assumes ok: "chain_ok digest db" and events: "ad_events db = pre @ r # n # post"
    and seq: "ae_seq r' = ae_seq r" and db': "db' = db\<lparr>ad_events := pre @ r' # n # post\<rparr>" and batch: "batch > 0"
    and quiet: "snd (snd (verify_chain digest batch db')) = []"
  shows "or_none (ae_prev_event_hash r') = or_none (ae_prev_event_hash r)" (is ?prev)
    and "sign_event digest (event_payload r') (or_none (ae_prev_event_hash r')) =
      sign_event digest (event_payload r) (or_none (ae_prev_event_hash r))" (is ?hash)
proof -
  have floor: "chain_floor db' = 1" using ok db' by (simp add: chain_ok_def chain_floor_def)
  note rows = replaced_row[OF ok events seq db']
  have intact: "row_intact digest db' r'" "row_intact digest db' n"
    using verify_chain_intact(1)[OF rows(2) batch, of digest] quiet rows(1) db' by auto
  have later: "\<forall>x \<in> set (n # post). ae_seq r < ae_seq x" using chain_ok_later[OF ok events] by simp
  from chain_ok_predecessor[OF ok events, of db' r' "n # post"]
  show prev: ?prev using intact(1) floor db' seq later by (simp add: row_intact_def)
  have "rows_after db' 0 = pre @ r' # n # post" using rows(1) db' floor by (simp add: chain_rows_def)
  from predecessor_in_rows[OF rows(2) _ this] have "or_none (ae_event_hash r') = or_none (ae_prev_event_hash n)"
    using intact(2) floor by (auto simp: row_intact_def split: if_splits)
  also have "\<dots> = or_none (ae_event_hash r)" using chain_ok_split(3)[OF ok events] by simp
  finally have "or_empty (ae_event_hash r') = or_empty (ae_event_hash r)" by (metis or_empty_or_none)
  then show ?hash using intact(1) chain_ok_split(4)[OF ok events] by (simp add: row_intact_def signed_def)
qed

lemma removed_row_orphans:
  assumes ok: "chain_ok digest db" and events: "ad_events db = pre @ r # n # post"
    and db': "db' = db\<lparr>ad_events := pre @ n # post\<rparr>" and batch: "batch > 0"
  shows "snd (snd (verify_chain digest batch db')) \<noteq> []"
proof -
  have floor: "chain_floor db' = 1" using ok db' by (simp add: chain_ok_def chain_floor_def)
  have sub: "set (ad_events db') \<subseteq> set (ad_events db)" using db' events by auto
  have seqs: "map ae_seq (ad_events db) = map ae_seq pre @ ae_seq r # map ae_seq (n # post)" using events by simp
  moreover have ok_seqs: "sorted (map ae_seq (ad_events db))" "distinct (map ae_seq (ad_events db))"
    using ok by (simp_all add: chain_ok_def rows_ok_def)
  ultimately have sorted: "sorted (map ae_seq (ad_events db'))" "distinct (map ae_seq (ad_events db'))"
    using db' by (auto simp: sorted_append)
  have "filter (\<lambda>r. ae_seq r > 0) (ad_events db') = ad_events db'"
    using chain_ok_bounds[OF ok] sub by (fastforce simp: filter_id_conv)
  then have rows: "chain_rows db' = ad_events db'"
    using floor sorted by (simp add: chain_rows_def rows_after_def sort_key_id_if_sorted)
  have sealed: "sealed_below db'"
    using chain_ok_rows[OF ok] sub db' rows sorted(2) by (auto simp: sealed_below_def)
  have n: "ae_seq n = ae_seq r + 1" "ae_seq r > 0"
    using chain_ok_split(1)[OF ok, of "pre @ [r]" n post] chain_ok_split(1)[OF ok events] events
      chain_ok_bounds[OF ok, of r] by simp_all
  have "ae_seq x \<noteq> ae_seq n - 1" if "x \<in> set (ad_events db')" for x
    using that n ok_seqs(2) events db' by (auto simp: image_iff)
  then have "List.find (\<lambda>x. ae_seq x = ae_seq n - 1) (ad_events db') = None" by (auto simp: find_None_iff)
  moreover have "List.find (\<lambda>c. cp_to_seq c = ae_seq n - 1) (ad_checkpoints db') = None"
    using chain_ok_rows[OF ok] events n db' by (force simp: find_None_iff sealed_below_def)
  ultimately have "\<not> row_intact digest db' n" using n floor by (simp add: row_intact_def predecessor_hash_def)
  then show ?thesis using verify_chain_intact(1)[OF sealed batch, of digest] rows db' by auto
qed

text \<open>
  The verifier reads the end and the last hash of the checkpoint before the first row, nothing else: a
  checkpoint that covers the rows removed hides their removal, whatever its own hash is.
\<close>

lemma forged_checkpoint:
  assumes ok: "chain_ok digest db" and events: "ad_events db = pre @ r # post" and batch: "batch > 0"
    and c: "cp_to_seq c = ae_seq r" "cp_last_event_hash c = ae_event_hash r"
  shows "snd (snd (verify_chain digest batch (db\<lparr>ad_events := post, ad_checkpoints := [c]\<rparr>))) = []"
proof -
  define db' where "db' = db\<lparr>ad_events := post, ad_checkpoints := [c]\<rparr>"
  have db': "ad_events db' = drop (Suc (length pre)) (ad_events db)" "ad_checkpoints db' = [c]" "ad_head db' = ad_head db"
    by (simp_all add: db'_def events)
  have seq: "ae_seq r = sealed_seq db + int (Suc (length pre))" using chain_ok_split(1)[OF ok events] by simp
  have "take (Suc (length pre)) (ad_events db) = pre @ [r]" using events by simp
  then have sealed: "sealed_seq db' = sealed_seq db + int (Suc (length pre))"
      "sealed_hash db' = tail_hash (sealed_hash db) (take (Suc (length pre)) (ad_events db))"
    using seq c by (simp_all add: sealed_seq_def[of db'] sealed_hash_def[of db'] db' tail_hash_def)
  have rows: "rows_ok digest db" "Suc (length pre) \<le> length (ad_events db)" using ok events by (simp_all add: chain_ok_def)
  have "chain_floor db' = chain_floor db" by (simp add: chain_floor_def db')
  moreover have "checkpoints_ok db'" using chain_ok_bounds[OF ok, of r] events c by (simp add: checkpoints_ok_def db')
  ultimately have "chain_ok digest db'"
    using rows_ok_drop[OF rows db'(1) sealed] ok by (simp add: chain_ok_def)
  then show ?thesis using chain_ok_verifies(2)[OF _ batch] by (simp add: db'_def)
qed

section \<open>Properties\<close>

definition sample_event :: "string \<Rightarrow> int \<Rightarrow> audit_event" where
  "sample_event uuid t = \<lparr>ae_id = uuid, ae_seq = 0, ae_operation_id = None, ae_created_at = t, ae_event_type = ''login'',
     ae_action = ''login'', ae_outcome = ''success'', ae_actor_user_id = Some 1, ae_actor_username = None,
     ae_resource_type = ''portal'', ae_resource_id = None, ae_request_id = None, ae_trace_id = None, ae_ip = None,
     ae_user_agent = None, ae_method = None, ae_path = None, ae_reason = None, ae_error = None, ae_before = PDict [],
     ae_after = PDict [], ae_changed_fields = [], ae_context = PDict [], ae_prev_event_hash = None,
     ae_event_hash = None, ae_schema_version = 1\<rparr>"

lemma sample_event_fields [simp]: "ae_id (sample_event u t) = u" "ae_created_at (sample_event u t) = t"
  by (simp_all add: sample_event_def)

definition written :: "(string \<Rightarrow> string) \<Rightarrow> audit_event list \<Rightarrow> audit_db" where
  "written digest rows = fold (\<lambda>row db. snd (link_event digest row db)) rows empty_audit"

lemma written_snoc: "written digest (rows @ [row]) = snd (link_event digest row (written digest rows))"
  by (simp add: written_def)

lemma written_rows:
  "map ae_id (ad_events (written digest rows)) = map ae_id rows \<and>
   map ae_created_at (ad_events (written digest rows)) = map ae_created_at rows \<and>
   map ae_seq (ad_events (written digest rows)) = [1..int (length rows)] \<and>
   ch_seq (locked_head (written digest rows)) = int (length rows) \<and>
   ch_chain_from_seq (locked_head (written digest rows)) = 1 \<and>
   ad_checkpoints (written digest rows) = []"
proof (induction rows rule: rev_induct)
  case Nil
  show ?case by (simp add: written_def empty_audit_def locked_head_def)
next
  case (snoc row rows)
  then show ?case using upto_snoc[of "int (length rows)" 0]
    by (simp add: written_snoc link_event_def Let_def) (simp add: locked_head_def)
qed

lemma written_reachable:
  assumes "sorted (map ae_created_at rows)" and "distinct (map ae_id rows)"
  shows "audit_reachable digest (written digest rows)"
  using assms
proof (induction rows rule: rev_induct)
  case Nil
  show ?case by (simp add: written_def audit_reachable.start)
next
  case (snoc row rows)
  have "ae_id e \<noteq> ae_id row \<and> ae_created_at e \<le> ae_created_at row" if e: "e \<in> set (ad_events (written digest rows))" for e
  proof -
    have "ae_id e \<in> set (map ae_id (ad_events (written digest rows)))"
        "ae_created_at e \<in> set (map ae_created_at (ad_events (written digest rows)))" using e by simp_all
    then show ?thesis using snoc.prems unfolding written_rows[THEN conjunct1] written_rows[THEN conjunct2, THEN conjunct1]
      by (auto simp: sorted_append)
  qed
  note step = audit_step.write_event[of "written digest rows" row digest, OF this]
  have "audit_reachable digest (written digest rows)" using snoc by (simp add: sorted_append)
  from audit_reachable.step[OF this step] show ?case by (simp add: written_snoc)
qed

definition sample_chain :: "nat \<Rightarrow> audit_db" where
  "sample_chain n = written (\<lambda>_. ''d1'') (take n [sample_event ''a'' 1, sample_event ''b'' 2, sample_event ''c'' 3])"

lemma sample_chain_reachable: "audit_reachable (\<lambda>_. ''d1'') (sample_chain n)"
proof -
  let ?rows = "[sample_event ''a'' 1, sample_event ''b'' 2, sample_event ''c'' 3]"
  have "sorted (take n (map ae_created_at ?rows))" by (rule sorted_wrt_take) simp
  moreover have "distinct (take n (map ae_id ?rows))" by (rule distinct_take) simp
  ultimately show ?thesis unfolding sample_chain_def take_map by (rule written_reachable)
qed







text \<open>The newest rows can be removed without a report: the head is never compared with the last row.\<close>

theorem cut_chain_not_reported:
  assumes "audit_reachable digest db" and "batch > 0"
  shows "snd (snd (verify_chain digest batch (db\<lparr>ad_events := take n (ad_events db)\<rparr>))) = []"
  using chain_ok_verifies(2)[OF chain_ok_take[OF audit_inv_chain_ok[OF audit_reachable_inv[OF assms(1)]]] assms(2)] .

theorem cut_chain_not_reported_witness:
  "snd (snd (verify_chain (\<lambda>_. ''d1'') 100 ((sample_chain 2)\<lparr>ad_events := take 1 (ad_events (sample_chain 2))\<rparr>))) = []"
  by (rule cut_chain_not_reported[OF sample_chain_reachable]) simp

text \<open>C32: The oldest rows can be removed without a report by anyone who adds a checkpoint that ends with them:
  the checkpoint's own hash is never checked, and no older checkpoint has to be kept.
\<close>

theorem unsigned_checkpoint_hides_removal:
  assumes "audit_reachable digest db" and "ad_events db = pre @ r # post" and "batch > 0"
    and "cp_to_seq c = ae_seq r" and "cp_last_event_hash c = ae_event_hash r"
  shows "snd (snd (verify_chain digest batch (db\<lparr>ad_events := post, ad_checkpoints := [c]\<rparr>))) = []"
  using forged_checkpoint[OF audit_inv_chain_ok[OF audit_reachable_inv[OF assms(1)]] assms(2-5)] .

theorem unsigned_checkpoint_hides_removal_witness:
  "\<exists>r n. ad_events (sample_chain 2) = [] @ r # [n] \<and>
   snd (snd (verify_chain (\<lambda>_. ''d1'') 100 ((sample_chain 2)\<lparr>ad_events := [n], ad_checkpoints :=
     [\<lparr>cp_id = ''x'', cp_created_at = 0, cp_from_seq = 1, cp_to_seq = ae_seq r, cp_pruned_count = 1,
       cp_last_event_hash = ae_event_hash r, cp_prev_checkpoint_hash = None, cp_checkpoint_hash = ''forged''\<rparr>]\<rparr>))) = []"
proof -
  obtain r n where rows: "ad_events (sample_chain 2) = [] @ r # [n]"
    by (simp add: sample_chain_def written_def link_event_def Let_def empty_audit_def)
  let ?c = "\<lparr>cp_id = ''x'', cp_created_at = 0, cp_from_seq = 1, cp_to_seq = ae_seq r, cp_pruned_count = 1,
    cp_last_event_hash = ae_event_hash r, cp_prev_checkpoint_hash = None, cp_checkpoint_hash = ''forged''\<rparr>"
  have "snd (snd (verify_chain (\<lambda>_. ''d1'') 100 ((sample_chain 2)\<lparr>ad_events := [n], ad_checkpoints := [?c]\<rparr>))) = []"
    by (rule unsigned_checkpoint_hides_removal[OF sample_chain_reachable rows]) simp_all
  with rows show ?thesis by blast
qed

text \<open>Three writes; the second took its time before the first and its place after it.\<close>

definition overtaken :: "(string \<Rightarrow> string) \<Rightarrow> audit_db" where
  "overtaken digest = snd (prune_audit_events digest ''k'' 9 2 5000
     (written digest [sample_event ''a'' 2, sample_event ''b'' 1, sample_event ''c'' 3]))"

lemma three_rows:
  assumes "map f xs = [a, b, c]"
  obtains x y z where "xs = [x, y, z]" "f x = a" "f y = b" "f z = c"
  using assms by (auto simp: map_eq_Cons_conv)

lemma overtaken_rows:
  obtains x z where "ad_events (overtaken digest) = [x, z]" and "ae_seq x = 1" and "ae_seq z = 3"
    and "chain_floor (overtaken digest) = 1"
proof -
  let ?rows = "[sample_event ''a'' 2, sample_event ''b'' 1, sample_event ''c'' 3]"
  let ?w = "written digest ?rows"
  have ids: "map ae_id (ad_events ?w) = [''a'', ''b'', ''c'']" using written_rows[of digest ?rows] by simp
  then obtain x y z where xyz: "ad_events ?w = [x, y, z]" by (rule three_rows)
  have fields: "ae_id x = ''a''" "ae_id y = ''b''" "ae_id z = ''c''"
      "ae_created_at x = 2" "ae_created_at y = 1" "ae_created_at z = 3" "ae_seq x = 1" "ae_seq z = 3"
    using written_rows[of digest ?rows] by (simp_all add: xyz upto.simps)
  have head: "ad_head ?w \<noteq> None \<longrightarrow> ch_chain_from_seq (the (ad_head ?w)) = 1"
    using written_rows[of digest ?rows] by (auto simp: locked_head_def)
  have "ad_events (overtaken digest) = [x, z]"
    by (simp add: overtaken_def prune_audit_events_def xyz fields seal_pruned_range_def Let_def)
  moreover have "ad_head (overtaken digest) = ad_head ?w"
    by (simp add: overtaken_def prune_audit_events_def xyz fields seal_pruned_range_def Let_def)
  then have "chain_floor (overtaken digest) = 1"
    using head by (auto simp: chain_floor_def int_or_one_def split: option.splits)
  ultimately show ?thesis using that fields by blast
qed


end
