(* ===== verification/Audit_Writer.thy ===== *)
theory Audit_Writer
  imports Audit_Chain
begin

text \<open>
  Writing audit events (\<open>core/audit/writer.py\<close>): what is redacted and cut before a row is stored, the row
  itself, and the columns it has to fit (\<open>features/admin/models.py\<close>). Header names are in lower case; a
  value longer than its \<open>varchar\<close> column makes the statement that stores it fail, and with it the
  transaction. Objects with a \<open>dict\<close> method do not occur among the values modelled.
\<close>

section \<open>Redaction\<close>

definition sensitive_tokens :: "string list" where
  "sensitive_tokens = [''password'', ''secret'', ''token'', ''key'', ''credential'', ''cookie'', ''authorization'',
     ''pepper'', ''hash'', ''jwt'', ''private'']"

definition is_sensitive_key :: "string \<Rightarrow> bool" where
  "is_sensitive_key key =
     (let lk = py_lower (py_strip key) in lk \<noteq> [] \<and> list_ex (\<lambda>tok. py_contains lk tok) sensitive_tokens)"

definition truncate_text :: "string \<Rightarrow> nat \<Rightarrow> string" where
  "truncate_text v max_len = (if length v \<le> max_len then v else take (max_len - 3) v @ ''...'')"

definition max_depth :: nat where
  "max_depth = 8"

function sanitize :: "nat \<Rightarrow> pyval \<Rightarrow> pyval" where
  "sanitize depth v =
     (if depth > max_depth then PStr ''<max_depth>''
      else case v of
        PStr s \<Rightarrow> PStr (truncate_text s 2048)
      | PDict kvs \<Rightarrow> PDict (map (\<lambda>(k, x). (k, if is_sensitive_key k then PStr ''<redacted>'' else sanitize (depth + 1) x)) kvs)
      | PList xs \<Rightarrow> PList (map (sanitize (depth + 1)) (take 200 xs))
      | PTime t \<Rightarrow> PStr (truncate_text (py_str (PTime t)) 512)
      | _ \<Rightarrow> v)"
  by pat_completeness auto
termination
  by (relation "measure (\<lambda>(depth, v). max_depth + 1 - depth)") auto

declare sanitize.simps [simp del]

definition sanitize_for_audit :: "pyval \<Rightarrow> pyval" where
  "sanitize_for_audit v = sanitize 0 v"

definition changed_fields :: "pyval \<Rightarrow> pyval \<Rightarrow> string list" where
  "changed_fields before after =
     (let b = dict_or_empty before; a = dict_or_empty after
      in filter (\<lambda>k. \<not> py_eq (pget b k) (pget a k)) (sorted_set (map fst b @ map fst a)))"

text \<open>No value under a sensitive key survives; texts, lists and nesting are bounded.\<close>

fun redacted :: "pyval \<Rightarrow> bool" where
  "redacted (PList xs) \<longleftrightarrow> list_all redacted xs"
| "redacted (PDict kvs) \<longleftrightarrow> list_all (\<lambda>(k, x). (is_sensitive_key k \<longrightarrow> x = PStr ''<redacted>'') \<and> redacted x) kvs"
| "redacted _ \<longleftrightarrow> True"

fun bounded :: "nat \<Rightarrow> pyval \<Rightarrow> bool" where
  "bounded n (PStr s) \<longleftrightarrow> length s \<le> 2048"
| "bounded n (PTime t) \<longleftrightarrow> False"
| "bounded n (PList xs) \<longleftrightarrow> n > 0 \<and> length xs \<le> 200 \<and> list_all (bounded (n - 1)) xs"
| "bounded n (PDict kvs) \<longleftrightarrow> n > 0 \<and> list_all (\<lambda>(k, x). bounded (n - 1) x) kvs"
| "bounded n _ \<longleftrightarrow> True"

lemma length_truncate_text: "3 \<le> n \<Longrightarrow> length (truncate_text v n) \<le> n"
  by (auto simp: truncate_text_def)

lemma sanitize_redacted: "redacted (sanitize depth v)"
proof (induction depth v rule: sanitize.induct)
  case (1 depth v)
  then show ?case
    by (subst sanitize.simps) (auto split: pyval.splits simp: list_all_iff)
qed

lemma sanitize_bounded: "bounded (9 - depth) (sanitize depth v)"
proof (induction depth v rule: sanitize.induct)
  case (1 depth v)
  show ?case
  proof (cases "depth > max_depth")
    case True
    then show ?thesis by (subst sanitize.simps) simp
  next
    case False
    then have deeper: "9 - depth - 1 = 9 - (depth + 1)" "0 < 9 - depth" by (auto simp: max_depth_def)
    have short: "length (truncate_text s 2048) \<le> 2048" "length (truncate_text s 512) \<le> 2048" for s
      using length_truncate_text[of 2048 s] length_truncate_text[of 512 s] by simp_all
    show ?thesis using 1[OF False] False deeper short
      by (subst sanitize.simps) (auto split: pyval.splits simp: list_all_iff)
  qed
qed

section \<open>Requests\<close>

record http_request =
  rq_client_host :: "string option"
  rq_headers :: "(string \<times> string) list"
  rq_cookies :: "(string \<times> string) list"
  rq_method :: string
  rq_path :: string

definition header :: "http_request \<Rightarrow> string \<Rightarrow> string" where
  "header rq name = or_empty (dict_get (rq_headers rq) name)"

definition nonempty :: "string \<Rightarrow> string option" where
  "nonempty s = (if s = [] then None else Some s)"

text \<open>The request id of \<open>request_context_middleware\<close>: the caller's header, or a fresh one.\<close>

definition request_id :: "string \<Rightarrow> http_request \<Rightarrow> string" where
  "request_id uuid rq = (let s = py_strip (header rq ''x-request-id'') in if s = [] then uuid else s)"

definition request_meta :: "http_request option \<Rightarrow> string option \<times> string option \<times> string option \<times> string option" where
  "request_meta request =
     (case request of
        None \<Rightarrow> (None, None, None, None)
      | Some rq \<Rightarrow> (nonempty (or_empty (rq_client_host rq)), nonempty (take 256 (header rq ''user-agent'')),
          nonempty (take 16 (rq_method rq)), nonempty (take 255 (rq_path rq))))"

record audit_actor =
  ac_user_id :: "int option"
  ac_username :: "string option"

definition audit_actor :: "int option \<Rightarrow> string option \<Rightarrow> audit_actor" where
  "audit_actor user_id username = \<lparr>ac_user_id = user_id, ac_username = or_none username\<rparr>"

text \<open>The arguments of \<open>write_audit_event\<close>.\<close>

record audit_args =
  aa_actor :: audit_actor
  aa_event_type :: string
  aa_action :: string
  aa_resource_type :: string
  aa_resource_id :: "string option"
  aa_outcome :: string
  aa_before :: pyval
  aa_after :: pyval
  aa_context :: pyval
  aa_reason :: "string option"
  aa_error :: "string option"
  aa_operation_id :: "string option"

definition none_as_dict :: "pyval \<Rightarrow> pyval" where
  "none_as_dict v = (if v = PNone then PDict [] else v)"

definition as_value_dict :: "pyval \<Rightarrow> pyval" where
  "as_value_dict v = (case v of PDict _ \<Rightarrow> v | _ \<Rightarrow> PDict [(''value'', v)])"

definition text_or :: "string \<Rightarrow> string \<Rightarrow> string" where
  "text_or s d = (if s = [] then d else s)"

definition audit_row :: "string \<Rightarrow> string \<Rightarrow> int \<Rightarrow> http_request option \<Rightarrow> audit_args \<Rightarrow> audit_event" where
  "audit_row rid uuid now request args =
     (let before_s = sanitize_for_audit (none_as_dict (aa_before args));
          after_s = sanitize_for_audit (none_as_dict (aa_after args));
          context_s = sanitize_for_audit (none_as_dict (aa_context args));
          (ip, user_agent, method, path) = request_meta request;
          trace_id = (case request of None \<Rightarrow> None | Some rq \<Rightarrow> nonempty (take 128 (py_strip (header rq ''x-trace-id''))))
      in \<lparr>ae_id = uuid, ae_seq = 0, ae_operation_id = or_none (aa_operation_id args), ae_created_at = now,
          ae_event_type = text_or (take 32 (py_strip (text_or (aa_event_type args) ''admin_action''))) ''admin_action'',
          ae_action = take 96 (py_strip (aa_action args)),
          ae_outcome = take 16 (py_strip (text_or (aa_outcome args) ''success'')),
          ae_actor_user_id = ac_user_id (aa_actor args), ae_actor_username = or_none (ac_username (aa_actor args)),
          ae_resource_type = take 48 (py_strip (aa_resource_type args)),
          ae_resource_id = map_option (take 128) (aa_resource_id args),
          ae_request_id = nonempty rid, ae_trace_id = trace_id, ae_ip = ip, ae_user_agent = user_agent, ae_method = method,
          ae_path = path, ae_reason = map_option (take 255) (or_none (aa_reason args)),
          ae_error = map_option (take 255) (or_none (aa_error args)),
          ae_before = as_value_dict before_s, ae_after = as_value_dict after_s,
          ae_changed_fields = changed_fields before_s after_s, ae_context = as_value_dict context_s,
          ae_prev_event_hash = None, ae_event_hash = None, ae_schema_version = 1\<rparr>)"

definition write_audit_event ::
  "(string \<Rightarrow> string) \<Rightarrow> string \<Rightarrow> string \<Rightarrow> int \<Rightarrow> http_request option \<Rightarrow> audit_args \<Rightarrow> audit_db \<Rightarrow> audit_event \<times> audit_db" where
  "write_audit_event digest rid uuid now request args db = link_event digest (audit_row rid uuid now request args) db"

section \<open>Columns\<close>

definition fits :: "nat \<Rightarrow> string option \<Rightarrow> bool" where
  "fits n s = (case s of None \<Rightarrow> True | Some t \<Rightarrow> length t \<le> n)"

definition event_fits :: "audit_event \<Rightarrow> bool" where
  "event_fits r \<longleftrightarrow> length (ae_id r) \<le> 36 \<and> fits 36 (ae_operation_id r) \<and> length (ae_event_type r) \<le> 32 \<and>
     length (ae_action r) \<le> 96 \<and> length (ae_outcome r) \<le> 16 \<and> fits 64 (ae_actor_username r) \<and>
     length (ae_resource_type r) \<le> 48 \<and> fits 128 (ae_resource_id r) \<and> fits 64 (ae_request_id r) \<and>
     fits 128 (ae_trace_id r) \<and> fits 64 (ae_ip r) \<and> fits 256 (ae_user_agent r) \<and> fits 16 (ae_method r) \<and>
     fits 255 (ae_path r) \<and> fits 255 (ae_reason r) \<and> fits 255 (ae_error r) \<and>
     fits 64 (ae_prev_event_hash r) \<and> fits 64 (ae_event_hash r)"

lemma fits_simps [simp]: "fits n None" "fits n (Some s) \<longleftrightarrow> length s \<le> n"
  "fits n (map_option (take n) h)" "fits n (nonempty (take n t))" "fits n (nonempty t) \<longleftrightarrow> length t \<le> n"
  "fits n (or_none h) = fits n h"
  by (auto simp: fits_def nonempty_def or_none_def split: option.splits list.splits)

text \<open>The columns that can overflow are the ones the writer does not cut.\<close>

lemma audit_row_fits:
  "event_fits (audit_row rid uuid now request args) \<longleftrightarrow>
     length uuid \<le> 36 \<and> fits 36 (aa_operation_id args) \<and> fits 64 (ac_username (aa_actor args)) \<and>
     length rid \<le> 64 \<and> fits 64 (case request of None \<Rightarrow> None | Some rq \<Rightarrow> rq_client_host rq)"
proof -
  have "fits n (nonempty (or_empty h)) = fits n h" for n h
    by (auto simp: fits_def nonempty_def or_empty_def split: option.splits)
  then show ?thesis
    by (cases request)
       (simp_all add: event_fits_def audit_row_def Let_def request_meta_def text_or_def min_def)
qed

lemma linked_event_fits:
  assumes "\<And>s. length (digest s) \<le> 64"
  shows "event_fits (fst (link_event digest row db)) \<longleftrightarrow>
    event_fits (row\<lparr>ae_prev_event_hash := None, ae_event_hash := None\<rparr>) \<and> fits 64 (ch_head_hash (locked_head db))"
  using assms by (auto simp: event_fits_def link_event_def Let_def sign_event_def)

section \<open>Properties\<close>

text \<open>C27: Whatever is passed to the audit trail, no value under a sensitive key survives at any depth, texts have
  at most 2048 characters, lists at most 200 items, and nothing is nested deeper than nine levels.
\<close>

theorem sanitize_redacts_and_bounds: "redacted (sanitize_for_audit v) \<and> bounded 9 (sanitize_for_audit v)"
  using sanitize_redacted[of 0 v] sanitize_bounded[of 0 v] by (simp add: sanitize_for_audit_def)

end
