(* ===== verification/Auth_Sessions.thy ===== *)
theory Auth_Sessions
  imports Audit_Writer
begin

text \<open>
  Portal sessions (\<open>features/auth/service.py\<close>, \<open>repository.py\<close>, \<open>session.py\<close>, \<open>models.py\<close>): password and
  one-time-token logins, rotation of refresh tokens, logout, the check of access tokens. A handler works on
  the state of its transaction and commits it; a row that does not fit its columns makes the commit fail,
  and the state stays what it was. Password hashing, token hashing, the decoding of access tokens and the
  rate limits are parameters; random values and times come with the request.
\<close>

section \<open>Rows\<close>

record portal_user =
  us_id :: int
  us_username :: string
  us_password_hash :: string
  us_role :: string
  us_is_active :: bool
  us_last_login_at :: "int option"
  us_failed_login_count :: int
  us_token_version :: int

record refresh_session =
  rs_id :: string
  rs_family_id :: string
  rs_user_id :: int
  rs_token_hash :: string
  rs_created_at :: int
  rs_expires_at :: int
  rs_revoked_at :: "int option"
  rs_replaced_by_id :: "string option"
  rs_last_ip :: "string option"
  rs_last_user_agent :: "string option"

record one_time_token =
  ot_id :: string
  ot_user_id :: int
  ot_created_by_user_id :: "int option"
  ot_label :: "string option"
  ot_token_hash :: string
  ot_created_at :: int
  ot_expires_at :: int
  ot_used_at :: "int option"
  ot_used_ip :: "string option"
  ot_used_user_agent :: "string option"
  ot_revoked_at :: "int option"

record login_event =
  le_id :: string
  le_user_id :: "int option"
  le_username :: "string option"
  le_method :: string
  le_succeeded :: bool
  le_ip :: "string option"
  le_user_agent :: "string option"
  le_created_at :: int

record auth_db =
  au_users :: "portal_user list"
  au_sessions :: "refresh_session list"
  au_tokens :: "one_time_token list"
  au_logins :: "login_event list"
  au_audit :: audit_db

record principal =
  pp_id :: int
  pp_username :: string
  pp_role :: string

text \<open>Settings and the code that is not the repository's.\<close>

record auth_config =
  cf_digest :: "string \<Rightarrow> string"
  cf_token_hash :: "string \<Rightarrow> string"
  cf_verify :: "string \<Rightarrow> string \<Rightarrow> bool \<times> string option"
  cf_decode :: "string \<Rightarrow> (string \<times> pyval) list option"
  cf_login_allowed :: "http_request \<Rightarrow> string \<Rightarrow> bool"
  cf_otp_allowed :: "http_request \<Rightarrow> bool"
  cf_refresh_ttl :: int
  cf_otp_ttl :: int
  cf_otp_enabled :: bool

text \<open>The times and the random values one request draws.\<close>

record draws =
  dr_request_id :: string
  dr_now :: int
  dr_login_time :: int
  dr_audit_time :: int
  dr_session_time :: int
  dr_login_id :: string
  dr_audit_id :: string
  dr_session_id :: string
  dr_family_id :: string
  dr_refresh_token :: string
  dr_csrf :: string
  dr_otp_id :: string
  dr_otp :: string

text \<open>What the client gets: a session with its cookies, a refusal, an unhandled exception.\<close>

datatype auth_reply =
    Granted (gr_refresh_token: string) (gr_csrf: string) (gr_user: portal_user)
  | OtpCreated string int
  | NoContent
  | Refused nat string
  | ServerError

section \<open>The repository\<close>

definition get_user_by_username :: "auth_db \<Rightarrow> string \<Rightarrow> portal_user option" where
  "get_user_by_username db username = List.find (\<lambda>u. us_username u = username) (au_users db)"

definition get_user_by_id :: "auth_db \<Rightarrow> int \<Rightarrow> portal_user option" where
  "get_user_by_id db uid = List.find (\<lambda>u. us_id u = uid) (au_users db)"

definition save_user :: "portal_user \<Rightarrow> auth_db \<Rightarrow> auth_db" where
  "save_user user db = db\<lparr>au_users := map (\<lambda>u. if us_id u = us_id user then user else u) (au_users db)\<rparr>"

definition get_one_time_token_by_hash :: "auth_db \<Rightarrow> string \<Rightarrow> one_time_token option" where
  "get_one_time_token_by_hash db h = List.find (\<lambda>t. ot_token_hash t = h) (au_tokens db)"

definition create_one_time_token ::
  "string \<Rightarrow> int \<Rightarrow> int option \<Rightarrow> string option \<Rightarrow> string \<Rightarrow> int \<Rightarrow> int \<Rightarrow> auth_db \<Rightarrow> one_time_token \<times> auth_db" where
  "create_one_time_token uuid user_id created_by label h created_at expires_at db =
     (let row = \<lparr>ot_id = uuid, ot_user_id = user_id, ot_created_by_user_id = created_by, ot_label = or_none label,
        ot_token_hash = h, ot_created_at = created_at, ot_expires_at = expires_at, ot_used_at = None, ot_used_ip = None,
        ot_used_user_agent = None, ot_revoked_at = None\<rparr>
      in (row, db\<lparr>au_tokens := au_tokens db @ [row]\<rparr>))"

definition unspent :: "string \<Rightarrow> one_time_token \<Rightarrow> bool" where
  "unspent token_id t \<longleftrightarrow> ot_id t = token_id \<and> ot_used_at t = None \<and> ot_revoked_at t = None"

definition consume_one_time_token :: "string \<Rightarrow> int \<Rightarrow> string \<Rightarrow> string \<Rightarrow> auth_db \<Rightarrow> bool \<times> auth_db" where
  "consume_one_time_token token_id used_at used_ip used_user_agent db =
     (list_ex (unspent token_id) (au_tokens db),
      db\<lparr>au_tokens := map (\<lambda>t. if unspent token_id t
        then t\<lparr>ot_used_at := Some used_at, ot_used_ip := Some used_ip, ot_used_user_agent := Some used_user_agent\<rparr> else t)
        (au_tokens db)\<rparr>)"

definition create_login_event ::
  "string \<Rightarrow> int option \<Rightarrow> string option \<Rightarrow> string \<Rightarrow> bool \<Rightarrow> string \<Rightarrow> string \<Rightarrow> int \<Rightarrow> auth_db \<Rightarrow> auth_db" where
  "create_login_event uuid user_id username meth succeeded ip user_agent created_at db =
     db\<lparr>au_logins := au_logins db @ [\<lparr>le_id = uuid, le_user_id = user_id, le_username = or_none username, le_method = meth,
       le_succeeded = succeeded, le_ip = nonempty ip, le_user_agent = nonempty user_agent, le_created_at = created_at\<rparr>]\<rparr>"

definition get_refresh_session_by_token_hash :: "auth_db \<Rightarrow> string \<Rightarrow> refresh_session option" where
  "get_refresh_session_by_token_hash db h = List.find (\<lambda>s. rs_token_hash s = h) (au_sessions db)"

definition create_refresh_session :: "refresh_session \<Rightarrow> auth_db \<Rightarrow> auth_db" where
  "create_refresh_session row db = db\<lparr>au_sessions := au_sessions db @ [row]\<rparr>"

definition live :: "refresh_session \<Rightarrow> bool" where
  "live s \<longleftrightarrow> rs_revoked_at s = None"

text \<open>The conditional update of one row; \<open>ip_ua\<close> holds the client's address and agent when they are passed.\<close>

definition revoke_refresh_session ::
  "string \<Rightarrow> int \<Rightarrow> string option \<Rightarrow> (string \<times> string) option \<Rightarrow> auth_db \<Rightarrow> bool \<times> auth_db" where
  "revoke_refresh_session session_id revoked_at replaced_by_id ip_ua db =
     (list_ex (\<lambda>s. rs_id s = session_id \<and> live s) (au_sessions db),
      db\<lparr>au_sessions := map (\<lambda>s. if rs_id s = session_id \<and> live s
        then (case ip_ua of None \<Rightarrow> s | Some (ip, ua) \<Rightarrow> s\<lparr>rs_last_ip := Some ip, rs_last_user_agent := Some ua\<rparr>)
          \<lparr>rs_revoked_at := Some revoked_at, rs_replaced_by_id := replaced_by_id\<rparr> else s) (au_sessions db)\<rparr>)"

text \<open>
  A statement sees the rows that were committed when it began and updates those that, once their locks are
  free, still satisfy its condition: \<open>visible\<close> holds the ids of the rows it sees.
\<close>

definition revoke_where :: "(refresh_session \<Rightarrow> bool) \<Rightarrow> string set \<Rightarrow> int \<Rightarrow> auth_db \<Rightarrow> auth_db" where
  "revoke_where p visible revoked_at db =
     db\<lparr>au_sessions := map (\<lambda>s. if rs_id s \<in> visible \<and> p s \<and> live s then s\<lparr>rs_revoked_at := Some revoked_at\<rparr> else s)
       (au_sessions db)\<rparr>"

definition session_ids :: "auth_db \<Rightarrow> string set" where
  "session_ids db = set (map rs_id (au_sessions db))"

definition revoke_refresh_family :: "string \<Rightarrow> string set \<Rightarrow> int \<Rightarrow> auth_db \<Rightarrow> auth_db" where
  "revoke_refresh_family family_id = revoke_where (\<lambda>s. rs_family_id s = family_id)"

definition revoke_active_refresh_sessions_by_user :: "int \<Rightarrow> string set \<Rightarrow> int \<Rightarrow> auth_db \<Rightarrow> auth_db" where
  "revoke_active_refresh_sessions_by_user user_id = revoke_where (\<lambda>s. rs_user_id s = user_id)"

text \<open>The commit checks every row against its columns, and the columns that are unique.\<close>

definition user_fits :: "portal_user \<Rightarrow> bool" where
  "user_fits u \<longleftrightarrow> length (us_username u) \<le> 64 \<and> length (us_password_hash u) \<le> 256 \<and> length (us_role u) \<le> 32"

definition session_fits :: "refresh_session \<Rightarrow> bool" where
  "session_fits s \<longleftrightarrow> length (rs_id s) \<le> 36 \<and> length (rs_family_id s) \<le> 36 \<and> length (rs_token_hash s) \<le> 64 \<and>
     fits 36 (rs_replaced_by_id s) \<and> fits 64 (rs_last_ip s) \<and> fits 256 (rs_last_user_agent s)"

definition token_fits :: "one_time_token \<Rightarrow> bool" where
  "token_fits t \<longleftrightarrow> length (ot_id t) \<le> 36 \<and> fits 128 (ot_label t) \<and> length (ot_token_hash t) \<le> 64 \<and>
     fits 64 (ot_used_ip t) \<and> fits 256 (ot_used_user_agent t)"

definition login_fits :: "login_event \<Rightarrow> bool" where
  "login_fits l \<longleftrightarrow> length (le_id l) \<le> 36 \<and> fits 64 (le_username l) \<and> length (le_method l) \<le> 16 \<and>
     fits 64 (le_ip l) \<and> fits 256 (le_user_agent l)"

definition unique_columns :: "auth_db \<Rightarrow> bool" where
  "unique_columns db \<longleftrightarrow> distinct (map us_id (au_users db)) \<and> distinct (map us_username (au_users db)) \<and>
     distinct (map rs_id (au_sessions db)) \<and> distinct (map rs_token_hash (au_sessions db)) \<and>
     distinct (map ot_id (au_tokens db)) \<and> distinct (map ot_token_hash (au_tokens db)) \<and>
     distinct (map le_id (au_logins db)) \<and> distinct (map ae_id (ad_events (au_audit db))) \<and>
     distinct (map ae_seq (ad_events (au_audit db)))"

definition db_fits :: "auth_db \<Rightarrow> bool" where
  "db_fits db \<longleftrightarrow> unique_columns db \<and> list_all user_fits (au_users db) \<and> list_all session_fits (au_sessions db) \<and>
     list_all token_fits (au_tokens db) \<and> list_all login_fits (au_logins db) \<and>
     list_all event_fits (ad_events (au_audit db))"

text \<open>\<open>repository.commit\<close> with what follows it, and \<open>_commit_quietly\<close>.\<close>

definition commit :: "auth_reply \<Rightarrow> auth_db \<Rightarrow> auth_db \<Rightarrow> auth_reply \<times> auth_db" where
  "commit reply db db' = (if db_fits db' then (reply, db') else (ServerError, db))"

definition commit_quietly :: "auth_reply \<Rightarrow> auth_db \<Rightarrow> auth_db \<Rightarrow> auth_reply \<times> auth_db" where
  "commit_quietly reply db db' = (reply, if db_fits db' then db' else db)"

section \<open>The service\<close>

definition client_meta :: "http_request \<Rightarrow> string \<times> string" where
  "client_meta rq = (text_or (or_empty (rq_client_host rq)) ''unknown'', take 256 (header rq ''user-agent''))"

definition canonicalize_username :: "string \<Rightarrow> string" where
  "canonicalize_username username = py_lower (py_strip username)"

definition record_audit_event :: "auth_config \<Rightarrow> draws \<Rightarrow> http_request \<Rightarrow> audit_args \<Rightarrow> auth_db \<Rightarrow> auth_db" where
  "record_audit_event cfg dr rq args db =
     db\<lparr>au_audit := snd (write_audit_event (cf_digest cfg) (request_id (dr_request_id dr) rq) (dr_audit_id dr)
       (dr_audit_time dr) (Some rq) args (au_audit db))\<rparr>"

definition audit_login_event ::
  "auth_config \<Rightarrow> draws \<Rightarrow> http_request \<Rightarrow> string \<Rightarrow> bool \<Rightarrow> int option \<Rightarrow> string option \<Rightarrow> string option \<Rightarrow> auth_db \<Rightarrow> auth_db" where
  "audit_login_event cfg dr rq meth succeeded user_id username reason db =
     (let (ip, ua) = client_meta rq;
          db = create_login_event (dr_login_id dr) user_id username meth succeeded ip ua (dr_login_time dr) db
      in record_audit_event cfg dr rq
        \<lparr>aa_actor = audit_actor user_id username, aa_event_type = ''auth'', aa_action = ''auth.login.'' @ meth,
         aa_resource_type = ''auth_session'', aa_resource_id = map_option int_str user_id,
         aa_outcome = (if succeeded then ''success'' else ''failure''), aa_before = PDict [],
         aa_after = PDict [(''method'', PStr meth), (''succeeded'', PBool succeeded)],
         aa_context = PDict [(''ip'', PStr ip), (''user_agent'', PStr ua)],
         aa_reason = (if succeeded then None else Some (text_or (or_empty reason) ''login_failed'')), aa_error = None,
         aa_operation_id = None\<rparr> db)"

definition audit_refresh_event ::
  "auth_config \<Rightarrow> draws \<Rightarrow> http_request \<Rightarrow> bool \<Rightarrow> int option \<Rightarrow> string option \<Rightarrow> string option \<Rightarrow> string option \<Rightarrow> auth_db \<Rightarrow> auth_db" where
  "audit_refresh_event cfg dr rq succeeded user_id username reason error db =
     record_audit_event cfg dr rq
       \<lparr>aa_actor = audit_actor user_id username, aa_event_type = ''auth'', aa_action = ''auth.refresh'',
        aa_resource_type = ''auth_session'', aa_resource_id = map_option int_str user_id,
        aa_outcome = (if succeeded then ''success'' else ''failure''), aa_before = PDict [],
        aa_after = PDict (if succeeded then [(''token_refreshed'', PBool True)] else []), aa_context = PDict [],
        aa_reason = reason, aa_error = error, aa_operation_id = None\<rparr> db"

definition refresh_session_row :: "auth_config \<Rightarrow> draws \<Rightarrow> http_request \<Rightarrow> int \<Rightarrow> string option \<Rightarrow> refresh_session" where
  "refresh_session_row cfg dr rq user_id family_id =
     \<lparr>rs_id = dr_session_id dr, rs_family_id = (case or_none family_id of Some f \<Rightarrow> f | None \<Rightarrow> dr_family_id dr),
      rs_user_id = user_id, rs_token_hash = cf_token_hash cfg (dr_refresh_token dr), rs_created_at = dr_session_time dr,
      rs_expires_at = dr_session_time dr + cf_refresh_ttl cfg, rs_revoked_at = None, rs_replaced_by_id = None,
      rs_last_ip = nonempty (fst (client_meta rq)), rs_last_user_agent = nonempty (snd (client_meta rq))\<rparr>"

definition new_refresh_session ::
  "auth_config \<Rightarrow> draws \<Rightarrow> http_request \<Rightarrow> int \<Rightarrow> string option \<Rightarrow> auth_db \<Rightarrow> auth_db" where
  "new_refresh_session cfg dr rq user_id family_id db =
     create_refresh_session (refresh_session_row cfg dr rq user_id family_id) db"

definition invalid_credentials :: auth_reply where
  "invalid_credentials = Refused 401 ''Invalid credentials''"

definition login :: "auth_config \<Rightarrow> draws \<Rightarrow> http_request \<Rightarrow> string \<Rightarrow> string \<Rightarrow> auth_db \<Rightarrow> auth_reply \<times> auth_db" where
  "login cfg dr rq body_username password db =
     (let username = canonicalize_username body_username;
          failed = (\<lambda>user_id db'. commit_quietly invalid_credentials db
            (audit_login_event cfg dr rq ''password'' False user_id (Some username) (Some ''invalid_credentials'') db'))
      in if \<not> cf_login_allowed cfg rq username then (Refused 429 ''Too many login attempts. Try again in a few minutes.'', db)
      else case get_user_by_username db username of
        None \<Rightarrow> failed None db
      | Some user \<Rightarrow>
          if \<not> us_is_active user then failed None db
          else case cf_verify cfg password (us_password_hash user) of
            (False, _) \<Rightarrow>
              failed (Some (us_id user)) (save_user (user\<lparr>us_failed_login_count := us_failed_login_count user + 1\<rparr>) db)
          | (True, upgraded) \<Rightarrow>
              (let user = user\<lparr>us_password_hash := (case or_none upgraded of Some h \<Rightarrow> h | None \<Rightarrow> us_password_hash user),
                     us_failed_login_count := 0, us_last_login_at := Some (dr_now dr)\<rparr>;
                   db1 = audit_login_event cfg dr rq ''password'' True (Some (us_id user)) (Some (us_username user)) None
                     (save_user user db);
                   db2 = new_refresh_session cfg dr rq (us_id user) None db1
               in commit (Granted (dr_refresh_token dr) (dr_csrf dr) user) db db2))"

definition reject_refresh :: "auth_config \<Rightarrow> draws \<Rightarrow> http_request \<Rightarrow> string \<Rightarrow> auth_db \<Rightarrow> auth_db \<Rightarrow> auth_reply \<times> auth_db" where
  "reject_refresh cfg dr rq detail db db' =
     commit (Refused 401 detail) db (audit_refresh_event cfg dr rq False None None (Some detail) (Some ''http_401'') db')"

text \<open>\<open>refresh\<close> after it has read the session of the token; \<open>visible\<close> are the rows its bulk update sees.\<close>

definition refresh_current ::
  "auth_config \<Rightarrow> draws \<Rightarrow> http_request \<Rightarrow> string set \<Rightarrow> refresh_session option \<Rightarrow> auth_db \<Rightarrow> auth_reply \<times> auth_db" where
  "refresh_current cfg dr rq visible current db =
     (let now = dr_now dr in
      case current of
        None \<Rightarrow> reject_refresh cfg dr rq ''Invalid refresh token'' db db
      | Some cur \<Rightarrow>
          if rs_revoked_at cur \<noteq> None \<and> or_none (rs_replaced_by_id cur) \<noteq> None
          then reject_refresh cfg dr rq ''Session revoked'' db (revoke_refresh_family (rs_family_id cur) visible now db)
          else if rs_revoked_at cur \<noteq> None then reject_refresh cfg dr rq ''Invalid refresh token'' db db
          else if rs_expires_at cur \<le> now
          then reject_refresh cfg dr rq ''Refresh token expired'' db (snd (revoke_refresh_session (rs_id cur) now None None db))
          else case get_user_by_id db (rs_user_id cur) of
            None \<Rightarrow> reject_refresh cfg dr rq ''Unauthorized'' db (snd (revoke_refresh_session (rs_id cur) now None None db))
          | Some user \<Rightarrow>
              if \<not> us_is_active user
              then reject_refresh cfg dr rq ''Unauthorized'' db (snd (revoke_refresh_session (rs_id cur) now None None db))
              else case revoke_refresh_session (rs_id cur) now (Some (dr_session_id dr)) (Some (client_meta rq)) db of
                (False, _) \<Rightarrow> reject_refresh cfg dr rq ''Invalid refresh token'' db db
              | (True, db1) \<Rightarrow>
                  (let db2 = new_refresh_session cfg dr rq (us_id user) (Some (rs_family_id cur)) db1;
                       db3 = audit_refresh_event cfg dr rq True (Some (us_id user)) (Some (us_username user)) None None db2
                   in commit (Granted (dr_refresh_token dr) (dr_csrf dr) user) db db3))"

definition cookie :: "http_request \<Rightarrow> string \<Rightarrow> string" where
  "cookie rq name = py_strip (or_empty (dict_get (rq_cookies rq) name))"

text \<open>\<open>secrets.compare_digest\<close> raises on text that is not ASCII, which counts as different.\<close>

definition constant_time_eq :: "string \<Rightarrow> string \<Rightarrow> bool" where
  "constant_time_eq a b \<longleftrightarrow> list_all (\<lambda>c. code_point c < 128) (a @ b) \<and> a = b"

definition verify_refresh_csrf :: "http_request \<Rightarrow> bool" where
  "verify_refresh_csrf rq =
     (let c = cookie rq ''nw_csrf''; h = py_strip (header rq ''x-csrf-token'') in c \<noteq> [] \<and> h \<noteq> [] \<and> constant_time_eq c h)"

definition refresh :: "auth_config \<Rightarrow> draws \<Rightarrow> http_request \<Rightarrow> auth_db \<Rightarrow> auth_reply \<times> auth_db" where
  "refresh cfg dr rq db =
     (if \<not> verify_refresh_csrf rq then (Refused 403 ''CSRF validation failed'', db)
      else let raw = cookie rq ''nw_refresh'' in
        if raw = [] then reject_refresh cfg dr rq ''Missing refresh token'' db db
        else refresh_current cfg dr rq (session_ids db) (get_refresh_session_by_token_hash db (cf_token_hash cfg raw)) db)"

definition logout_args :: "string \<Rightarrow> string \<Rightarrow> principal \<Rightarrow> audit_args" where
  "logout_args action flag user =
     \<lparr>aa_actor = audit_actor (Some (pp_id user)) (Some (pp_username user)), aa_event_type = ''auth'', aa_action = action,
      aa_resource_type = ''auth_session'', aa_resource_id = Some (int_str (pp_id user)), aa_outcome = ''success'',
      aa_before = PDict [], aa_after = PDict [(flag, PBool True)], aa_context = PDict [], aa_reason = None, aa_error = None,
      aa_operation_id = None\<rparr>"

definition logout :: "auth_config \<Rightarrow> draws \<Rightarrow> http_request \<Rightarrow> principal \<Rightarrow> auth_db \<Rightarrow> auth_reply \<times> auth_db" where
  "logout cfg dr rq user db =
     (let raw = cookie rq ''nw_refresh'';
          db1 = (if raw = [] then db
            else case get_refresh_session_by_token_hash db (cf_token_hash cfg raw) of
              None \<Rightarrow> db | Some cur \<Rightarrow> snd (revoke_refresh_session (rs_id cur) (dr_now dr) None None db))
      in commit_quietly NoContent db
        (record_audit_event cfg dr rq (logout_args ''auth.logout'' ''logged_out'' user) db1))"

definition logout_all ::
  "auth_config \<Rightarrow> draws \<Rightarrow> http_request \<Rightarrow> string set \<Rightarrow> principal \<Rightarrow> auth_db \<Rightarrow> auth_reply \<times> auth_db" where
  "logout_all cfg dr rq visible user db =
     (let db1 = revoke_active_refresh_sessions_by_user (pp_id user) visible (dr_now dr) db;
          db2 = (case get_user_by_id db1 (pp_id user) of
             None \<Rightarrow> db1
           | Some row \<Rightarrow> save_user (row\<lparr>us_token_version := int_or_one (us_token_version row) + 1\<rparr>) db1)
      in commit_quietly NoContent db
        (record_audit_event cfg dr rq (logout_args ''auth.logout_all'' ''logged_out_all'' user) db2))"

definition reject_otp_login ::
  "auth_config \<Rightarrow> draws \<Rightarrow> http_request \<Rightarrow> int option \<Rightarrow> string option \<Rightarrow> auth_db \<Rightarrow> auth_db \<Rightarrow> auth_reply \<times> auth_db" where
  "reject_otp_login cfg dr rq user_id username db db' = commit_quietly (Refused 401 ''Invalid token'') db
     (audit_login_event cfg dr rq ''otp'' False user_id username (Some ''invalid_token'') db')"

text \<open>\<open>otp_login\<close> after it has read the token, and the whole handler.\<close>

definition otp_login_current ::
  "auth_config \<Rightarrow> draws \<Rightarrow> http_request \<Rightarrow> one_time_token option \<Rightarrow> auth_db \<Rightarrow> auth_reply \<times> auth_db" where
  "otp_login_current cfg dr rq current db =
     (let now = dr_now dr; (ip, ua) = client_meta rq; invalid = reject_otp_login cfg dr rq None None db db in
      case current of
        None \<Rightarrow> invalid
      | Some row \<Rightarrow>
          if ot_revoked_at row \<noteq> None \<or> ot_used_at row \<noteq> None \<or> ot_expires_at row \<le> now then invalid
          else case get_user_by_id db (ot_user_id row) of
            None \<Rightarrow> invalid
          | Some user \<Rightarrow>
              if \<not> us_is_active user then reject_otp_login cfg dr rq (Some (us_id user)) (Some (us_username user)) db db
              else case consume_one_time_token (ot_id row) now ip ua db of
                (False, _) \<Rightarrow> reject_otp_login cfg dr rq (Some (us_id user)) (Some (us_username user)) db db
              | (True, db1) \<Rightarrow>
                  (let user = user\<lparr>us_last_login_at := Some now\<rparr>;
                       db2 = audit_login_event cfg dr rq ''otp'' True (Some (us_id user)) (Some (us_username user)) None
                         (save_user user db1);
                       db3 = new_refresh_session cfg dr rq (us_id user) None db2
                   in commit (Granted (dr_refresh_token dr) (dr_csrf dr) user) db db3))"

definition otp_login :: "auth_config \<Rightarrow> draws \<Rightarrow> http_request \<Rightarrow> string \<Rightarrow> auth_db \<Rightarrow> auth_reply \<times> auth_db" where
  "otp_login cfg dr rq body_token db =
     (if \<not> cf_otp_enabled cfg then (Refused 404 ''Not found'', db)
      else if \<not> cf_otp_allowed cfg rq then (Refused 429 ''Too many attempts. Try again in a few minutes.'', db)
      else let raw = py_strip body_token in
        if raw = [] then (Refused 401 ''Invalid token'', db)
        else otp_login_current cfg dr rq (get_one_time_token_by_hash db (cf_token_hash cfg raw)) db)"

definition otp_create ::
  "auth_config \<Rightarrow> draws \<Rightarrow> http_request \<Rightarrow> string option \<Rightarrow> string option \<Rightarrow> principal \<Rightarrow> auth_db \<Rightarrow> auth_reply \<times> auth_db" where
  "otp_create cfg dr rq body_username label admin db =
     (if \<not> cf_otp_enabled cfg then (Refused 404 ''Not found'', db)
      else case (case or_none body_username of
             Some name \<Rightarrow> get_user_by_username db (canonicalize_username name)
           | None \<Rightarrow> get_user_by_id db (pp_id admin)) of
        None \<Rightarrow> (Refused 404 ''User not found'', db)
      | Some target \<Rightarrow>
          if \<not> us_is_active target then (Refused 404 ''User not found'', db)
          else (case create_one_time_token (dr_otp_id dr) (us_id target) (Some (pp_id admin)) label
                  (cf_token_hash cfg (dr_otp dr)) (dr_now dr) (dr_now dr + cf_otp_ttl cfg) db of
            (row, db1) \<Rightarrow>
              commit (OtpCreated (dr_otp dr) (cf_otp_ttl cfg)) db (record_audit_event cfg dr rq
                \<lparr>aa_actor = audit_actor (Some (pp_id admin)) (Some (pp_username admin)), aa_event_type = ''admin_action'',
                 aa_action = ''auth.otp.create'', aa_resource_type = ''otp_token'', aa_resource_id = Some (ot_id row),
                 aa_outcome = ''success'', aa_before = PDict [],
                 aa_after = PDict [(''user_id'', PInt (ot_user_id row)),
                   (''expires_at'', PStr (iso_format ''T'' (ot_expires_at row))), (''label'', text_or_null (ot_label row))],
                 aa_context = PDict [(''target_username'', PStr (us_username target))], aa_reason = label, aa_error = None,
                 aa_operation_id = None\<rparr> db1)))"

section \<open>Access tokens\<close>

definition parse_bearer :: "http_request \<Rightarrow> string option" where
  "parse_bearer rq =
     (let auth = header rq ''authorization''; rest = dropWhile (\<lambda>c. c \<noteq> CHR '' '') auth in
      if auth = [] \<or> rest = [] then None
      else let scheme = py_lower (py_strip (takeWhile (\<lambda>c. c \<noteq> CHR '' '') auth)); token = py_strip (tl rest) in
        if scheme \<noteq> ''bearer'' \<or> token = [] then None else Some token)"

text \<open>\<open>str.isdigit\<close>: superscripts count, and \<open>int\<close> then raises.\<close>

definition py_isdigit :: "string \<Rightarrow> bool" where
  "py_isdigit s \<longleftrightarrow> s \<noteq> [] \<and> list_all (\<lambda>c. is_ascii_digit c \<or> c \<in> {CHR 0xB2, CHR 0xB3, CHR 0xB9}) s"

definition unauthorized :: "string \<Rightarrow> auth_reply + principal" where
  "unauthorized detail = Inl (Refused 401 detail)"

definition get_current_user :: "auth_config \<Rightarrow> http_request \<Rightarrow> auth_db \<Rightarrow> auth_reply + principal" where
  "get_current_user cfg rq db =
     (case parse_bearer rq of
        None \<Rightarrow> unauthorized ''Missing access token''
      | Some token \<Rightarrow>
      (case cf_decode cfg token of
        None \<Rightarrow> unauthorized ''Invalid access token''
      | Some payload \<Rightarrow>
          if py_or (pget payload ''typ'') (PStr []) \<noteq> PStr ''access'' then unauthorized ''Invalid access token''
          else let sub = py_strip (str_or (pget payload ''sub'') []) in
            if \<not> py_isdigit sub then unauthorized ''Invalid access token''
            else case py_int sub of
              None \<Rightarrow> Inl ServerError
            | Some uid \<Rightarrow>
            (case int_of_py (pget payload ''tv'') of
              Inl _ \<Rightarrow> unauthorized ''Invalid access token''
            | Inr token_version \<Rightarrow>
            (case get_user_by_id db uid of
              None \<Rightarrow> unauthorized ''Unauthorized''
            | Some row \<Rightarrow>
                if \<not> us_is_active row then unauthorized ''Unauthorized''
                else if int_or_one (us_token_version row) \<noteq> token_version then unauthorized ''Token revoked''
                else Inr \<lparr>pp_id = us_id row, pp_username = us_username row, pp_role = us_role row\<rparr>))))"

definition is_admin :: "principal \<Rightarrow> bool" where
  "is_admin user \<longleftrightarrow> py_lower (pp_role user) = ''admin''"

definition risk_level_order :: "string \<Rightarrow> nat option" where
  "risk_level_order level = map_of [(''low'', 0), (''medium'', 1), (''high'', 2), (''critical'', 3)] level"

definition role_max_risk_rank :: "string \<Rightarrow> nat" where
  "role_max_risk_rank role =
     (let max_risk = (case map_of [(''admin'', ''critical''), (''analyst'', ''medium'')] (py_lower role) of
         Some r \<Rightarrow> r | None \<Rightarrow> ''low'')
      in the (risk_level_order max_risk))"

definition require_admin :: "auth_config \<Rightarrow> http_request \<Rightarrow> auth_db \<Rightarrow> auth_reply + principal" where
  "require_admin cfg rq db = ebind (get_current_user cfg rq db)
     (\<lambda>user. if is_admin user then Inr user else Inl (Refused 403 ''Forbidden''))"

definition require_min_risk_level :: "string \<Rightarrow> auth_config \<Rightarrow> http_request \<Rightarrow> auth_db \<Rightarrow> auth_reply + principal" where
  "require_min_risk_level min_risk cfg rq db =
     (let required_rank = (case risk_level_order (py_lower min_risk) of Some r \<Rightarrow> r | None \<Rightarrow> 0) in
      ebind (get_current_user cfg rq db)
        (\<lambda>user. if role_max_risk_rank (pp_role user) < required_rank
           then Inl (Refused 403 ''Insufficient privilege for this action risk level'') else Inr user))"

end
