(* ===== verification/Auth_Interleaving.thy ===== *)
theory Auth_Interleaving
  imports Auth_Sessions "HOL-Library.Multiset"
begin

text \<open>
  Concurrent requests on the portal's sessions. A request reads the row of its credential, then later runs
  its updates and commits; other requests may commit in between. The updates take row locks and test their
  conditions on the newest rows, so a transaction's effect is the one it has at its commit, except that a
  bulk update sees only the rows that were there when it began.
\<close>

section \<open>Requests under way\<close>

datatype inflight =
    Refreshing "refresh_session option" "string set"
  | SigningOut principal "string set"
  | Redeeming "one_time_token option"

type_synonym portal = "auth_db \<times> inflight multiset"

definition new_family :: "draws \<Rightarrow> auth_db \<Rightarrow> bool" where
  "new_family dr db \<longleftrightarrow> dr_family_id dr \<noteq> [] \<and> dr_family_id dr \<notin> rs_family_id ` set (au_sessions db)"

inductive portal_step :: "auth_config \<Rightarrow> portal \<Rightarrow> portal \<Rightarrow> bool" for cfg where
  password: "new_family dr db \<Longrightarrow> portal_step cfg (db, R) (snd (login cfg dr rq name password db), R)"
| otp: "portal_step cfg (db, R) (snd (otp_create cfg dr rq name label admin db), R)"
| leave: "portal_step cfg (db, R) (snd (logout cfg dr rq user db), R)"
| read_session: "portal_step cfg (db, R)
    (db, add_mset (Refreshing (get_refresh_session_by_token_hash db h) (session_ids db)) R)"
| begin_update: "portal_step cfg (db, add_mset (Refreshing cur vis) R) (db, add_mset (Refreshing cur (session_ids db)) R)"
| refreshed: "portal_step cfg (db, add_mset (Refreshing cur vis) R) (snd (refresh_current cfg dr rq vis cur db), R)"
| begin_sign_out: "portal_step cfg (db, R) (db, add_mset (SigningOut user (session_ids db)) R)"
| signed_out: "portal_step cfg (db, add_mset (SigningOut user vis) R) (snd (logout_all cfg dr rq vis user db), R)"
| read_otp: "portal_step cfg (db, R) (db, add_mset (Redeeming (get_one_time_token_by_hash db h)) R)"
| redeemed: "new_family dr db \<Longrightarrow>
    portal_step cfg (db, add_mset (Redeeming cur) R) (snd (otp_login_current cfg dr rq cur db), R)"

text \<open>The portal starts with its users and no session.\<close>

definition portal_start :: "auth_db \<Rightarrow> bool" where
  "portal_start db \<longleftrightarrow> au_sessions db = [] \<and> au_tokens db = []"

inductive portal_reachable :: "auth_config \<Rightarrow> portal \<Rightarrow> bool" for cfg where
  start: "portal_start db \<Longrightarrow> portal_reachable cfg (db, {#})"
| step: "portal_reachable cfg st \<Longrightarrow> portal_step cfg st st' \<Longrightarrow> portal_reachable cfg st'"

section \<open>What a request does to the sessions\<close>

text \<open>Revocations keep the rows and their families, and never revive a session.\<close>

definition revokes :: "(refresh_session \<Rightarrow> refresh_session) \<Rightarrow> bool" where
  "revokes f \<longleftrightarrow> (\<forall>s. rs_id (f s) = rs_id s \<and> rs_family_id (f s) = rs_family_id s \<and>
     (\<not> live s \<longrightarrow> f s = s))"

inductive session_effect :: "refresh_session list \<Rightarrow> refresh_session list \<Rightarrow> bool" where
  revoked: "revokes f \<Longrightarrow> session_effect ss (map f ss)"
| opened: "distinct (map rs_id (ss @ [s])) \<Longrightarrow> rs_family_id s \<notin> rs_family_id ` set ss \<Longrightarrow>
    rs_family_id s \<noteq> [] \<Longrightarrow> session_effect ss (ss @ [s])"
| rotated: "revokes f \<Longrightarrow> old \<in> set ss \<Longrightarrow> live old \<Longrightarrow> \<not> live (f old) \<Longrightarrow> rs_family_id s = rs_family_id old \<Longrightarrow>
    distinct (map rs_id (ss @ [s])) \<Longrightarrow> session_effect ss (map f ss @ [s])"

lemma revokes_id [simp]: "revokes (\<lambda>s. s)"
  by (simp add: revokes_def)

lemma same_effect [simp]: "session_effect ss ss"
  using session_effect.revoked[of "\<lambda>s. s" ss] by simp

lemma sessions_of_audit [simp]:
  "au_sessions (record_audit_event cfg dr rq args db) = au_sessions db"
  "au_sessions (audit_refresh_event cfg dr rq ok uid name reason err db) = au_sessions db"
  "au_sessions (audit_login_event cfg dr rq m ok uid name reason db) = au_sessions db"
  "au_sessions (save_user u db) = au_sessions db"
  "au_sessions (snd (consume_one_time_token i t ip ua db)) = au_sessions db"
  "au_sessions (snd (create_one_time_token i v c l h t e db)) = au_sessions db"
  by (simp_all add: record_audit_event_def audit_refresh_event_def audit_login_event_def create_login_event_def
      save_user_def consume_one_time_token_def create_one_time_token_def Let_def split: prod.splits)

lemma commit_effect:
  assumes "db_fits db' \<Longrightarrow> session_effect (au_sessions db) (au_sessions db')"
  shows "session_effect (au_sessions db) (au_sessions (snd (commit reply db db')))"
    and "session_effect (au_sessions db) (au_sessions (snd (commit_quietly reply db db')))"
  using assms by (simp_all add: commit_def commit_quietly_def)

lemma revoke_where_effect: "session_effect (au_sessions db) (au_sessions (revoke_where p vis t db))"
  unfolding revoke_where_def
  by (simp, rule session_effect.revoked) (simp add: revokes_def)

definition revoke_one :: "string \<Rightarrow> int \<Rightarrow> string option \<Rightarrow> (string \<times> string) option \<Rightarrow> refresh_session \<Rightarrow> refresh_session" where
  "revoke_one i t r ip_ua s = (if rs_id s = i \<and> live s
     then (case ip_ua of None \<Rightarrow> s | Some (ip, ua) \<Rightarrow> s\<lparr>rs_last_ip := Some ip, rs_last_user_agent := Some ua\<rparr>)
       \<lparr>rs_revoked_at := Some t, rs_replaced_by_id := r\<rparr> else s)"

lemma revoke_one_simps [simp]:
  "au_sessions (snd (revoke_refresh_session i t r m db)) = map (revoke_one i t r m) (au_sessions db)"
  "revokes (revoke_one i t r m)"
  "rs_id s = i \<Longrightarrow> \<not> live (revoke_one i t r m s)"
  by (auto simp: revoke_refresh_session_def revoke_one_def revokes_def live_def split: option.splits)

lemma revoke_refresh_session_effect:
  "session_effect (au_sessions db) (au_sessions (snd (revoke_refresh_session i t r m db)))"
  by (simp add: session_effect.revoked)

lemma new_refresh_session_sessions [simp]:
  "au_sessions (new_refresh_session cfg dr rq uid f db) = au_sessions db @ [refresh_session_row cfg dr rq uid f]"
  by (simp add: new_refresh_session_def create_refresh_session_def)

lemma refresh_session_row_fields [simp]:
  "live (refresh_session_row cfg dr rq uid f)" "rs_id (refresh_session_row cfg dr rq uid f) = dr_session_id dr"
  "rs_family_id (refresh_session_row cfg dr rq uid None) = dr_family_id dr"
  "g \<noteq> [] \<Longrightarrow> rs_family_id (refresh_session_row cfg dr rq uid (Some g)) = g"
  by (auto simp: refresh_session_row_def live_def or_none_def split: list.splits)

lemma opened_effect:
  assumes "new_family dr db" and "au_sessions db' = au_sessions db"
  shows "session_effect (au_sessions db) (au_sessions (snd (commit reply db (new_refresh_session cfg dr rq uid None db'))))"
proof (rule commit_effect(1))
  assume fits: "db_fits (new_refresh_session cfg dr rq uid None db')"
  then show "session_effect (au_sessions db) (au_sessions (new_refresh_session cfg dr rq uid None db'))"
    using assms by (auto simp: new_family_def db_fits_def unique_columns_def intro!: session_effect.opened)
qed

lemma login_effect:
  assumes "new_family dr db"
  shows "session_effect (au_sessions db) (au_sessions (snd (login cfg dr rq name pw db)))"
  by (auto simp: login_def Let_def intro!: commit_effect opened_effect[OF assms] split: option.splits prod.splits bool.splits)

lemma otp_login_effect:
  assumes "new_family dr db"
  shows "session_effect (au_sessions db) (au_sessions (snd (otp_login_current cfg dr rq cur db)))"
proof -
  have consumed: "au_sessions db1 = au_sessions db" if "consume_one_time_token i t ip ua db = (won, db1)" for i t ip ua won db1
    using sessions_of_audit(5)[of i t ip ua db] that by simp
  show ?thesis
    by (auto simp: otp_login_current_def reject_otp_login_def Let_def consumed
        intro!: commit_effect opened_effect[OF assms] split: option.splits prod.splits bool.splits)
qed

lemma otp_create_effect: "session_effect (au_sessions db) (au_sessions (snd (otp_create cfg dr rq name label admin db)))"
proof -
  have created: "au_sessions db1 = au_sessions db" if "create_one_time_token i v c l h t e db = (row, db1)" for i v c l h t e row db1
    using sessions_of_audit(6)[of i v c l h t e db] that by simp
  show ?thesis
    by (auto simp: otp_create_def created intro!: commit_effect split: option.splits prod.splits)
qed

lemma logout_effect: "session_effect (au_sessions db) (au_sessions (snd (logout cfg dr rq user db)))"
  by (auto simp: logout_def Let_def intro!: commit_effect session_effect.revoked split: option.splits)

lemma logout_all_effect: "session_effect (au_sessions db) (au_sessions (snd (logout_all cfg dr rq vis user db)))"
proof -
  have "session_effect (au_sessions db) (au_sessions (revoke_active_refresh_sessions_by_user uid vis t db))" for uid t
    by (simp add: revoke_active_refresh_sessions_by_user_def revoke_where_effect)
  then show ?thesis by (auto simp: logout_all_def Let_def intro!: commit_effect split: option.splits)
qed

text \<open>A rotation takes a live row of the session that was read, and opens its successor in the same family.\<close>

definition known :: "auth_db \<Rightarrow> refresh_session \<Rightarrow> bool" where
  "known db cur \<longleftrightarrow> rs_family_id cur \<noteq> [] \<and> (\<exists>s \<in> set (au_sessions db). rs_id s = rs_id cur \<and> rs_family_id s = rs_family_id cur)"

lemma rotation_effect:
  assumes "revoke_refresh_session (rs_id cur) t (Some r) m db = (True, db1)"
    and "known db cur" and "distinct (map rs_id (au_sessions db))"
    and "db_fits (audit_refresh_event cfg dr rq ok uid' name reason err (new_refresh_session cfg dr rq uid (Some (rs_family_id cur)) db1))"
  shows "session_effect (au_sessions db) (au_sessions db1 @ [refresh_session_row cfg dr rq uid (Some (rs_family_id cur))])"
proof -
  let ?s = "refresh_session_row cfg dr rq uid (Some (rs_family_id cur))"
  have ids: "distinct (map rs_id (au_sessions db1 @ [?s]))"
    using assms(4) by (simp add: db_fits_def unique_columns_def)
  have db1: "au_sessions db1 = map (revoke_one (rs_id cur) t (Some r) m) (au_sessions db)"
    using revoke_one_simps(1)[of "rs_id cur" t "Some r" m db] assms(1) by simp
  have "list_ex (\<lambda>s. rs_id s = rs_id cur \<and> live s) (au_sessions db)"
    using assms(1) by (simp add: revoke_refresh_session_def)
  then obtain old where old: "old \<in> set (au_sessions db)" "rs_id old = rs_id cur" "live old" by (auto simp: list_ex_iff)
  obtain k where k: "k \<in> set (au_sessions db)" "rs_id k = rs_id cur" "rs_family_id k = rs_family_id cur" "rs_family_id cur \<noteq> []"
    using assms(2) by (auto simp: known_def)
  have "k = old" using assms(3) old k by (auto simp: distinct_map inj_on_def)
  have "map rs_id (map (revoke_one (rs_id cur) t (Some r) m) (au_sessions db)) = map rs_id (au_sessions db)"
    using revoke_one_simps(2)[of "rs_id cur" t "Some r" m] by (simp add: revokes_def)
  then have "distinct (map rs_id (au_sessions db @ [?s]))"
    using ids unfolding db1 by (metis map_append)
  from session_effect.rotated[OF revoke_one_simps(2) old(1,3) revoke_one_simps(3)[OF old(2)] _ this] k \<open>k = old\<close>
  show ?thesis by (simp add: db1)
qed

lemma refresh_effect:
  assumes "\<And>c. cur = Some c \<Longrightarrow> known db c" and "distinct (map rs_id (au_sessions db))"
  shows "session_effect (au_sessions db) (au_sessions (snd (refresh_current cfg dr rq vis cur db)))"
proof -
  have revoke: "session_effect (au_sessions db) (au_sessions (revoke_refresh_family f v t db))" for f v t
    by (simp add: revoke_refresh_family_def revoke_where_effect)
  show ?thesis
    by (auto simp: refresh_current_def reject_refresh_def Let_def
        intro!: commit_effect revoke session_effect.revoked split: option.splits prod.splits bool.splits)
      (rule rotation_effect[OF _ assms], assumption+)+
qed

section \<open>At most one live session in a family\<close>

definition live_families :: "refresh_session list \<Rightarrow> string list" where
  "live_families ss = map rs_family_id (filter live ss)"

lemma set_live_families: "set (live_families ss) = {rs_family_id s |s. s \<in> set ss \<and> live s}"
  by (auto simp: live_families_def)

lemma revokes_live_families:
  assumes "revokes f" and "distinct (live_families ss)"
  shows "distinct (live_families (map f ss))" and "set (live_families (map f ss)) \<subseteq> set (live_families ss)"
proof -
  have f: "rs_family_id (f s) = rs_family_id s" "live (f s) \<Longrightarrow> live s" for s
    using assms(1) by (auto simp: revokes_def)
  show "set (live_families (map f ss)) \<subseteq> set (live_families ss)"
    using f by (fastforce simp: set_live_families)
  show "distinct (live_families (map f ss))" using assms(2)
  proof (induction ss)
    case (Cons s ss)
    have "set (live_families (map f ss)) \<subseteq> set (live_families ss)"
      using f by (fastforce simp: set_live_families)
    with Cons show ?case using f(1) f(2)[of s] by (cases "live s"; cases "live (f s)") (auto simp: live_families_def)
  qed (simp add: live_families_def)
qed

definition sessions_inv :: "refresh_session list \<Rightarrow> bool" where
  "sessions_inv ss \<longleftrightarrow> distinct (map rs_id ss) \<and> distinct (live_families ss) \<and> (\<forall>s \<in> set ss. rs_family_id s \<noteq> [])"

lemma live_families_snoc: "live_families (ss @ [s]) = live_families ss @ (if live s then [rs_family_id s] else [])"
  by (simp add: live_families_def)

lemma session_effect_inv:
  assumes "session_effect ss ss'" and "sessions_inv ss"
  shows "sessions_inv ss'"
  using assms
proof (induction rule: session_effect.induct)
  case (revoked f ss)
  then have ids: "map rs_id (map f ss) = map rs_id ss" by (simp add: revokes_def)
  show ?case using revokes_live_families[OF revoked(1)] revoked unfolding sessions_inv_def ids
    by (auto simp: revokes_def)
next
  case (opened ss s)
  then show ?case by (auto simp: sessions_inv_def live_families_snoc set_live_families)
next
  case (rotated f old ss s)
  have inj: "x = y" if "x \<in> set ss" "y \<in> set ss" "live x" "live y" "rs_family_id x = rs_family_id y" for x y
  proof -
    have "inj_on rs_family_id (set (filter live ss))"
      using rotated by (simp add: sessions_inv_def live_families_def distinct_map)
    then show ?thesis using that by (auto simp: inj_on_def)
  qed
  have "rs_family_id old \<notin> set (live_families (map f ss))"
  proof
    assume "rs_family_id old \<in> set (live_families (map f ss))"
    then obtain x where x: "x \<in> set ss" "live (f x)" "rs_family_id (f x) = rs_family_id old" by (auto simp: set_live_families)
    then have "live x" "rs_family_id x = rs_family_id old" using rotated(1) by (auto simp: revokes_def)
    with inj[OF x(1) rotated(2) _ rotated(3)] x(2) rotated(4) show False by simp
  qed
  moreover have ids: "map rs_id (map f ss @ [s]) = map rs_id (ss @ [s])" using rotated(1) by (simp add: revokes_def)
  moreover have "rs_family_id old \<noteq> []" "\<forall>x \<in> set (map f ss). rs_family_id x \<noteq> []"
    using rotated by (auto simp: sessions_inv_def revokes_def)
  ultimately show ?case using revokes_live_families(1)[OF rotated(1)] rotated(5,6,7)
    unfolding sessions_inv_def ids by (auto simp: live_families_snoc)
qed

text \<open>Rows stay, with their families.\<close>

lemma session_effect_known:
  assumes "session_effect ss ss'" and "s \<in> set ss"
  shows "\<exists>s' \<in> set ss'. rs_id s' = rs_id s \<and> rs_family_id s' = rs_family_id s \<and> (\<not> live s \<longrightarrow> s' = s)"
  using assms by (induction rule: session_effect.induct) (auto simp: revokes_def)

text \<open>Every request has one of the effects, so the invariant holds in every reachable state.\<close>

fun inflight_ok :: "auth_db \<Rightarrow> inflight \<Rightarrow> bool" where
  "inflight_ok db (Refreshing (Some cur) vis) \<longleftrightarrow> known db cur"
| "inflight_ok db _ \<longleftrightarrow> True"

definition portal_inv :: "portal \<Rightarrow> bool" where
  "portal_inv st \<longleftrightarrow> sessions_inv (au_sessions (fst st)) \<and> (\<forall>r \<in># snd st. inflight_ok (fst st) r)"

lemma known_keeps: "session_effect (au_sessions db) (au_sessions db') \<Longrightarrow> known db cur \<Longrightarrow> known db' cur"
  by (auto simp: known_def dest: session_effect_known)

lemma inflight_ok_keeps:
  "session_effect (au_sessions db) (au_sessions db') \<Longrightarrow> inflight_ok db r \<Longrightarrow> inflight_ok db' r"
  by (induction db r rule: inflight_ok.induct) (auto intro: known_keeps)

lemma portal_step_effect:
  assumes "portal_step cfg st st'" and "portal_inv st"
  shows "session_effect (au_sessions (fst st)) (au_sessions (fst st'))"
  using assms
  by (induction rule: portal_step.induct)
     (auto intro!: login_effect otp_create_effect logout_effect refresh_effect logout_all_effect otp_login_effect
      simp: portal_inv_def sessions_inv_def)

lemma read_known:
  assumes "sessions_inv (au_sessions db)" and "get_refresh_session_by_token_hash db h = Some cur"
  shows "known db cur"
  using assms by (auto simp: get_refresh_session_by_token_hash_def find_Some_iff known_def sessions_inv_def)

lemma read_ok: "sessions_inv (au_sessions db) \<Longrightarrow> inflight_ok db (Refreshing (get_refresh_session_by_token_hash db h) vis)"
  by (cases "get_refresh_session_by_token_hash db h") (auto dest: read_known)

lemma portal_step_inv:
  assumes "portal_step cfg st st'" and "portal_inv st"
  shows "portal_inv st'"
proof -
  have "sessions_inv (au_sessions (fst st'))"
    using session_effect_inv[OF portal_step_effect[OF assms]] assms(2) by (simp add: portal_inv_def)
  moreover have "inflight_ok (fst st') r" if "r \<in># snd st'" for r
  proof (cases "r \<in># snd st")
    case True
    then show ?thesis using inflight_ok_keeps[OF portal_step_effect[OF assms]] assms(2) by (simp add: portal_inv_def)
  next
    case False
    with assms that show ?thesis
      by (cases rule: portal_step.cases)
         (auto simp: portal_inv_def read_ok elim: inflight_ok.elims)
  qed
  ultimately show ?thesis by (simp add: portal_inv_def)
qed

lemma portal_reachable_inv: "portal_reachable cfg st \<Longrightarrow> portal_inv st"
proof (induction rule: portal_reachable.induct)
  case (start db)
  then show ?case by (simp add: portal_inv_def portal_start_def sessions_inv_def live_families_def)
next
  case (step st st')
  then show ?case by (blast intro: portal_step_inv)
qed

section \<open>Credentials are spent once\<close>

text \<open>
  What a store of single-use credentials promises: only an unspent credential is claimed, claiming spends
  it, and nothing the store does makes it unspent again. Then no credential is claimed twice.
\<close>

locale single_use =
  fixes spent :: "'db \<Rightarrow> string \<Rightarrow> bool"
    and claim :: "'a \<Rightarrow> string \<Rightarrow> 'db \<Rightarrow> bool \<times> 'db"
    and evolves :: "'db \<Rightarrow> 'db \<Rightarrow> bool"
  assumes claim_unspent: "fst (claim a i db) \<Longrightarrow> \<not> spent db i"
    and claim_spends: "fst (claim a i db) \<Longrightarrow> spent (snd (claim a i db)) i"
    and stays_spent: "evolves db db' \<Longrightarrow> spent db i \<Longrightarrow> spent db' i"
begin

lemma stays_spent_rtrancl: "evolves\<^sup>*\<^sup>* db db' \<Longrightarrow> spent db i \<Longrightarrow> spent db' i"
  by (induction rule: rtranclp_induct) (auto intro: stays_spent)

lemma claimed_once:
  assumes "fst (claim a i db)" and "evolves\<^sup>*\<^sup>* (snd (claim a i db)) db'"
  shows "\<not> fst (claim b i db')"
  using stays_spent_rtrancl[OF assms(2) claim_spends[OF assms(1)]] claim_unspent by blast

end

definition session_spent :: "auth_db \<Rightarrow> string \<Rightarrow> bool" where
  "session_spent db i \<longleftrightarrow> (\<exists>s \<in> set (au_sessions db). rs_id s = i) \<and> (\<forall>s \<in> set (au_sessions db). rs_id s = i \<longrightarrow> \<not> live s)"

definition claim_session :: "int \<times> string option \<times> (string \<times> string) option \<Rightarrow> string \<Rightarrow> auth_db \<Rightarrow> bool \<times> auth_db" where
  "claim_session a i db = (case a of (t, r, m) \<Rightarrow> revoke_refresh_session i t r m db)"

definition sessions_evolve :: "auth_db \<Rightarrow> auth_db \<Rightarrow> bool" where
  "sessions_evolve db db' \<longleftrightarrow> session_effect (au_sessions db) (au_sessions db')"

lemma session_effect_spent:
  assumes "session_effect ss ss'" and "\<exists>s \<in> set ss. rs_id s = i" and "\<forall>s \<in> set ss. rs_id s = i \<longrightarrow> \<not> live s"
  shows "(\<exists>s \<in> set ss'. rs_id s = i) \<and> (\<forall>s \<in> set ss'. rs_id s = i \<longrightarrow> \<not> live s)"
  using assms by (induction rule: session_effect.induct) (auto simp: revokes_def)

interpretation refresh_tokens: single_use session_spent claim_session sessions_evolve
proof
  fix a :: "int \<times> string option \<times> (string \<times> string) option" and i db
  obtain t r m where a: "a = (t, r, m)" by (cases a)
  assume "fst (claim_session a i db)"
  then have won: "\<exists>s \<in> set (au_sessions db). rs_id s = i \<and> live s"
    by (auto simp: claim_session_def a revoke_refresh_session_def list_ex_iff)
  then show "\<not> session_spent db i" by (auto simp: session_spent_def)
  have "rs_id (revoke_one i t r m s) = rs_id s" for s
    using revoke_one_simps(2)[of i t r m] by (simp add: revokes_def)
  then show "session_spent (snd (claim_session a i db)) i"
    using won by (auto simp: session_spent_def claim_session_def a)
next
  fix db db' i
  assume "sessions_evolve db db'" "session_spent db i"
  then show "session_spent db' i" using session_effect_spent by (auto simp: sessions_evolve_def session_spent_def)
qed

text \<open>One-time tokens: a claim is the conditional update of \<open>consume_one_time_token\<close>.\<close>

definition spent_token :: "one_time_token \<Rightarrow> bool" where
  "spent_token t \<longleftrightarrow> ot_used_at t \<noteq> None \<or> ot_revoked_at t \<noteq> None"

definition spends :: "(one_time_token \<Rightarrow> one_time_token) \<Rightarrow> bool" where
  "spends f \<longleftrightarrow> (\<forall>t. ot_id (f t) = ot_id t \<and> (spent_token t \<longrightarrow> spent_token (f t)))"

inductive token_effect :: "one_time_token list \<Rightarrow> one_time_token list \<Rightarrow> bool" where
  redeemed: "spends f \<Longrightarrow> token_effect ts (map f ts)"
| issued: "distinct (map ot_id (ts @ [t])) \<Longrightarrow> token_effect ts (ts @ [t])"

lemma same_token_effect [simp]: "token_effect ts ts"
  using token_effect.redeemed[of "\<lambda>t. t" ts] by (simp add: spends_def)

definition token_spent :: "auth_db \<Rightarrow> string \<Rightarrow> bool" where
  "token_spent db i \<longleftrightarrow> (\<exists>t \<in> set (au_tokens db). ot_id t = i) \<and>
     (\<forall>t \<in> set (au_tokens db). ot_id t = i \<longrightarrow> spent_token t)"

definition claim_token :: "int \<times> string \<times> string \<Rightarrow> string \<Rightarrow> auth_db \<Rightarrow> bool \<times> auth_db" where
  "claim_token a i db = (case a of (now, ip, ua) \<Rightarrow> consume_one_time_token i now ip ua db)"

definition tokens_evolve :: "auth_db \<Rightarrow> auth_db \<Rightarrow> bool" where
  "tokens_evolve db db' \<longleftrightarrow> token_effect (au_tokens db) (au_tokens db')"

lemma token_effect_spent:
  assumes "token_effect ts ts'" and "\<exists>t \<in> set ts. ot_id t = i" and "\<forall>t \<in> set ts. ot_id t = i \<longrightarrow> spent_token t"
  shows "(\<exists>t \<in> set ts'. ot_id t = i) \<and> (\<forall>t \<in> set ts'. ot_id t = i \<longrightarrow> spent_token t)"
  using assms by (induction rule: token_effect.induct) (auto simp: spends_def)

definition consume_one :: "string \<Rightarrow> int \<Rightarrow> string \<Rightarrow> string \<Rightarrow> one_time_token \<Rightarrow> one_time_token" where
  "consume_one i now ip ua t = (if unspent i t
     then t\<lparr>ot_used_at := Some now, ot_used_ip := Some ip, ot_used_user_agent := Some ua\<rparr> else t)"

lemma consume_tokens [simp]:
  "au_tokens (snd (consume_one_time_token i now ip ua db)) = map (consume_one i now ip ua) (au_tokens db)"
  "fst (consume_one_time_token i now ip ua db) = list_ex (unspent i) (au_tokens db)"
  "spends (consume_one i now ip ua)" "ot_id (consume_one i now ip ua t) = ot_id t"
  "ot_id t = i \<Longrightarrow> spent_token (consume_one i now ip ua t)"
  by (auto simp: consume_one_time_token_def consume_one_def spends_def spent_token_def unspent_def)

interpretation one_time_tokens: single_use token_spent claim_token tokens_evolve
proof
  fix a :: "int \<times> string \<times> string" and i db
  obtain now ip ua where a: "a = (now, ip, ua)" by (cases a)
  assume "fst (claim_token a i db)"
  then have won: "\<exists>t \<in> set (au_tokens db). ot_id t = i \<and> \<not> spent_token t"
    by (auto simp: claim_token_def a list_ex_iff unspent_def spent_token_def)
  then show "\<not> token_spent db i" by (auto simp: token_spent_def)
  show "token_spent (snd (claim_token a i db)) i"
    using won by (auto simp: token_spent_def claim_token_def a)
next
  fix db db' i
  assume "tokens_evolve db db'" "token_spent db i"
  then show "token_spent db' i" using token_effect_spent by (auto simp: tokens_evolve_def token_spent_def)
qed

lemma tokens_kept [simp]:
  "au_tokens (record_audit_event cfg dr rq args db) = au_tokens db"
  "au_tokens (audit_refresh_event cfg dr rq ok uid name reason err db) = au_tokens db"
  "au_tokens (audit_login_event cfg dr rq m ok uid name reason db) = au_tokens db"
  "au_tokens (save_user u db) = au_tokens db"
  "au_tokens (new_refresh_session cfg dr rq v f db) = au_tokens db"
  "au_tokens (revoke_where p vis t db) = au_tokens db"
  "au_tokens (snd (revoke_refresh_session i t r ip_ua db)) = au_tokens db"
  by (simp_all add: record_audit_event_def audit_refresh_event_def audit_login_event_def create_login_event_def
      save_user_def new_refresh_session_def create_refresh_session_def revoke_where_def revoke_refresh_session_def Let_def
      split: prod.splits)

lemma commit_tokens:
  assumes "db_fits db' \<Longrightarrow> token_effect (au_tokens db) (au_tokens db')"
  shows "token_effect (au_tokens db) (au_tokens (snd (commit reply db db')))"
    and "token_effect (au_tokens db) (au_tokens (snd (commit_quietly reply db db')))"
  using assms by (simp_all add: commit_def commit_quietly_def)

lemma login_tokens: "token_effect (au_tokens db) (au_tokens (snd (login cfg dr rq name pw db)))"
  by (auto simp: login_def Let_def intro!: commit_tokens split: option.splits prod.splits bool.splits)

lemma logout_tokens: "token_effect (au_tokens db) (au_tokens (snd (logout cfg dr rq user db)))"
  by (auto simp: logout_def Let_def intro!: commit_tokens split: option.splits)

lemma logout_all_tokens: "token_effect (au_tokens db) (au_tokens (snd (logout_all cfg dr rq vis user db)))"
  by (auto simp: logout_all_def revoke_active_refresh_sessions_by_user_def Let_def intro!: commit_tokens split: option.splits)

lemma refresh_tokens_kept: "token_effect (au_tokens db) (au_tokens (snd (refresh_current cfg dr rq vis cur db)))"
proof -
  have "au_tokens db1 = au_tokens db" if "revoke_refresh_session i t r ip_ua db = (won, db1)" for i t r ip_ua won db1
    using tokens_kept(7)[of i t r ip_ua db] that by simp
  then show ?thesis
    by (auto simp: refresh_current_def reject_refresh_def revoke_refresh_family_def Let_def
        intro!: commit_tokens split: option.splits prod.splits bool.splits)
qed

lemma otp_create_tokens: "token_effect (au_tokens db) (au_tokens (snd (otp_create cfg dr rq name label admin db)))"
  by (auto simp: otp_create_def create_one_time_token_def Let_def db_fits_def unique_columns_def
      intro!: commit_tokens token_effect.issued split: option.splits prod.splits)

lemma otp_login_tokens: "token_effect (au_tokens db) (au_tokens (snd (otp_login_current cfg dr rq cur db)))"
proof -
  have "au_tokens db1 = map (consume_one i now ip ua) (au_tokens db)"
    if "consume_one_time_token i now ip ua db = (won, db1)" for i now ip ua won db1
    using consume_tokens(1)[of i now ip ua db] that by simp
  then show ?thesis
    by (auto simp: otp_login_current_def reject_otp_login_def Let_def
        intro!: commit_tokens token_effect.redeemed split: option.splits prod.splits bool.splits)
qed

lemma portal_step_tokens: "portal_step cfg st st' \<Longrightarrow> tokens_evolve (fst st) (fst st')"
  by (induction rule: portal_step.induct)
     (simp_all add: tokens_evolve_def login_tokens logout_tokens logout_all_tokens refresh_tokens_kept
       otp_create_tokens otp_login_tokens)

lemma portal_steps_evolve:
  assumes "(portal_step cfg)\<^sup>*\<^sup>* st st'" and "portal_inv st"
  shows "sessions_evolve\<^sup>*\<^sup>* (fst st) (fst st') \<and> tokens_evolve\<^sup>*\<^sup>* (fst st) (fst st') \<and> portal_inv st'"
  using assms(1)
proof (induction rule: rtranclp_induct)
  case (step st1 st2)
  then have "sessions_evolve (fst st1) (fst st2)" "tokens_evolve (fst st1) (fst st2)" "portal_inv st2"
    using portal_step_effect portal_step_tokens portal_step_inv by (auto simp: sessions_evolve_def)
  with step show ?case by (auto intro: rtranclp.rtrancl_into_rtrancl)
qed (simp add: assms(2))

end
