(* ===== verification/Auth_Properties.thy ===== *)
theory Auth_Properties
  imports Auth_Interleaving
begin

text \<open>What the portal's sessions guarantee under concurrent requests, and where they do not.\<close>

section \<open>Requests that fit their columns succeed\<close>

text \<open>The audit trail's rows fit, are numbered up to the head, and the next one fits when the request does.\<close>

definition audit_sound :: "audit_db \<Rightarrow> bool" where
  "audit_sound a \<longleftrightarrow> list_all event_fits (ad_events a) \<and> distinct (map ae_id (ad_events a)) \<and>
     distinct (map ae_seq (ad_events a)) \<and> (\<forall>e \<in> set (ad_events a). ae_seq e \<le> ch_seq (locked_head a)) \<and>
     fits 64 (ch_head_hash (locked_head a))"

text \<open>What has to fit: the request id, the client's address, and the ids and hashes drawn for the request.\<close>

definition request_fits :: "auth_config \<Rightarrow> draws \<Rightarrow> http_request \<Rightarrow> bool" where
  "request_fits cfg dr rq \<longleftrightarrow> (\<forall>s. length (cf_digest cfg s) \<le> 64) \<and> length (request_id (dr_request_id dr) rq) \<le> 64 \<and>
     length (dr_audit_id dr) \<le> 36 \<and> length (dr_login_id dr) \<le> 36 \<and> length (dr_session_id dr) \<le> 36 \<and>
     length (dr_family_id dr) \<le> 36 \<and> length (cf_token_hash cfg (dr_refresh_token dr)) \<le> 64 \<and>
     fits 64 (rq_client_host rq)"

definition request_fresh :: "auth_config \<Rightarrow> draws \<Rightarrow> auth_db \<Rightarrow> bool" where
  "request_fresh cfg dr db \<longleftrightarrow> dr_audit_id dr \<notin> ae_id ` set (ad_events (au_audit db)) \<and>
     dr_login_id dr \<notin> le_id ` set (au_logins db) \<and> dr_session_id dr \<notin> rs_id ` set (au_sessions db) \<and>
     cf_token_hash cfg (dr_refresh_token dr) \<notin> rs_token_hash ` set (au_sessions db)"

definition db_sound :: "auth_db \<Rightarrow> bool" where
  "db_sound db \<longleftrightarrow> db_fits db \<and> audit_sound (au_audit db)"

lemma audit_row_unlinked [simp]:
  "(audit_row rid uuid now request args)\<lparr>ae_prev_event_hash := None, ae_event_hash := None\<rparr> = audit_row rid uuid now request args"
  by (simp add: audit_row_def Let_def split: prod.splits)

lemma audit_row_id [simp]: "ae_id (audit_row rid uuid now request args) = uuid"
  by (simp add: audit_row_def Let_def split: prod.splits)

lemma write_audit_sound:
  assumes sound: "audit_sound a" and uuid: "uuid \<notin> ae_id ` set (ad_events a)" "length uuid \<le> 36"
    and "\<And>s. length (digest s) \<le> 64" "length rid \<le> 64" "fits 64 (rq_client_host rq)"
    and "fits 64 (ac_username (aa_actor args))" "aa_operation_id args = None"
  shows "audit_sound (snd (write_audit_event digest rid uuid now (Some rq) args a))"
proof -
  let ?row = "audit_row rid uuid now (Some rq) args"
  let ?r = "fst (link_event digest ?row a)" and ?a = "snd (link_event digest ?row a)"
  have fits: "event_fits ?r" using assms linked_event_fits[of digest ?row a]
    by (simp add: audit_row_fits audit_sound_def)
  have events: "ad_events ?a = ad_events a @ [?r]" "ae_id ?r = uuid" "ae_seq ?r = ch_seq (locked_head a) + 1"
      "ch_seq (locked_head ?a) = ch_seq (locked_head a) + 1" "fits 64 (ch_head_hash (locked_head ?a))"
    using assms(4) by (simp_all add: link_event_def Let_def locked_head_def[of "a\<lparr>ad_events := es, ad_head := Some h\<rparr>" for es h] sign_event_def)
  have "ae_seq e < ch_seq (locked_head a) + 1" if "e \<in> set (ad_events a)" for e
    using sound that by (auto simp: audit_sound_def)
  then show ?thesis using sound fits uuid(1) unfolding write_audit_event_def
    by (fastforce simp: audit_sound_def events image_iff)
qed

lemma fits_username:
  assumes "db_fits db" and "u \<in> set (au_users db)"
  shows "length (us_username u) \<le> 64"
  using assms by (auto simp: db_fits_def list_all_iff user_fits_def)

lemma client_meta_fits:
  "fits 64 (rq_client_host rq) \<Longrightarrow> length (fst (client_meta rq)) \<le> 64" "length (snd (client_meta rq)) \<le> 256"
  by (auto simp: client_meta_def text_or_def or_empty_def fits_def split: option.splits)

lemma audit_event_sound:
  assumes "db_sound db" and "request_fits cfg dr rq" and "dr_audit_id dr \<notin> ae_id ` set (ad_events (au_audit db))"
    and "fits 64 (ac_username (aa_actor args))" and "aa_operation_id args = None"
  shows "db_sound (record_audit_event cfg dr rq args db)"
proof -
  have "audit_sound (snd (write_audit_event (cf_digest cfg) (request_id (dr_request_id dr) rq) (dr_audit_id dr)
      (dr_audit_time dr) (Some rq) args (au_audit db)))"
    using assms by (intro write_audit_sound) (auto simp: db_sound_def request_fits_def)
  then show ?thesis using assms(1)
    by (simp add: db_sound_def record_audit_event_def db_fits_def unique_columns_def audit_sound_def)
qed

lemma login_event_sound:
  assumes "db_sound db" and "request_fits cfg dr rq" and "request_fresh cfg dr db"
    and "fits 64 name" and "length m \<le> 16"
  shows "db_sound (audit_login_event cfg dr rq m ok uid name reason db)"
proof -
  let ?db = "create_login_event (dr_login_id dr) uid name m ok (fst (client_meta rq)) (snd (client_meta rq)) (dr_login_time dr) db"
  have "db_sound ?db" using assms client_meta_fits[of rq]
    by (auto simp: db_sound_def create_login_event_def db_fits_def unique_columns_def login_fits_def request_fits_def
        request_fresh_def)
  moreover have "dr_audit_id dr \<notin> ae_id ` set (ad_events (au_audit ?db))"
    using assms(3) by (simp add: request_fresh_def create_login_event_def)
  ultimately show ?thesis using assms(2,4)
    by (auto simp: audit_login_event_def Let_def audit_actor_def split: prod.splits intro!: audit_event_sound)
qed

lemma session_sound:
  assumes "db_sound db" and "request_fits cfg dr rq" and "fits 36 f"
    and "dr_session_id dr \<notin> rs_id ` set (au_sessions db)"
    and "cf_token_hash cfg (dr_refresh_token dr) \<notin> rs_token_hash ` set (au_sessions db)"
  shows "db_sound (new_refresh_session cfg dr rq uid f db)"
proof -
  have "length (case or_none f of None \<Rightarrow> dr_family_id dr | Some g \<Rightarrow> g) \<le> 36"
    using assms(2,3) by (auto simp: request_fits_def or_none_def split: option.splits list.splits)
  then have "session_fits (refresh_session_row cfg dr rq uid f)"
    using assms(2) client_meta_fits[of rq] by (auto simp: session_fits_def refresh_session_row_def request_fits_def)
  moreover have "rs_token_hash (refresh_session_row cfg dr rq uid f) = cf_token_hash cfg (dr_refresh_token dr)"
    by (simp add: refresh_session_row_def)
  ultimately show ?thesis using assms
    by (simp add: new_refresh_session_def create_refresh_session_def db_sound_def db_fits_def unique_columns_def)
qed

lemma save_user_sound:
  assumes "db_sound db" and "get_user_by_username db name = Some u0 \<or> get_user_by_id db uid = Some u0"
    and "us_id u = us_id u0" "us_username u = us_username u0" "user_fits u"
  shows "db_sound (save_user u db)"
proof -
  have u0: "u0 \<in> set (au_users db)"
    using assms(2) by (auto simp: get_user_by_username_def get_user_by_id_def find_Some_iff)
  have ids: "inj_on us_id (set (au_users db))" using assms(1) by (simp add: db_sound_def db_fits_def unique_columns_def distinct_map)
  let ?f = "\<lambda>v. if us_id v = us_id u then u else v"
  have "map us_id (map ?f (au_users db)) = map us_id (au_users db)" by simp
  moreover have "map us_username (map ?f (au_users db)) = map us_username (au_users db)"
    using u0 ids assms(3,4) by (auto simp: inj_on_def)
  moreover have "list_all user_fits (map ?f (au_users db))"
    using assms(1,5) by (auto simp: db_sound_def db_fits_def list_all_iff)
  ultimately show ?thesis using assms(1)
    unfolding save_user_def db_sound_def db_fits_def unique_columns_def by (simp del: map_map)
qed

lemma revoke_one_fields [simp]:
  "rs_id (revoke_one i t r m s) = rs_id s" "rs_token_hash (revoke_one i t r m s) = rs_token_hash s"
  by (auto simp: revoke_one_def split: option.splits)

lemma revoke_sound:
  assumes "db_sound db" and "fits 36 r" and "\<And>ip ua. m = Some (ip, ua) \<Longrightarrow> length ip \<le> 64 \<and> length ua \<le> 256"
  shows "db_sound (snd (revoke_refresh_session i t r m db))"
proof -
  have "map rs_id (map (revoke_one i t r m) (au_sessions db)) = map rs_id (au_sessions db)"
    "map rs_token_hash (map (revoke_one i t r m) (au_sessions db)) = map rs_token_hash (au_sessions db)"
    by simp_all
  moreover have "list_all session_fits (map (revoke_one i t r m) (au_sessions db))"
    using assms by (auto simp: db_sound_def db_fits_def list_all_iff revoke_one_def session_fits_def split: option.splits)
  moreover have "snd (revoke_refresh_session i t r m db) = db\<lparr>au_sessions := map (revoke_one i t r m) (au_sessions db)\<rparr>"
    by (simp add: revoke_refresh_session_def revoke_one_def)
  ultimately show ?thesis using assms(1) by (simp add: db_sound_def db_fits_def unique_columns_def del: map_map)
qed

lemma same_hash [simp]: "u\<lparr>us_password_hash := us_password_hash u\<rparr> = u"
  by (cases u) simp

lemma login_granted:
  assumes sound: "db_sound db" and rq: "request_fits cfg dr rq" "request_fresh cfg dr db"
    and user: "cf_login_allowed cfg rq (canonicalize_username name)"
      "get_user_by_username db (canonicalize_username name) = Some u" "us_is_active u"
      "cf_verify cfg pw (us_password_hash u) = (True, None)"
  shows "\<exists>u' db'. login cfg dr rq name pw db = (Granted (dr_refresh_token dr) (dr_csrf dr) u', db') \<and> db_sound db' \<and>
    au_sessions db' = au_sessions db @ [refresh_session_row cfg dr rq (us_id u) None] \<and>
    au_users db' = map (\<lambda>v. if us_id v = us_id u then u\<lparr>us_failed_login_count := 0, us_last_login_at := Some (dr_now dr)\<rparr> else v) (au_users db)"
proof -
  have "u \<in> set (au_users db)" using user(2) by (auto simp: get_user_by_username_def find_Some_iff)
  then have "user_fits u" using sound by (auto simp: db_sound_def db_fits_def list_all_iff)
  let ?u = "u\<lparr>us_failed_login_count := 0, us_last_login_at := Some (dr_now dr)\<rparr>"
  let ?db1 = "audit_login_event cfg dr rq ''password'' True (Some (us_id u)) (Some (us_username u)) None (save_user ?u db)"
  have "db_sound (save_user ?u db)"
    using sound user(2) \<open>user_fits u\<close> by (intro save_user_sound[of db _ u]) (auto simp: user_fits_def)
  moreover have "request_fresh cfg dr (save_user ?u db)" using rq(2) by (simp add: request_fresh_def save_user_def)
  ultimately have "db_sound ?db1" using rq(1) \<open>user_fits u\<close> by (intro login_event_sound) (auto simp: user_fits_def)
  then have fits: "db_sound (new_refresh_session cfg dr rq (us_id u) None ?db1)"
    using rq by (intro session_sound) (auto simp: request_fresh_def)
  have "au_users ?db1 = map (\<lambda>v. if us_id v = us_id u then ?u else v) (au_users db)"
    by (simp add: audit_login_event_def record_audit_event_def create_login_event_def save_user_def Let_def split: prod.splits)
  moreover have "login cfg dr rq name pw db =
      commit (Granted (dr_refresh_token dr) (dr_csrf dr) ?u) db (new_refresh_session cfg dr rq (us_id u) None ?db1)"
    using user by (simp add: login_def Let_def)
  ultimately show ?thesis using fits
    by (simp add: commit_def db_sound_def new_refresh_session_def create_refresh_session_def)
qed

lemma refresh_granted:
  assumes sound: "db_sound db" and rq: "request_fits cfg dr rq" "request_fresh cfg dr db"
    and cur: "cur \<in> set (au_sessions db)" "live cur" "rs_expires_at cur > dr_now dr"
    and user: "get_user_by_id db (rs_user_id cur) = Some u" "us_is_active u"
  shows "\<exists>db'. refresh_current cfg dr rq vis (Some cur) db = (Granted (dr_refresh_token dr) (dr_csrf dr) u, db') \<and> db_sound db' \<and>
    au_sessions db' = map (revoke_one (rs_id cur) (dr_now dr) (Some (dr_session_id dr)) (Some (client_meta rq))) (au_sessions db) @
      [refresh_session_row cfg dr rq (us_id u) (Some (rs_family_id cur))] \<and> au_users db' = au_users db \<and>
    au_logins db' = au_logins db \<and>
    ae_id ` set (ad_events (au_audit db')) = insert (dr_audit_id dr) (ae_id ` set (ad_events (au_audit db)))"
proof -
  have uf: "length (us_username u) \<le> 64"
    using sound user(1) by (auto simp: db_sound_def get_user_by_id_def find_Some_iff intro!: fits_username)
  have "session_fits cur" using sound cur(1) by (auto simp: db_sound_def db_fits_def list_all_iff)
  then have family: "fits 36 (Some (rs_family_id cur))" by (simp add: session_fits_def)
  obtain won db1 where db1: "revoke_refresh_session (rs_id cur) (dr_now dr) (Some (dr_session_id dr)) (Some (client_meta rq)) db = (won, db1)"
    by (cases "revoke_refresh_session (rs_id cur) (dr_now dr) (Some (dr_session_id dr)) (Some (client_meta rq)) db")
  have won: "won" using cur db1 by (auto simp: revoke_refresh_session_def list_ex_iff)
  have s1: "au_sessions db1 = map (revoke_one (rs_id cur) (dr_now dr) (Some (dr_session_id dr)) (Some (client_meta rq))) (au_sessions db)"
    using revoke_one_simps(1)[of "rs_id cur" "dr_now dr" "Some (dr_session_id dr)" "Some (client_meta rq)" db] db1 by simp
  have same: "au_users db1 = au_users db" "au_audit db1 = au_audit db" "au_logins db1 = au_logins db" using db1 by (auto simp: revoke_refresh_session_def)
  have ids: "rs_id ` set (au_sessions db1) = rs_id ` set (au_sessions db)"
      "rs_token_hash ` set (au_sessions db1) = rs_token_hash ` set (au_sessions db)"
    by (simp_all add: s1 image_image)
  let ?db2 = "new_refresh_session cfg dr rq (us_id u) (Some (rs_family_id cur)) db1"
  let ?db3 = "audit_refresh_event cfg dr rq True (Some (us_id u)) (Some (us_username u)) None None ?db2"
  have "db_sound db1"
    using revoke_sound[OF sound, of "Some (dr_session_id dr)" "Some (client_meta rq)" "rs_id cur" "dr_now dr"] db1 rq(1)
      client_meta_fits[of rq] by (cases "client_meta rq") (auto simp: request_fits_def)
  then have "db_sound ?db2" using rq family ids by (intro session_sound) (auto simp: request_fresh_def)
  moreover have "dr_audit_id dr \<notin> ae_id ` set (ad_events (au_audit ?db2))"
    using rq(2) same by (simp add: request_fresh_def new_refresh_session_def create_refresh_session_def)
  ultimately have fits: "db_sound ?db3" unfolding audit_refresh_event_def
    using rq(1) uf by (intro audit_event_sound) (auto simp: audit_actor_def)
  have "au_users ?db3 = au_users db \<and> au_logins ?db3 = au_logins db \<and>
      ae_id ` set (ad_events (au_audit ?db3)) = insert (dr_audit_id dr) (ae_id ` set (ad_events (au_audit db)))"
    by (simp add: audit_refresh_event_def record_audit_event_def new_refresh_session_def create_refresh_session_def same
        write_audit_event_def link_event_def Let_def)
  moreover have "refresh_current cfg dr rq vis (Some cur) db = commit (Granted (dr_refresh_token dr) (dr_csrf dr) u) db ?db3"
    using cur user won by (simp add: refresh_current_def live_def db1)
  ultimately show ?thesis using fits by (simp add: commit_def db_sound_def s1)
qed

lemma revoke_where_sound: "db_sound db \<Longrightarrow> db_sound (revoke_where p vis t db)"
  by (auto simp: db_sound_def db_fits_def unique_columns_def revoke_where_def list_all_iff session_fits_def comp_def
      if_distrib[of rs_id] if_distrib[of rs_token_hash] cong: if_cong)

lemma reject_refresh_refused:
  assumes "db_sound db'" and "request_fits cfg dr rq" and "dr_audit_id dr \<notin> ae_id ` set (ad_events (au_audit db'))"
  shows "fst (reject_refresh cfg dr rq detail db db') = Refused 401 detail"
  using audit_event_sound[OF assms]
  by (simp add: reject_refresh_def commit_def audit_refresh_event_def audit_actor_def db_sound_def)

section \<open>Properties\<close>

subsection \<open>A portal with one user\<close>

definition sample_config :: auth_config where
  "sample_config = \<lparr>cf_digest = (\<lambda>_. ''d''), cf_token_hash = (\<lambda>s. s), cf_verify = (\<lambda>p h. (p = h, None)),
     cf_decode = (\<lambda>_. None), cf_login_allowed = (\<lambda>_ _. True), cf_otp_allowed = (\<lambda>_. True), cf_refresh_ttl = 100,
     cf_otp_ttl = 100, cf_otp_enabled = True\<rparr>"

definition sample_user :: portal_user where
  "sample_user = \<lparr>us_id = 1, us_username = ''ana'', us_password_hash = ''pw'', us_role = ''admin'', us_is_active = True,
     us_last_login_at = None, us_failed_login_count = 0, us_token_version = 1\<rparr>"

definition sample_db :: auth_db where
  "sample_db = \<lparr>au_users = [sample_user], au_sessions = [], au_tokens = [], au_logins = [],
     au_audit = \<lparr>ad_events = [], ad_head = None, ad_checkpoints = []\<rparr>\<rparr>"

definition sample_request :: "string \<Rightarrow> http_request" where
  "sample_request rid = \<lparr>rq_client_host = Some ''h'', rq_headers = [(''x-request-id'', rid)], rq_cookies = [],
     rq_method = ''POST'', rq_path = ''/''\<rparr>"

definition sample_draws :: "int \<Rightarrow> string \<Rightarrow> draws" where
  "sample_draws now n = \<lparr>dr_request_id = ''q'', dr_now = now, dr_login_time = now, dr_audit_time = now, dr_session_time = now,
     dr_login_id = n, dr_audit_id = n, dr_session_id = n, dr_family_id = n, dr_refresh_token = n, dr_csrf = n, dr_otp_id = n,
     dr_otp = n\<rparr>"

lemmas sample_defs = sample_config_def sample_user_def sample_db_def sample_request_def sample_draws_def

lemma sample_name: "canonicalize_username ''ana'' = ''ana''"
  by code_simp

lemma sample_fits: "length n \<le> 36 \<Longrightarrow> request_fits sample_config (sample_draws now n) (sample_request ''r'')"
proof -
  have "request_id ''q'' (sample_request ''r'') = ''r''" by code_simp
  then show "length n \<le> 36 \<Longrightarrow> ?thesis"
    by (simp add: request_fits_def sample_draws_def sample_config_def) (simp add: sample_request_def)
qed

lemma sample_sound: "db_sound sample_db"
  by (simp add: sample_defs db_sound_def db_fits_def unique_columns_def audit_sound_def locked_head_def user_fits_def)

lemma sample_login:
  obtains db u where "portal_reachable sample_config (db, {#})" and "db_sound db"
    and "au_sessions db = [refresh_session_row sample_config (sample_draws 1 ''a'') (sample_request ''r'') 1 None]"
    and "get_user_by_id db 1 = Some u" "us_is_active u" "us_id u = 1"
    and "ae_id ` set (ad_events (au_audit db)) = {''a''}" "le_id ` set (au_logins db) = {''a''}"
proof -
  let ?dr = "sample_draws 1 ''a''" and ?rq = "sample_request ''r''"
  have "get_user_by_username sample_db ''ana'' = Some sample_user"
    by (simp add: get_user_by_username_def sample_defs)
  moreover have "request_fresh sample_config ?dr sample_db" by (simp add: request_fresh_def sample_db_def)
  ultimately obtain u' db' where db': "login sample_config ?dr ?rq ''ana'' ''pw'' sample_db =
      (Granted (dr_refresh_token ?dr) (dr_csrf ?dr) u', db')" "db_sound db'"
      "au_sessions db' = au_sessions sample_db @ [refresh_session_row sample_config ?dr ?rq (us_id sample_user) None]"
      "au_users db' = map (\<lambda>v. if us_id v = us_id sample_user
        then sample_user\<lparr>us_failed_login_count := 0, us_last_login_at := Some (dr_now ?dr)\<rparr> else v) (au_users sample_db)"
    using login_granted[OF sample_sound sample_fits, of "''a''" 1 "''ana''" sample_user "''pw''"]
    by (auto simp: sample_name sample_config_def sample_user_def)
  have "new_family ?dr sample_db" by (simp add: new_family_def sample_db_def sample_draws_def)
  moreover have "portal_start sample_db" by (simp add: portal_start_def sample_db_def)
  ultimately have "portal_reachable sample_config (snd (login sample_config ?dr ?rq ''ana'' ''pw'' sample_db), {#})"
    by (meson portal_reachable.intros portal_step.password)
  then have "portal_reachable sample_config (db', {#})" using db'(1) by simp
  moreover have "ae_id ` set (ad_events (au_audit db')) = {''a''}" "le_id ` set (au_logins db') = {''a''}"
  proof -
    have "db' = snd (login sample_config ?dr ?rq ''ana'' ''pw'' sample_db)" using db'(1) by simp
    moreover have "fst (login sample_config ?dr ?rq ''ana'' ''pw'' sample_db) \<noteq> ServerError" using db'(1) by simp
    ultimately have "au_audit db' = au_audit (audit_login_event sample_config ?dr ?rq ''password'' True (Some 1) (Some ''ana'') None
        (save_user (sample_user\<lparr>us_failed_login_count := 0, us_last_login_at := Some 1\<rparr>) sample_db))"
      "au_logins db' = au_logins (audit_login_event sample_config ?dr ?rq ''password'' True (Some 1) (Some ''ana'') None
        (save_user (sample_user\<lparr>us_failed_login_count := 0, us_last_login_at := Some 1\<rparr>) sample_db))"
      using \<open>get_user_by_username sample_db ''ana'' = Some sample_user\<close>
      by (auto simp: login_def sample_name Let_def commit_def new_refresh_session_def create_refresh_session_def
          sample_config_def sample_user_def sample_draws_def split: if_splits)
    then show "ae_id ` set (ad_events (au_audit db')) = {''a''}" "le_id ` set (au_logins db') = {''a''}"
      by (simp_all add: audit_login_event_def record_audit_event_def create_login_event_def write_audit_event_def
          link_event_def save_user_def Let_def sample_db_def sample_draws_def split: prod.splits)
  qed
  ultimately show ?thesis using that db' by (auto simp: get_user_by_id_def sample_user_def sample_db_def)
qed

text \<open>The session of that login, read by a request to refresh it, and its rotation.\<close>

definition sample_session :: refresh_session where
  "sample_session = refresh_session_row sample_config (sample_draws 1 ''a'') (sample_request ''r'') 1 None"

lemma sample_session_fields:
  "rs_id sample_session = ''a''" "rs_family_id sample_session = ''a''" "rs_user_id sample_session = 1"
  "rs_token_hash sample_session = ''a''" "rs_expires_at sample_session = 101" "live sample_session"
  by (simp_all add: sample_session_def refresh_session_row_def sample_draws_def sample_config_def live_def or_none_def)

lemma sample_reading:
  obtains db where "portal_reachable sample_config (db, {#Refreshing (Some sample_session) {''a''}#})" and "db_sound db"
    and "au_sessions db = [sample_session]"
    and "is_Granted (fst (refresh_current sample_config (sample_draws 2 ''b'') (sample_request ''r'') {''a''} (Some sample_session) db))"
proof -
  obtain db u where db: "portal_reachable sample_config (db, {#})" "db_sound db"
      "au_sessions db = [sample_session]" "get_user_by_id db 1 = Some u" "us_is_active u" "us_id u = 1"
      "ae_id ` set (ad_events (au_audit db)) = {''a''}" "le_id ` set (au_logins db) = {''a''}"
    using sample_login unfolding sample_session_def by blast
  have found: "get_refresh_session_by_token_hash db ''a'' = Some sample_session" "session_ids db = {''a''}"
    by (simp_all add: get_refresh_session_by_token_hash_def session_ids_def db(3) sample_session_fields)
  have "portal_reachable sample_config (db, {#Refreshing (Some sample_session) {''a''}#})"
    using portal_reachable.step[OF db(1) portal_step.read_session[of _ _ _ "''a''"]] found by simp
  moreover have "request_fresh sample_config (sample_draws 2 ''b'') db"
    by (simp add: request_fresh_def db(3,7,8) sample_session_fields) (simp add: sample_draws_def sample_config_def)
  from refresh_granted[OF db(2) sample_fits this _ sample_session_fields(6) _ _ db(5), of "{''a''}"]
  have "is_Granted (fst (refresh_current sample_config (sample_draws 2 ''b'') (sample_request ''r'') {''a''} (Some sample_session) db))"
    by (force simp: db(3,4) sample_session_fields sample_draws_def)
  ultimately show ?thesis using that db by blast
qed

text \<open>The portal after that rotation: the first session is spent, its successor live.\<close>

definition sample_spent :: refresh_session where
  "sample_spent = revoke_one ''a'' 2 (Some ''b'') (Some (client_meta (sample_request ''r''))) sample_session"

definition sample_successor :: refresh_session where
  "sample_successor = refresh_session_row sample_config (sample_draws 2 ''b'') (sample_request ''r'') 1 (Some ''a'')"

lemma sample_successor_fields:
  "rs_id sample_successor = ''b''" "rs_family_id sample_successor = ''a''" "rs_user_id sample_successor = 1"
  "rs_token_hash sample_successor = ''b''" "rs_expires_at sample_successor = 102" "live sample_successor"
  by (simp_all add: sample_successor_def refresh_session_row_def sample_draws_def sample_config_def live_def or_none_def)

lemma sample_spent_fields:
  "rs_id sample_spent = ''a''" "rs_token_hash sample_spent = ''a''" "rs_revoked_at sample_spent = Some 2"
  "rs_replaced_by_id sample_spent = Some ''b''" "rs_family_id sample_spent = ''a''"
  by (simp_all add: sample_spent_def sample_session_fields) (simp_all add: revoke_one_def sample_session_fields split: prod.splits)

lemma sample_rotated:
  obtains db u where "portal_reachable sample_config (db, {#})" and "db_sound db"
    and "au_sessions db = [sample_spent, sample_successor]" and "get_user_by_id db 1 = Some u" "us_is_active u" "us_id u = 1"
    and "ae_id ` set (ad_events (au_audit db)) = {''a'', ''b''}" "le_id ` set (au_logins db) = {''a''}"
proof -
  obtain db u where db: "portal_reachable sample_config (db, {#})" "db_sound db"
      "au_sessions db = [sample_session]" "get_user_by_id db 1 = Some u" "us_is_active u" "us_id u = 1"
      "ae_id ` set (ad_events (au_audit db)) = {''a''}" "le_id ` set (au_logins db) = {''a''}"
    using sample_login unfolding sample_session_def by blast
  let ?dr = "sample_draws 2 ''b''" and ?rq = "sample_request ''r''"
  have found: "get_refresh_session_by_token_hash db ''a'' = Some sample_session" "session_ids db = {''a''}"
    by (simp_all add: get_refresh_session_by_token_hash_def session_ids_def db(3) sample_session_fields)
  have "portal_reachable sample_config (db, {#Refreshing (Some sample_session) {''a''}#})"
    using portal_reachable.step[OF db(1) portal_step.read_session[of _ _ _ "''a''"]] found by simp
  from portal_reachable.step[OF this portal_step.refreshed]
  have reach: "portal_reachable sample_config (snd (refresh_current sample_config ?dr ?rq {''a''} (Some sample_session) db), {#})" .
  have "request_fresh sample_config ?dr db"
    by (simp add: request_fresh_def db(3,7,8) sample_session_fields) (simp add: sample_draws_def sample_config_def)
  from refresh_granted[OF db(2) sample_fits this _ sample_session_fields(6) _ _ db(5), of "{''a''}"]
  obtain db' where db': "refresh_current sample_config ?dr ?rq {''a''} (Some sample_session) db =
        (Granted (dr_refresh_token ?dr) (dr_csrf ?dr) u, db')" "db_sound db'"
      "au_sessions db' = map (revoke_one ''a'' (dr_now ?dr) (Some (dr_session_id ?dr)) (Some (client_meta ?rq))) [sample_session] @
        [refresh_session_row sample_config ?dr ?rq 1 (Some ''a'')]" "au_users db' = au_users db" "au_logins db' = au_logins db"
      "ae_id ` set (ad_events (au_audit db')) = insert (dr_audit_id ?dr) {''a''}"
    by (force simp: db(3,4,6,7) sample_session_fields sample_draws_def)
  have "au_sessions db' = [sample_spent, sample_successor]"
    by (simp add: db'(3) sample_spent_def sample_successor_def) (simp add: sample_draws_def)
  then show ?thesis using that[of db' u] reach db db'
    by (simp add: get_user_by_id_def insert_commute) (simp add: sample_draws_def insert_commute)
qed

subsection \<open>Concurrent requests\<close>

text \<open>C3: However the requests interleave, no family of sessions ever has two that are live: a refresh token
  and its successor are never both valid.
\<close>

theorem one_live_session_per_family:
  assumes "portal_reachable cfg (db, R)"
  shows "distinct (map rs_family_id (filter live (au_sessions db)))"
  using portal_reachable_inv[OF assms] by (simp add: portal_inv_def sessions_inv_def live_families_def)

theorem one_live_session_per_family_witness:
  "\<exists>db :: auth_db. au_sessions db = [sample_session] \<and> distinct (map rs_family_id (filter live (au_sessions db)))"
proof -
  obtain db where "portal_reachable sample_config (db, {#Refreshing (Some sample_session) {''a''}#})"
      "au_sessions db = [sample_session]" by (rule sample_reading)
  then show ?thesis using one_live_session_per_family[of sample_config db] by blast
qed

lemma rejected_not_granted [simp]: "\<not> is_Granted (fst (reject_refresh cfg dr rq detail db db'))"
  by (simp add: reject_refresh_def commit_def)

lemma refresh_granted_claims:
  assumes "is_Granted (fst (refresh_current cfg dr rq vis (Some cur) db))"
  defines "m \<equiv> Some (client_meta rq)"
  shows "fst (claim_session (dr_now dr, Some (dr_session_id dr), m) (rs_id cur) db)" (is ?won)
    and "au_sessions (snd (refresh_current cfg dr rq vis (Some cur) db)) =
      au_sessions (snd (claim_session (dr_now dr, Some (dr_session_id dr), m) (rs_id cur) db)) @
        [refresh_session_row cfg dr rq (rs_user_id cur) (Some (rs_family_id cur))]" (is ?rows)
    and "db_fits (snd (refresh_current cfg dr rq vis (Some cur) db))" (is ?fits)
proof -
  obtain won db1 where claim: "revoke_refresh_session (rs_id cur) (dr_now dr) (Some (dr_session_id dr)) m db = (won, db1)"
    by (cases "revoke_refresh_session (rs_id cur) (dr_now dr) (Some (dr_session_id dr)) m db")
  obtain u where u: "get_user_by_id db (rs_user_id cur) = Some u" "won" "refresh_current cfg dr rq vis (Some cur) db =
      commit (Granted (dr_refresh_token dr) (dr_csrf dr) u) db (audit_refresh_event cfg dr rq True (Some (us_id u))
        (Some (us_username u)) None None (new_refresh_session cfg dr rq (us_id u) (Some (rs_family_id cur)) db1))"
    using assms(1) claim unfolding m_def by (simp add: refresh_current_def Let_def split: if_splits option.splits bool.splits)
  have "us_id u = rs_user_id cur" using u(1) by (auto simp: get_user_by_id_def find_Some_iff)
  moreover have "db_fits (audit_refresh_event cfg dr rq True (Some (us_id u)) (Some (us_username u)) None None
      (new_refresh_session cfg dr rq (us_id u) (Some (rs_family_id cur)) db1))"
    using assms(1) u(3) by (simp add: commit_def split: if_splits)
  ultimately show ?won ?rows ?fits using u(2) by (simp_all add: u(3) commit_def claim_session_def claim)
qed

text \<open>C5: A refresh token is rotated once: after a request has got a session for it, no request that read the
  same session, before or after, gets another one, whatever happens in between.
\<close>

theorem refresh_token_rotates_once:
  assumes "portal_reachable cfg (db, add_mset (Refreshing (Some cur) vis) R)"
    and "is_Granted (fst (refresh_current cfg dr rq vis (Some cur) db))"
    and "(portal_step cfg)\<^sup>*\<^sup>* (snd (refresh_current cfg dr rq vis (Some cur) db), R) (db', R')"
    and "rs_id cur' = rs_id cur"
  shows "\<not> is_Granted (fst (refresh_current cfg dr' rq' vis' (Some cur') db'))"
proof
  assume again: "is_Granted (fst (refresh_current cfg dr' rq' vis' (Some cur') db'))"
  let ?db1 = "snd (refresh_current cfg dr rq vis (Some cur) db)"
  note won = refresh_granted_claims[OF assms(2)]
  have reached: "portal_inv (?db1, R)"
    using portal_step_inv[OF portal_step.refreshed portal_reachable_inv[OF assms(1)]] .
  have "session_spent (snd (claim_session (dr_now dr, Some (dr_session_id dr), Some (client_meta rq)) (rs_id cur) db)) (rs_id cur)"
    using won(1) by (rule refresh_tokens.claim_spends)
  moreover have "distinct (map rs_id (au_sessions ?db1))" using won(3) by (simp add: db_fits_def unique_columns_def)
  ultimately have "session_spent ?db1 (rs_id cur)" unfolding session_spent_def won(2) by (auto simp: image_iff)
  moreover have "sessions_evolve\<^sup>*\<^sup>* ?db1 db'" using portal_steps_evolve[OF assms(3) reached] by simp
  ultimately have "session_spent db' (rs_id cur)" by (metis refresh_tokens.stays_spent_rtrancl)
  then show False using refresh_tokens.claim_unspent refresh_granted_claims(1)[OF again] assms(4) by metis
qed

theorem refresh_token_rotates_once_witness:
  "\<exists>db R. portal_reachable sample_config (db, add_mset (Refreshing (Some sample_session) {''a''}) R) \<and>
    is_Granted (fst (refresh_current sample_config (sample_draws 2 ''b'') (sample_request ''r'') {''a''} (Some sample_session) db)) \<and>
    \<not> is_Granted (fst (refresh_current sample_config (sample_draws 3 ''c'') (sample_request ''r'') {''a''} (Some sample_session)
      (snd (refresh_current sample_config (sample_draws 2 ''b'') (sample_request ''r'') {''a''} (Some sample_session) db))))"
proof -
  obtain db where db: "portal_reachable sample_config (db, {#Refreshing (Some sample_session) {''a''}#})"
    and granted: "is_Granted (fst (refresh_current sample_config (sample_draws 2 ''b'') (sample_request ''r'') {''a''} (Some sample_session) db))"
    by (rule sample_reading)
  from refresh_token_rotates_once[OF db granted rtranclp.rtrancl_refl refl] db granted show ?thesis by blast
qed

text \<open>C30: A token that was rotated before and is presented again ends its family: every session of the family
  the bulk update can see is revoked once the refusal is committed.
\<close>

theorem reuse_revokes_family:
  assumes "rs_revoked_at cur \<noteq> None" and "or_none (rs_replaced_by_id cur) \<noteq> None"
    and "fst (refresh_current cfg dr rq (session_ids db) (Some cur) db) = Refused 401 ''Session revoked''"
  shows "rs_family_id cur \<notin> rs_family_id ` set (filter live (au_sessions (snd (refresh_current cfg dr rq (session_ids db) (Some cur) db))))"
proof -
  let ?db' = "audit_refresh_event cfg dr rq False None None (Some ''Session revoked'') (Some ''http_401'')
    (revoke_refresh_family (rs_family_id cur) (session_ids db) (dr_now dr) db)"
  have eq: "refresh_current cfg dr rq (session_ids db) (Some cur) db = commit (Refused 401 ''Session revoked'') db ?db'"
    using assms(1,2) by (simp add: refresh_current_def reject_refresh_def Let_def)
  then have "snd (refresh_current cfg dr rq (session_ids db) (Some cur) db) = ?db'"
    using assms(3) by (simp add: commit_def split: if_splits)
  then have rows: "au_sessions (snd (refresh_current cfg dr rq (session_ids db) (Some cur) db)) =
      au_sessions (revoke_refresh_family (rs_family_id cur) (session_ids db) (dr_now dr) db)" by simp
  have "\<not> live s" if "s \<in> set (au_sessions (revoke_refresh_family (rs_family_id cur) (session_ids db) (dr_now dr) db))"
      "rs_family_id s = rs_family_id cur" for s
    using that by (auto simp: revoke_refresh_family_def revoke_where_def session_ids_def live_def split: if_splits)
  then show ?thesis unfolding rows by auto
qed

theorem reuse_revokes_family_witness:
  "\<exists>db :: auth_db. au_sessions db = [sample_spent, sample_successor] \<and>
    rs_family_id sample_spent \<notin> rs_family_id ` set (filter live (au_sessions (snd (refresh_current sample_config (sample_draws 3 ''c'')
      (sample_request ''r'') (session_ids db) (Some sample_spent) db))))"
proof -
  obtain db where db: "db_sound db" "au_sessions db = [sample_spent, sample_successor]"
      "ae_id ` set (ad_events (au_audit db)) = {''a'', ''b''}" by (rule sample_rotated)
  let ?db' = "revoke_refresh_family (rs_family_id sample_spent) (session_ids db) (dr_now (sample_draws 3 ''c'')) db"
  have "db_sound ?db'" using db(1) by (simp add: revoke_refresh_family_def revoke_where_sound)
  moreover have "dr_audit_id (sample_draws 3 ''c'') \<notin> ae_id ` set (ad_events (au_audit ?db'))"
    by (simp add: revoke_refresh_family_def revoke_where_def db(3)) (simp add: sample_draws_def)
  ultimately have "fst (refresh_current sample_config (sample_draws 3 ''c'') (sample_request ''r'') (session_ids db) (Some sample_spent) db) =
      Refused 401 ''Session revoked''"
    using reject_refresh_refused[OF _ sample_fits, of ?db' "''c''" 3 "''Session revoked''" db]
    by (simp add: refresh_current_def Let_def sample_spent_fields or_none_def)
  from reuse_revokes_family[OF _ _ this] have "rs_family_id sample_spent \<notin> rs_family_id ` set (filter live (au_sessions (snd
      (refresh_current sample_config (sample_draws 3 ''c'') (sample_request ''r'') (session_ids db) (Some sample_spent) db))))"
    by (simp add: sample_spent_fields or_none_def)
  with db(2) show ?thesis by blast
qed

text \<open>C31: Not when a rotation overtakes it: the bulk update that began before the rotation committed does not
  see the new session, which stays live although the family was revoked for reuse.
\<close>

theorem reuse_misses_overtaking_rotation:
  assumes "is_Granted (fst (refresh_current cfg dr rq vis (Some cur) db))" and "rs_family_id cur \<noteq> []"
    and "rs_revoked_at old \<noteq> None" and "or_none (rs_replaced_by_id old) \<noteq> None" and "rs_family_id old = rs_family_id cur"
    and "db' = snd (refresh_current cfg dr rq vis (Some cur) db)"
  shows "rs_family_id old \<in> rs_family_id ` set (filter live (au_sessions (snd (refresh_current cfg dr' rq' (session_ids db) (Some old) db'))))"
proof -
  note won = refresh_granted_claims[OF assms(1)]
  let ?s = "refresh_session_row cfg dr rq (rs_user_id cur) (Some (rs_family_id cur))"
  have "?s \<in> set (au_sessions db')" using won(2) assms(6) by simp
  have "distinct (map rs_id (au_sessions db'))" using won(3) assms(6) by (simp add: db_fits_def unique_columns_def)
  then have "rs_id ?s \<notin> session_ids db"
    unfolding assms(6) won(2) by (simp add: claim_session_def session_ids_def image_image)
  then have "?s \<in> set (au_sessions (revoke_refresh_family (rs_family_id old) (session_ids db) (dr_now dr') db'))"
    using \<open>?s \<in> set (au_sessions db')\<close> by (force simp: revoke_refresh_family_def revoke_where_def)
  moreover have "refresh_current cfg dr' rq' (session_ids db) (Some old) db' = reject_refresh cfg dr' rq' ''Session revoked'' db'
      (revoke_refresh_family (rs_family_id old) (session_ids db) (dr_now dr') db')"
    using assms(3,4) by (simp add: refresh_current_def Let_def)
  ultimately have "?s \<in> set (filter live (au_sessions (snd (refresh_current cfg dr' rq' (session_ids db) (Some old) db'))))"
    using \<open>?s \<in> set (au_sessions db')\<close> by (simp add: reject_refresh_def commit_def)
  moreover have "rs_family_id ?s = rs_family_id old" using assms(2,5) by simp
  ultimately show ?thesis by (metis image_eqI)
qed

theorem reuse_misses_overtaking_rotation_witness:
  "\<exists>db. portal_reachable sample_config
      (db, {#Refreshing (Some sample_successor) {''a'', ''b''}, Refreshing (Some sample_spent) {''a'', ''b''}#}) \<and>
    ''a'' \<in> rs_family_id ` set (filter live (au_sessions (snd (refresh_current sample_config (sample_draws 4 ''e'') (sample_request ''r'')
      {''a'', ''b''} (Some sample_spent) (snd (refresh_current sample_config (sample_draws 3 ''c'') (sample_request ''r'') {''a'', ''b''}
        (Some sample_successor) db))))))"
proof -
  obtain db u where db: "portal_reachable sample_config (db, {#})" "db_sound db"
      "au_sessions db = [sample_spent, sample_successor]" "get_user_by_id db 1 = Some u" "us_is_active u"
      "ae_id ` set (ad_events (au_audit db)) = {''a'', ''b''}" "le_id ` set (au_logins db) = {''a''}"
    by (rule sample_rotated)
  let ?dr = "sample_draws 3 ''c''" and ?rq = "sample_request ''r''"
  have found: "get_refresh_session_by_token_hash db ''a'' = Some sample_spent"
      "get_refresh_session_by_token_hash db ''b'' = Some sample_successor" "session_ids db = {''a'', ''b''}"
    by (simp_all add: get_refresh_session_by_token_hash_def session_ids_def db(3) sample_successor_fields sample_spent_fields)
  have "portal_reachable sample_config (db, {#Refreshing (Some sample_spent) {''a'', ''b''}#})"
    using portal_reachable.step[OF db(1) portal_step.read_session[of _ _ _ "''a''"]] found by simp
  from portal_reachable.step[OF this portal_step.read_session[of _ _ _ "''b''"]] found
  have reach: "portal_reachable sample_config
      (db, {#Refreshing (Some sample_successor) {''a'', ''b''}, Refreshing (Some sample_spent) {''a'', ''b''}#})" by simp
  have "request_fresh sample_config ?dr db"
    by (simp add: request_fresh_def db(3,6,7) sample_successor_fields sample_spent_fields) (simp add: sample_draws_def sample_config_def)
  from refresh_granted[OF db(2) sample_fits this _ sample_successor_fields(6) _ _ db(5), of "{''a'', ''b''}"]
  have "is_Granted (fst (refresh_current sample_config ?dr ?rq {''a'', ''b''} (Some sample_successor) db))"
    by (force simp: db(3,4) sample_successor_fields sample_draws_def)
  from reuse_misses_overtaking_rotation[OF this _ _ _ _ refl, of sample_spent]
  show ?thesis using reach found(3) by (auto simp: sample_successor_fields sample_spent_fields or_none_def)
qed

subsection \<open>Requests that do not fit\<close>

lemma oversized_audit:
  assumes "length (request_id (dr_request_id dr) rq) > 64" and "au_audit db' = au_audit (record_audit_event cfg dr rq args db)"
  shows "\<not> db_fits db'"
proof -
  let ?row = "audit_row (request_id (dr_request_id dr) rq) (dr_audit_id dr) (dr_audit_time dr) (Some rq) args"
  let ?r = "fst (link_event (cf_digest cfg) ?row (au_audit db))"
  have "ae_request_id ?r = Some (request_id (dr_request_id dr) rq)"
    using assms(1) by (auto simp: link_event_def Let_def audit_row_def nonempty_def split: prod.splits)
  then have "\<not> event_fits ?r" using assms(1) by (simp add: event_fits_def)
  moreover have "?r \<in> set (ad_events (au_audit db'))"
    using assms(2) by (simp add: record_audit_event_def write_audit_event_def link_event_def Let_def)
  ultimately show ?thesis by (auto simp: db_fits_def list_all_iff)
qed

lemma oversized_events:
  assumes "length (request_id (dr_request_id dr) rq) > 64"
  shows "\<not> db_fits (audit_login_event cfg dr rq m ok uid name reason db)"
    and "\<not> db_fits (audit_refresh_event cfg dr rq ok uid name reason err db)"
    and "\<not> db_fits (new_refresh_session cfg dr rq v f (audit_login_event cfg dr rq m ok uid name reason db))"
  using oversized_audit[OF assms]
  by (auto simp: audit_login_event_def audit_refresh_event_def new_refresh_session_def create_refresh_session_def Let_def
      split: prod.splits)

text \<open>C23: The request id is taken from the caller's header and stored uncut in a column of 64 characters. With a
  longer one no login and no refresh leaves a trace: failed logins are neither counted nor recorded, the
  reuse of a token revokes nothing, and the reply still tells whether the password was right.
\<close>

theorem oversized_request_id_leaves_no_trace:
  assumes "length (request_id (dr_request_id dr) rq) > 64"
    and "cf_login_allowed cfg rq (canonicalize_username name)"
    and "get_user_by_username db (canonicalize_username name) = Some u" and "us_is_active u"
  shows "login cfg dr rq name pw db = (if fst (cf_verify cfg pw (us_password_hash u)) then ServerError else invalid_credentials, db) \<and>
    snd (refresh cfg dr rq db) = db"
proof
  show "login cfg dr rq name pw db = (if fst (cf_verify cfg pw (us_password_hash u)) then ServerError else invalid_credentials, db)"
    using assms oversized_events[OF assms(1)]
    by (auto simp: login_def Let_def commit_def commit_quietly_def split: prod.splits bool.splits)
  have "snd (refresh_current cfg dr rq vis cur db) = db" for vis cur
    using oversized_events(2)[OF assms(1)]
    by (auto simp: refresh_current_def reject_refresh_def commit_def Let_def split: option.splits prod.splits bool.splits)
  then show "snd (refresh cfg dr rq db) = db"
    using oversized_events(2)[OF assms(1)] by (simp add: refresh_def Let_def reject_refresh_def commit_def)
qed

theorem oversized_request_id_leaves_no_trace_witness:
  "let rq = sample_request (replicate 65 CHR ''x'') in
   login sample_config (sample_draws 1 ''a'') rq ''ana'' ''no'' sample_db = (invalid_credentials, sample_db) \<and>
   login sample_config (sample_draws 1 ''a'') rq ''ana'' ''pw'' sample_db = (ServerError, sample_db) \<and>
   snd (refresh sample_config (sample_draws 1 ''a'') rq sample_db) = sample_db"
proof -
  let ?rq = "sample_request (replicate 65 CHR ''x'')"
  have "request_id (dr_request_id (sample_draws 1 ''a'')) ?rq = replicate 65 CHR ''x''" by code_simp
  then have long: "length (request_id (dr_request_id (sample_draws 1 ''a'')) ?rq) > 64" by simp
  have "get_user_by_username sample_db (canonicalize_username ''ana'') = Some sample_user"
    by (simp add: sample_name get_user_by_username_def sample_defs)
  note trace = oversized_request_id_leaves_no_trace[OF long _ this]
  show ?thesis using trace[of sample_config "''no''"] trace[of sample_config "''pw''"]
    by (simp add: sample_config_def sample_user_def)
qed

end
