(* ===== verification/Outbox_Store.thy ===== *)
theory Outbox_Store
  imports Py_Runtime
begin

text \<open>
  The transactional outbox (\<open>shared/outbox/store.py\<close>, \<open>models.py\<close>) and the identity of an event
  (\<open>shared/indexing/identity.py\<close>). Events are dictionaries; a datetime is in UTC. \<open>fromiso\<close> stands for
  \<open>datetime.fromisoformat\<close> followed by the conversion to UTC, \<open>sha\<close> for the hexadecimal SHA-1. Times and
  durations are in microseconds. A payload that holds a datetime anywhere but in \<open>timestamp\<close> cannot be
  stored as JSON, and enqueueing it raises.
\<close>

type_synonym event = "(string \<times> pyval) list"

section \<open>Identity\<close>

text \<open>\<open>isoformat()\<close> of a datetime in UTC.\<close>

definition iso_utc :: "int \<Rightarrow> string" where
  "iso_utc t = iso_format ''T'' t @ ''+00:00''"

text \<open>\<open>s.replace("Z", "+00:00")\<close>.\<close>

definition replace_zulu :: "string \<Rightarrow> string" where
  "replace_zulu s = concat (map (\<lambda>c. if c = CHR ''Z'' then ''+00:00'' else [c]) s)"

definition parse_timestamp :: "(string \<Rightarrow> int option) \<Rightarrow> pyval \<Rightarrow> int option" where
  "parse_timestamp fromiso v =
     (case v of
        PTime t \<Rightarrow> Some t
      | PStr s \<Rightarrow> if py_strip s = [] then None else fromiso (replace_zulu (py_strip s))
      | _ \<Rightarrow> None)"

definition normalized_event_timestamp :: "(string \<Rightarrow> int option) \<Rightarrow> int \<Rightarrow> pyval \<Rightarrow> int" where
  "normalized_event_timestamp fromiso now v = (case parse_timestamp fromiso v of Some t \<Rightarrow> t | None \<Rightarrow> now)"

definition event_port :: "pyval \<Rightarrow> int" where
  "event_port v = (case int_of_py v of Inl _ \<Rightarrow> 0 | Inr port \<Rightarrow> if 0 \<le> port \<and> port \<le> 65535 then port else 0)"

definition byte_count :: "pyval \<Rightarrow> int" where
  "byte_count v = (case int_or v 0 of Inl _ \<Rightarrow> 0 | Inr n \<Rightarrow> n)"

text \<open>The \<open>extra\<close> of an event when it is a dictionary, an empty one otherwise.\<close>

definition extra_dict :: "event \<Rightarrow> pyval" where
  "extra_dict e = (case pget e ''extra'' of PDict d \<Rightarrow> PDict d | _ \<Rightarrow> PDict [])"

definition event_fingerprint :: "(string \<Rightarrow> int option) \<Rightarrow> int \<Rightarrow> event \<Rightarrow> string" where
  "event_fingerprint fromiso now row = py_join ''|''
     [str_or (pget row ''agent_id'') [], str_or (pget row ''event_type'') [],
      iso_utc (normalized_event_timestamp fromiso now (pget row ''timestamp'')),
      str_or (pget row ''src_ip'') [], str_or (pget row ''dst_ip'') [],
      int_str (event_port (pget row ''src_port'')), int_str (event_port (pget row ''dst_port'')),
      str_or (pget row ''proto'') [], int_str (byte_count (pget row ''bytes'')), json_dumps (extra_dict row)]"

definition positive_id :: "event \<Rightarrow> string \<Rightarrow> int option" where
  "positive_id row k = (case int_or (pget row k) 0 of Inl _ \<Rightarrow> None | Inr i \<Rightarrow> if i > 0 then Some i else None)"

definition event_document_id :: "(string \<Rightarrow> string) \<Rightarrow> (string \<Rightarrow> int option) \<Rightarrow> int \<Rightarrow> event \<Rightarrow> string" where
  "event_document_id sha fromiso now row =
     (case positive_id row ''pg_event_id'' of
        Some i \<Rightarrow> int_str i
      | None \<Rightarrow> (case positive_id row ''id'' of Some i \<Rightarrow> int_str i | None \<Rightarrow> sha (event_fingerprint fromiso now row)))"

section \<open>Rows\<close>

record outbox_row =
  ob_id :: int
  ob_sink :: string
  ob_payload :: pyval
  ob_event_count :: nat
  ob_attempts :: nat
  ob_available_at :: int
  ob_created_at :: int
  ob_last_error :: "string option"

record dead_row =
  dl_sink :: string
  dl_payload :: pyval
  dl_event_count :: nat
  dl_attempts :: nat
  dl_reason :: string
  dl_error :: "string option"
  dl_enqueued_at :: int
  dl_failed_at :: int

record outbox_db =
  od_rows :: "outbox_row list"
  od_dead :: "dead_row list"
  od_next_id :: int

record outbox_batch =
  bt_id :: int
  bt_sink :: string
  bt_events :: "event list"
  bt_attempts :: nat
  bt_enqueued_at :: int

record outbox_depth =
  dp_batches :: nat
  dp_events :: nat
  dp_oldest_age :: int

section \<open>Payloads\<close>

text \<open>\<open>d[k] = v\<close> on a copy of the dictionary, and the two conversions of an event.\<close>

definition encode_event :: "event \<Rightarrow> event" where
  "encode_event e =
     (let e1 = (case pget e ''timestamp'' of PTime t \<Rightarrow> dict_set e ''timestamp'' (PStr (iso_utc t)) | _ \<Rightarrow> e)
      in case pget e1 ''extra'' of PDict _ \<Rightarrow> e1 | _ \<Rightarrow> dict_set e1 ''extra'' (PDict []))"

definition decode_event :: "(string \<Rightarrow> int option) \<Rightarrow> int \<Rightarrow> event \<Rightarrow> event" where
  "decode_event fromiso now e =
     (let e1 = dict_set e ''timestamp'' (PTime (normalized_event_timestamp fromiso now (pget e ''timestamp'')))
      in case pget e1 ''extra'' of PDict _ \<Rightarrow> e1 | _ \<Rightarrow> dict_set e1 ''extra'' (PDict []))"

definition encode_events :: "event list \<Rightarrow> pyval" where
  "encode_events events = PList (map (\<lambda>e. PDict (encode_event e)) events)"

definition decode_events :: "(string \<Rightarrow> int option) \<Rightarrow> int \<Rightarrow> pyval \<Rightarrow> event list" where
  "decode_events fromiso now payload =
     (case payload of
        PList xs \<Rightarrow> map (decode_event fromiso now) (concat (map (\<lambda>x. case x of PDict d \<Rightarrow> [d] | _ \<Rightarrow> []) xs))
      | _ \<Rightarrow> [])"

text \<open>Whether a value can be written as JSON.\<close>

fun json_value :: "pyval \<Rightarrow> bool" where
  "json_value (PTime t) \<longleftrightarrow> False"
| "json_value (PList xs) \<longleftrightarrow> list_all json_value xs"
| "json_value (PDict kvs) \<longleftrightarrow> list_all (\<lambda>(k, v). json_value v) kvs"
| "json_value _ \<longleftrightarrow> True"

section \<open>Operations\<close>

function chunks :: "'a list \<Rightarrow> nat \<Rightarrow> 'a list list" where
  "chunks events step = (if events = [] then [] else take (max 1 step) events # chunks (drop (max 1 step) events) step)"
  by pat_completeness auto
termination
  by (relation "measure (\<lambda>(events, n). length events)") (auto simp: max_def)

declare chunks.simps [simp del]

definition new_row :: "string \<Rightarrow> int \<Rightarrow> int \<Rightarrow> event list \<Rightarrow> outbox_row" where
  "new_row sink available_at row_id chunk = \<lparr>ob_id = row_id, ob_sink = sink, ob_payload = encode_events chunk,
     ob_event_count = length chunk, ob_attempts = 0, ob_available_at = available_at, ob_created_at = available_at,
     ob_last_error = None\<rparr>"

definition enqueue :: "string \<Rightarrow> event list \<Rightarrow> nat \<Rightarrow> int \<Rightarrow> outbox_db \<Rightarrow> py_error + nat \<times> outbox_db" where
  "enqueue sink events chunk_size now db =
     (if events = [] then Inr (0, db)
      else let cs = chunks events chunk_size; n = length cs;
               rows = map2 (new_row sink now) [od_next_id db..od_next_id db + int n - 1] cs
           in if list_all (\<lambda>r. json_value (ob_payload r)) rows
              then Inr (n, db\<lparr>od_rows := od_rows db @ rows, od_next_id := od_next_id db + int n\<rparr>)
              else Inl TypeError)"

text \<open>The rows due, oldest first; rows locked by other transactions are skipped.\<close>

definition due_rows :: "string \<Rightarrow> int \<Rightarrow> int set \<Rightarrow> outbox_db \<Rightarrow> outbox_row list" where
  "due_rows sink now locked db =
     sort_key ob_available_at (sort_key ob_id
       (filter (\<lambda>r. ob_sink r = sink \<and> ob_available_at r \<le> now \<and> ob_id r \<notin> locked) (od_rows db)))"

definition batch_of :: "(string \<Rightarrow> int option) \<Rightarrow> int \<Rightarrow> outbox_row \<Rightarrow> outbox_batch" where
  "batch_of fromiso now row = \<lparr>bt_id = ob_id row, bt_sink = ob_sink row, bt_events = decode_events fromiso now (ob_payload row),
     bt_attempts = ob_attempts row, bt_enqueued_at = ob_created_at row\<rparr>"

definition lease_row :: "int \<Rightarrow> outbox_row \<Rightarrow> outbox_row" where
  "lease_row until row = row\<lparr>ob_attempts := ob_attempts row + 1, ob_available_at := until\<rparr>"

definition claim ::
  "(string \<Rightarrow> int option) \<Rightarrow> string \<Rightarrow> nat \<Rightarrow> int \<Rightarrow> int \<Rightarrow> int set \<Rightarrow> outbox_db \<Rightarrow> outbox_batch list \<times> outbox_db" where
  "claim fromiso sink limit lease now locked db =
     (let ids = set (map ob_id (take (max 1 limit) (due_rows sink now locked db)));
          rows = map (\<lambda>r. if ob_id r \<in> ids then lease_row (now + max 1000000 lease) r else r) (od_rows db)
      in (sort_key bt_id (map (batch_of fromiso now) (filter (\<lambda>r. ob_id r \<in> ids) rows)), db\<lparr>od_rows := rows\<rparr>))"

definition complete :: "int list \<Rightarrow> outbox_db \<Rightarrow> outbox_db" where
  "complete batch_ids db = db\<lparr>od_rows := filter (\<lambda>r. ob_id r \<notin> set batch_ids) (od_rows db)\<rparr>"

definition error_text :: "string \<Rightarrow> string option" where
  "error_text error = (if take 500 error = [] then None else Some (take 500 error))"

definition reschedule :: "int \<Rightarrow> event list \<Rightarrow> int \<Rightarrow> string \<Rightarrow> outbox_db \<Rightarrow> outbox_db" where
  "reschedule batch_id events available_at error db =
     db\<lparr>od_rows := map (\<lambda>r. if ob_id r = batch_id
       then r\<lparr>ob_payload := encode_events events, ob_event_count := length events, ob_available_at := available_at,
              ob_last_error := error_text error\<rparr> else r) (od_rows db)\<rparr>"

definition dead_letter :: "outbox_batch \<Rightarrow> event list \<Rightarrow> string \<Rightarrow> string \<Rightarrow> int \<Rightarrow> outbox_db \<Rightarrow> outbox_db" where
  "dead_letter batch events reason error now db =
     (if events = [] then db
      else db\<lparr>od_dead := od_dead db @ [\<lparr>dl_sink = bt_sink batch, dl_payload = encode_events events,
        dl_event_count = length events, dl_attempts = bt_attempts batch, dl_reason = take 64 reason,
        dl_error = error_text error, dl_enqueued_at = bt_enqueued_at batch, dl_failed_at = now\<rparr>]\<rparr>)"

text \<open>The age in microseconds.\<close>

definition depth :: "string \<Rightarrow> int \<Rightarrow> outbox_db \<Rightarrow> outbox_depth" where
  "depth sink now db =
     (let rows = filter (\<lambda>r. ob_sink r = sink) (od_rows db) in
      \<lparr>dp_batches = length rows, dp_events = sum_list (map ob_event_count rows),
       dp_oldest_age = (if rows = [] then 0 else max 0 (now - Min (set (map ob_created_at rows))))\<rparr>)"

definition dead_letter_depth :: "string \<Rightarrow> outbox_db \<Rightarrow> nat" where
  "dead_letter_depth sink db = sum_list (map dl_event_count (filter (\<lambda>d. dl_sink d = sink) (od_dead db)))"

definition purge_dead_letter :: "int \<Rightarrow> outbox_db \<Rightarrow> nat \<times> outbox_db" where
  "purge_dead_letter older_than db =
     (let kept = filter (\<lambda>d. \<not> dl_failed_at d < older_than) (od_dead db)
      in (length (od_dead db) - length kept, db\<lparr>od_dead := kept\<rparr>))"

end
