(* ===== verification/Outbox_Dispatch.thy ===== *)
theory Outbox_Dispatch
  imports Outbox_Store
begin

text \<open>
  Delivery of outbox batches: the two sinks (\<open>workers/sinks/clickhouse.py\<close>, \<open>elasticsearch.py\<close> with
  \<open>shared/indexing/bulk.py\<close>), the dispatcher (\<open>dispatcher.py\<close>) and its runs in any interleaving. What
  ClickHouse and Elasticsearch answer is an argument; metrics, watermarks and logs are not modelled.
\<close>

section \<open>Delivery results\<close>

record delivery_result =
  dr_delivered :: nat
  dr_retry :: "event list"
  dr_dead :: "event list"
  dr_error :: string

definition delivered :: "nat \<Rightarrow> delivery_result" where
  "delivered n = \<lparr>dr_delivered = n, dr_retry = [], dr_dead = [], dr_error = []\<rparr>"

definition retry_all :: "event list \<Rightarrow> string \<Rightarrow> delivery_result" where
  "retry_all events error = \<lparr>dr_delivered = 0, dr_retry = events, dr_dead = [], dr_error = error\<rparr>"

section \<open>ClickHouse\<close>

text \<open>\<open>connected\<close>: whether a client could be had. \<open>write\<close>: the exception of the insert, or the rows written.\<close>

definition clickhouse_deliver :: "bool \<Rightarrow> (event list \<Rightarrow> string + nat) \<Rightarrow> event list \<Rightarrow> delivery_result" where
  "clickhouse_deliver connected write events =
     (if \<not> connected then retry_all events ''clickhouse_unavailable''
      else case write events of
        Inl error_type \<Rightarrow> retry_all events error_type
      | Inr written \<Rightarrow> delivered written)"

section \<open>Elasticsearch\<close>

definition is_permanent_status :: "int \<Rightarrow> bool" where
  "is_permanent_status status \<longleftrightarrow> 400 \<le> status \<and> status < 500 \<and> status \<noteq> 429"

definition int_or_zero :: "pyval \<Rightarrow> int" where
  "int_or_zero v = (case int_or v 0 of Inl _ \<Rightarrow> 0 | Inr i \<Rightarrow> i)"

definition bulk_reason :: "pyval \<Rightarrow> string" where
  "bulk_reason detail =
     (case detail of
        PDict d \<Rightarrow> take 80 (str_or (py_or (pget d ''type'') (pget d ''reason'')) [])
      | _ \<Rightarrow> if truthy detail then take 80 (py_str detail) else [])"

definition note_failure ::
  "(string \<times> pyval) \<Rightarrow> (string \<times> int \<times> string) list \<Rightarrow> (string \<times> int \<times> string) list" where
  "note_failure op_info failures =
     (case op_info of
        (operation, PDict info) \<Rightarrow>
          if pget info ''_id'' = PNone then failures
          else (let reason = bulk_reason (pget info ''error'')
                in dict_set failures (py_str (pget info ''_id''))
                     (int_or_zero (pget info ''status''), if reason = [] then operation else reason))
      | _ \<Rightarrow> failures)"

definition parse_bulk_errors :: "pyval list \<Rightarrow> (string \<times> int \<times> string) list" where
  "parse_bulk_errors errors = fold (\<lambda>e fs. case e of PDict d \<Rightarrow> fold note_failure d fs | _ \<Rightarrow> fs) errors []"

text \<open>\<open>timestamp.strftime("%Y.%m.%d")\<close>, for years from 1000 on (below, the C library decides on the
  padding); a timestamp that is no datetime raises.\<close>

definition daily_index :: "string \<Rightarrow> pyval \<Rightarrow> string option" where
  "daily_index p v =
     (case v of
        PTime t \<Rightarrow> (case civil_of_days (t div 1000000 div 86400) of (y, m, d) \<Rightarrow>
          Some (p @ ''-'' @ zpad 4 y @ ''.'' @ zpad 2 m @ ''.'' @ zpad 2 d))
      | _ \<Rightarrow> None)"

text \<open>An action of a bulk request: its index, its document id, the event it is made from.\<close>

type_synonym bulk_action = "string \<times> string \<times> event"

text \<open>The loop over the events: the actions, the events by document id, the events without an index.\<close>

definition plan_event ::
  "(event \<Rightarrow> string option) \<Rightarrow> (event \<Rightarrow> string) \<Rightarrow> event \<Rightarrow> bulk_action list \<times> (string \<times> event) list \<times> event list
   \<Rightarrow> bulk_action list \<times> (string \<times> event) list \<times> event list" where
  "plan_event index_for doc_id e plan =
     (case plan of (actions, by_doc_id, rejected) \<Rightarrow>
        (case index_for e of
           None \<Rightarrow> (actions, by_doc_id, rejected @ [e])
         | Some index \<Rightarrow> (actions @ [(index, doc_id e, e)], dict_set by_doc_id (doc_id e) e, rejected)))"

definition sort_result ::
  "(string \<times> int \<times> string) list \<Rightarrow> string \<times> event \<Rightarrow> delivery_result \<Rightarrow> delivery_result" where
  "sort_result failures doc r =
     (case dict_get failures (fst doc) of
        None \<Rightarrow> r\<lparr>dr_delivered := dr_delivered r + 1\<rparr>
      | Some (status, reason) \<Rightarrow>
          (let r = r\<lparr>dr_error := int_str status @ '':'' @ reason\<rparr>
           in if is_permanent_status status then r\<lparr>dr_dead := dr_dead r @ [snd doc]\<rparr>
              else r\<lparr>dr_retry := dr_retry r @ [snd doc]\<rparr>))"

definition invalid_event :: "event list \<Rightarrow> string" where
  "invalid_event rejected = (if rejected = [] then [] else ''invalid_event'')"

text \<open>\<open>connection\<close>: the exception of connecting, or whether a client could be had. \<open>bulk\<close>: the exception of
  the request, or the errors of its answer.\<close>

definition es_deliver ::
  "string + bool \<Rightarrow> (bulk_action list \<Rightarrow> string + pyval list) \<Rightarrow> (event \<Rightarrow> string option) \<Rightarrow> (event \<Rightarrow> string) \<Rightarrow>
   event list \<Rightarrow> delivery_result" where
  "es_deliver connection bulk index_for doc_id events =
     (case connection of
        Inl error_type \<Rightarrow> retry_all events error_type
      | Inr False \<Rightarrow> retry_all events ''elasticsearch_unavailable''
      | Inr True \<Rightarrow>
          (case fold (plan_event index_for doc_id) events ([], [], []) of (actions, by_doc_id, rejected) \<Rightarrow>
             if actions = []
             then \<lparr>dr_delivered = 0, dr_retry = [], dr_dead = rejected, dr_error = invalid_event rejected\<rparr>
             else case bulk actions of
               Inl error_type \<Rightarrow>
                 \<lparr>dr_delivered = 0, dr_retry = map snd by_doc_id, dr_dead = rejected, dr_error = error_type\<rparr>
             | Inr errors \<Rightarrow> fold (sort_result (parse_bulk_errors errors)) by_doc_id
                 \<lparr>dr_delivered = 0, dr_retry = [], dr_dead = rejected, dr_error = invalid_event rejected\<rparr>))"

section \<open>The enabled sinks\<close>

text \<open>What the outside answers to one delivery, and the time of it.\<close>

record sink_answer =
  sa_connected :: bool
  sa_write :: "event list \<Rightarrow> string + nat"
  sa_connection :: "string + bool"
  sa_bulk :: "bulk_action list \<Rightarrow> string + pyval list"
  sa_now :: int

record sink_config =
  sk_sha :: "string \<Rightarrow> string"
  sk_fromiso :: "string \<Rightarrow> int option"
  sk_warm_prefix :: string
  sk_write_alias :: string

definition sink_doc_id :: "sink_config \<Rightarrow> sink_answer \<Rightarrow> event \<Rightarrow> string" where
  "sink_doc_id cfg w = event_document_id (sk_sha cfg) (sk_fromiso cfg) (sa_now w)"

definition index_for :: "sink_config \<Rightarrow> string \<Rightarrow> event \<Rightarrow> string option" where
  "index_for cfg sink e =
     (if sink = ''warm'' then daily_index (sk_warm_prefix cfg) (pget e ''timestamp'') else Some (sk_write_alias cfg))"

definition sink_deliver :: "sink_config \<Rightarrow> string \<Rightarrow> sink_answer \<Rightarrow> event list \<Rightarrow> delivery_result" where
  "sink_deliver cfg sink w events =
     (if sink = ''clickhouse'' then clickhouse_deliver (sa_connected w) (sa_write w) events
      else es_deliver (sa_connection w) (sa_bulk w) (index_for cfg sink) (sink_doc_id cfg w) events)"

section \<open>The dispatcher\<close>

record dispatcher_config =
  dc_claim_batches :: nat
  dc_lease :: int
  dc_max_attempts :: nat
  dc_retry_delay :: "nat \<Rightarrow> int"

definition settle :: "dispatcher_config \<Rightarrow> int \<Rightarrow> outbox_batch \<Rightarrow> delivery_result \<Rightarrow> outbox_db \<Rightarrow> outbox_db" where
  "settle cfg now batch result db =
     (let exhausted = (bt_attempts batch \<ge> dc_max_attempts cfg);
          db = (if dr_dead result \<noteq> [] then dead_letter batch (dr_dead result) ''rejected'' (dr_error result) now db else db);
          db = (if dr_retry result \<noteq> [] \<and> exhausted
                then dead_letter batch (dr_retry result) ''max_attempts'' (dr_error result) now db else db)
      in if dr_retry result \<noteq> [] \<and> \<not> exhausted
         then reschedule (bt_id batch) (dr_retry result) (now + dc_retry_delay cfg (bt_attempts batch)) (dr_error result) db
         else complete [bt_id batch] db)"

text \<open>\<open>purge_dead_letters\<close> with the retention in days.\<close>

definition purge_dead_letters :: "nat \<Rightarrow> int \<Rightarrow> outbox_db \<Rightarrow> nat \<times> outbox_db" where
  "purge_dead_letters retention_days now db =
     purge_dead_letter (now - int (max 1 retention_days) * 86400000000) db"

text \<open>
  One \<open>drain_once\<close> with nothing in between; \<open>now i\<close> is the time at which the \<open>i\<close>-th transaction runs, and
  \<open>deliver i\<close> what the sink does with the \<open>i\<close>-th batch.
\<close>

definition drain_once ::
  "(string \<Rightarrow> int option) \<Rightarrow> dispatcher_config \<Rightarrow> string \<Rightarrow> (nat \<Rightarrow> event list \<Rightarrow> delivery_result) \<Rightarrow> (nat \<Rightarrow> int) \<Rightarrow> int set \<Rightarrow>
   outbox_db \<Rightarrow> nat \<times> outbox_db" where
  "drain_once fromiso cfg sink deliver now locked db =
     (case claim fromiso sink (dc_claim_batches cfg) (dc_lease cfg) (now 0) locked db of
        (batches, db1) \<Rightarrow> (length batches,
          fold (\<lambda>(i, b) d. settle cfg (now (i + 1)) b (deliver i (bt_events b)) d) (enumerate 0 batches) db1))"

end
