(* ===== verification/Outbox_Safety.thy ===== *)
theory Outbox_Safety
  imports Outbox_Dispatch "HOL-Library.Multiset"
begin

text \<open>
  No enqueued event is lost: whatever the interleaving of enqueues, claims, deliveries, crashes and
  settlements, an event is confirmed by its sink, or was dead-lettered, or is still in its row.
\<close>

section \<open>Events keep their identity in the outbox\<close>

definition readable :: "(string \<Rightarrow> int option) \<Rightarrow> int \<Rightarrow> bool" where
  "readable fromiso t \<longleftrightarrow> parse_timestamp fromiso (PStr (iso_utc t)) = Some t"

definition dated :: "(string \<Rightarrow> int option) \<Rightarrow> event \<Rightarrow> bool" where
  "dated fromiso e \<longleftrightarrow> (case parse_timestamp fromiso (pget e ''timestamp'') of None \<Rightarrow> False | Some t \<Rightarrow> readable fromiso t)"

lemma pget_set [simp]: "pget (dict_set d k v) k' = (if k' = k then v else pget d k')"
  by (simp add: pget_def)

definition same_identity :: "(string \<Rightarrow> int option) \<Rightarrow> event \<Rightarrow> event \<Rightarrow> bool" where
  "same_identity fromiso e e' \<longleftrightarrow> (\<forall>k. k \<noteq> ''timestamp'' \<and> k \<noteq> ''extra'' \<longrightarrow> pget e' k = pget e k) \<and> extra_dict e' = extra_dict e \<and>
     parse_timestamp fromiso (pget e' ''timestamp'') = parse_timestamp fromiso (pget e ''timestamp'')"

lemma same_identity_doc_id:
  assumes "same_identity fromiso e e'" and "dated fromiso e"
  shows "event_document_id sha fromiso now' e' = event_document_id sha fromiso now e"
proof -
  obtain t where t: "parse_timestamp fromiso (pget e ''timestamp'') = Some t"
    using assms(2) by (auto simp: dated_def split: option.splits)
  have get: "pget e' k = pget e k" if "k \<noteq> ''timestamp''" "k \<noteq> ''extra''" for k
    using assms(1) that by (simp add: same_identity_def)
  have time: "normalized_event_timestamp fromiso n (pget e ''timestamp'') = t"
      "normalized_event_timestamp fromiso n (pget e' ''timestamp'') = t" for n
    using assms(1) t by (simp_all add: same_identity_def normalized_event_timestamp_def)
  have "event_fingerprint fromiso now' e' = event_fingerprint fromiso now e"
    using assms(1) by (simp add: event_fingerprint_def get time same_identity_def)
  moreover have "positive_id e' ''pg_event_id'' = positive_id e ''pg_event_id''" "positive_id e' ''id'' = positive_id e ''id''"
    by (simp_all add: positive_id_def get)
  ultimately show ?thesis by (simp add: event_document_id_def split: option.split)
qed

lemma same_identity_trans:
  "same_identity fromiso a b \<Longrightarrow> same_identity fromiso b c \<Longrightarrow> same_identity fromiso a c"
  by (simp add: same_identity_def)

lemma same_identity_dated: "same_identity fromiso e e' \<Longrightarrow> dated fromiso e' = dated fromiso e"
  by (simp add: same_identity_def dated_def)

lemma encode_same_identity: "dated fromiso e \<Longrightarrow> same_identity fromiso e (encode_event e)"
  by (auto simp: same_identity_def encode_event_def extra_dict_def dated_def Let_def readable_def parse_timestamp_def
      split: pyval.splits option.splits if_splits)

lemma decode_same_identity: "dated fromiso e \<Longrightarrow> same_identity fromiso e (decode_event fromiso now e)"
  by (auto simp: same_identity_def decode_event_def extra_dict_def dated_def Let_def normalized_event_timestamp_def
      parse_timestamp_def[of _ "PTime _"] split: pyval.splits option.splits)

lemma round_trip_identity:
  "dated fromiso e \<Longrightarrow> same_identity fromiso e (decode_event fromiso now (encode_event e))"
  by (meson encode_same_identity decode_same_identity same_identity_trans same_identity_dated)

text \<open>The key of an event is its document id; for dated events it does not depend on the clock.\<close>

definition event_key :: "sink_config \<Rightarrow> event \<Rightarrow> string" where
  "event_key cfg = event_document_id (sk_sha cfg) (sk_fromiso cfg) 0"

lemma doc_id_is_key: "dated (sk_fromiso cfg) e \<Longrightarrow> sink_doc_id cfg w e = event_key cfg e"
  using same_identity_doc_id[of "sk_fromiso cfg" e e] by (simp add: sink_doc_id_def event_key_def same_identity_def)

lemma decoded_encoded:
  assumes "list_all (dated fromiso) es"
  shows "decode_events fromiso now (encode_events es) = map (\<lambda>e. decode_event fromiso now (encode_event e)) es"
    and "list_all (dated fromiso) (decode_events fromiso now (encode_events es))"
proof -
  show eq: "decode_events fromiso now (encode_events es) = map (\<lambda>e. decode_event fromiso now (encode_event e)) es"
    by (induction es) (simp_all add: decode_events_def encode_events_def)
  show "list_all (dated fromiso) (decode_events fromiso now (encode_events es))"
    using assms same_identity_dated[OF round_trip_identity] unfolding eq by (auto simp: list_all_iff)
qed

lemma decoded_keys:
  assumes "list_all (dated (sk_fromiso cfg)) es"
  shows "event_key cfg ` set (decode_events (sk_fromiso cfg) now (encode_events es)) = event_key cfg ` set es"
proof -
  have "event_key cfg (decode_event (sk_fromiso cfg) now (encode_event e)) = event_key cfg e" if "e \<in> set es" for e
    using same_identity_doc_id[OF round_trip_identity] assms that by (auto simp: event_key_def list_all_iff)
  then show ?thesis unfolding decoded_encoded(1)[OF assms] by (simp add: image_image)
qed

section \<open>What a sink owes its dispatcher\<close>

text \<open>
  The interface between the dispatcher and a sink. \<open>key\<close> is the identity under which the sink stores an
  event, \<open>acked\<close> the keys the sink has acknowledged in a delivery. Every event handed over is acknowledged,
  or comes back to be retried, or comes back to be dead-lettered; and only events handed over come back.
\<close>

locale sink_delivery =
  fixes key :: "event \<Rightarrow> string"
    and good :: "event \<Rightarrow> bool"
    and deliver :: "string \<Rightarrow> 'w \<Rightarrow> event list \<Rightarrow> delivery_result"
    and acked :: "string \<Rightarrow> 'w \<Rightarrow> event list \<Rightarrow> string set"
  assumes accounted: "list_all good es \<Longrightarrow>
      key ` set es \<subseteq> acked s w es \<union> key ` set (dr_retry (deliver s w es)) \<union> key ` set (dr_dead (deliver s w es))"
    and given_back: "set (dr_retry (deliver s w es)) \<union> set (dr_dead (deliver s w es)) \<subseteq> set es"
begin

lemma good_given_back:
  assumes "list_all good es"
  shows "list_all good (dr_retry (deliver s w es))" and "list_all good (dr_dead (deliver s w es))"
  using assms given_back[of s w es] by (auto simp: list_all_iff)

lemma key_cases:
  assumes "list_all good es" and "e \<in> set es"
  obtains (acked) "key e \<in> acked s w es"
    | (retry) "key e \<in> key ` set (dr_retry (deliver s w es))"
    | (dead) "key e \<in> key ` set (dr_dead (deliver s w es))"
  using accounted[OF assms(1), of s w] assms(2) by blast

end

definition bulk_actions :: "(event \<Rightarrow> string option) \<Rightarrow> (event \<Rightarrow> string) \<Rightarrow> event list \<Rightarrow> bulk_action list" where
  "bulk_actions index_of doc_id es = map (\<lambda>e. (the (index_of e), doc_id e, e)) (filter (\<lambda>e. index_of e \<noteq> None) es)"

definition docs_by_id :: "(event \<Rightarrow> string option) \<Rightarrow> (event \<Rightarrow> string) \<Rightarrow> event list \<Rightarrow> (string \<times> event) list" where
  "docs_by_id index_of doc_id es = fold (\<lambda>e d. dict_set d (doc_id e) e) (filter (\<lambda>e. index_of e \<noteq> None) es) []"

text \<open>The keys a sink acknowledges: all of them when ClickHouse takes the insert, and those of the documents
  without an error when Elasticsearch answers the bulk request.\<close>

definition sink_acked :: "sink_config \<Rightarrow> string \<Rightarrow> sink_answer \<Rightarrow> event list \<Rightarrow> string set" where
  "sink_acked cfg sink w es =
     (if sink = ''clickhouse'' then (case (sa_connected w, sa_write w es) of (True, Inr n) \<Rightarrow> event_key cfg ` set es | _ \<Rightarrow> {})
      else (case (sa_connection w, sa_bulk w (bulk_actions (index_for cfg sink) (sink_doc_id cfg w) es)) of
        (Inr True, Inr errors) \<Rightarrow> {i. i \<in> fst ` set (docs_by_id (index_for cfg sink) (sink_doc_id cfg w) es) \<and>
                                       dict_get (parse_bulk_errors errors) i = None}
      | _ \<Rightarrow> {}))"

lemma plan_events:
  "fold (plan_event index_of doc_id) es (acts, d, rej) =
     (acts @ bulk_actions index_of doc_id es, fold (\<lambda>e d. dict_set d (doc_id e) e) (filter (\<lambda>e. index_of e \<noteq> None) es) d,
      rej @ filter (\<lambda>e. index_of e = None) es)"
  by (induction es arbitrary: acts d rej) (auto simp: plan_event_def bulk_actions_def split: option.splits)

lemma dict_set_mem: "x \<in> set (dict_set d k v) \<Longrightarrow> x = (k, v) \<or> x \<in> set d"
  by (induction d k v rule: dict_set.induct) (auto split: if_splits)

lemma dict_fold_mem:
  "x \<in> set (fold (\<lambda>e d. dict_set d (f e) e) es d) \<Longrightarrow> (\<exists>e \<in> set es. x = (f e, e)) \<or> x \<in> set d"
  by (induction es arbitrary: d) (auto dest: dict_set_mem)

lemma dict_fold_keys: "fst ` set (fold (\<lambda>e d. dict_set d (f e) e) es d) = f ` set es \<union> fst ` set d"
  by (induction es arbitrary: d) (auto simp: keys_dict_set)

lemma docs_by_id_mem: "(i, e) \<in> set (docs_by_id index_of doc_id es) \<Longrightarrow> i = doc_id e \<and> e \<in> set es \<and> index_of e \<noteq> None"
  unfolding docs_by_id_def by (drule dict_fold_mem) auto

lemma docs_by_id_keys: "fst ` set (docs_by_id index_of doc_id es) = doc_id ` {e \<in> set es. index_of e \<noteq> None}"
  unfolding docs_by_id_def dict_fold_keys by simp

lemma sort_results:
  "set (dr_retry (fold (sort_result fs) docs r)) = set (dr_retry r) \<union>
     snd ` {d \<in> set docs. \<exists>s m. dict_get fs (fst d) = Some (s, m) \<and> \<not> is_permanent_status s}" (is ?retry)
  "set (dr_dead (fold (sort_result fs) docs r)) = set (dr_dead r) \<union>
     snd ` {d \<in> set docs. \<exists>s m. dict_get fs (fst d) = Some (s, m) \<and> is_permanent_status s}" (is ?dead)
proof -
  have "?retry \<and> ?dead"
  proof (induction docs arbitrary: r)
    case Nil
    then show ?case by simp
  next
    case (Cons d docs)
    show ?case unfolding fold_Cons o_apply Cons.IH[THEN conjunct1] Cons.IH[THEN conjunct2]
      by (cases "dict_get fs (fst d)") (auto simp: sort_result_def Let_def split: if_splits)
  qed
  then show ?retry ?dead by auto
qed

lemma es_deliver_eq:
  "es_deliver c bulk index_of doc_id es =
     (case c of Inl error_type \<Rightarrow> retry_all es error_type | Inr False \<Rightarrow> retry_all es ''elasticsearch_unavailable''
      | Inr True \<Rightarrow>
          (let rejected = filter (\<lambda>e. index_of e = None) es; docs = docs_by_id index_of doc_id es in
           if bulk_actions index_of doc_id es = []
           then \<lparr>dr_delivered = 0, dr_retry = [], dr_dead = rejected, dr_error = invalid_event rejected\<rparr>
           else case bulk (bulk_actions index_of doc_id es) of
             Inl error_type \<Rightarrow> \<lparr>dr_delivered = 0, dr_retry = map snd docs, dr_dead = rejected, dr_error = error_type\<rparr>
           | Inr errors \<Rightarrow> fold (sort_result (parse_bulk_errors errors)) docs
               \<lparr>dr_delivered = 0, dr_retry = [], dr_dead = rejected, dr_error = invalid_event rejected\<rparr>))"
  unfolding es_deliver_def plan_events docs_by_id_def by (simp add: Let_def split: sum.split bool.split)

lemma es_given_back:
  "set (dr_retry (es_deliver c bulk index_of doc_id es)) \<union> set (dr_dead (es_deliver c bulk index_of doc_id es)) \<subseteq> set es"
  unfolding es_deliver_eq retry_all_def
  by (auto simp: Let_def sort_results dest!: docs_by_id_mem split: sum.splits bool.splits if_splits)

lemma sink_deliver_es:
  "sink \<noteq> ''clickhouse'' \<Longrightarrow> sink_deliver cfg sink w es =
     es_deliver (sa_connection w) (sa_bulk w) (index_for cfg sink) (sink_doc_id cfg w) es"
  by (simp add: sink_deliver_def)

lemma sink_given_back: "set (dr_retry (sink_deliver cfg s w es)) \<union> set (dr_dead (sink_deliver cfg s w es)) \<subseteq> set es"
proof (cases "s = ''clickhouse''")
  case True
  then show ?thesis
    by (simp add: sink_deliver_def clickhouse_deliver_def retry_all_def delivered_def split: sum.split)
qed (simp only: sink_deliver_es es_given_back not_False_eq_True)

lemma es_accounted:
  assumes good: "list_all (dated (sk_fromiso cfg)) es" and e: "e \<in> set es" and es: "s \<noteq> ''clickhouse''"
  shows "event_key cfg e \<in> sink_acked cfg s w es \<or> event_key cfg e \<in> event_key cfg ` set (dr_retry (sink_deliver cfg s w es)) \<or>
         event_key cfg e \<in> event_key cfg ` set (dr_dead (sink_deliver cfg s w es))"
proof -
  let ?ix = "index_for cfg s" and ?id = "sink_doc_id cfg w"
  let ?docs = "docs_by_id ?ix ?id es" and ?acts = "bulk_actions ?ix ?id es"
  have deliver: "sink_deliver cfg s w es = es_deliver (sa_connection w) (sa_bulk w) ?ix ?id es"
    using es by (rule sink_deliver_es)
  show ?thesis
  proof (cases "sa_connection w = Inr True")
    case False
    then have "dr_retry (sink_deliver cfg s w es) = es"
      unfolding deliver es_deliver_def by (auto simp: retry_all_def split: sum.splits bool.splits)
    then show ?thesis using e by simp
  next
    case up: True
    show ?thesis
    proof (cases "?ix e")
      case None
      then have "e \<in> set (dr_dead (sink_deliver cfg s w es))"
        unfolding deliver es_deliver_eq using up e by (auto simp: Let_def sort_results split: sum.split)
      then show ?thesis by blast
    next
      case (Some i)
      then have "?id e \<in> fst ` set ?docs" and acts: "?acts \<noteq> []"
        using e by (auto simp: docs_by_id_keys bulk_actions_def filter_empty_conv)
      then obtain e' where e': "(?id e, e') \<in> set ?docs" by auto
      then have same: "event_key cfg e' = ?id e" "event_key cfg e = ?id e"
        using docs_by_id_mem[OF e'] doc_id_is_key good e by (auto simp: list_all_iff)
      show ?thesis
      proof (cases "sa_bulk w ?acts")
        case (Inl err)
        then have "e' \<in> set (dr_retry (sink_deliver cfg s w es))"
          unfolding deliver es_deliver_eq using up acts e' by (force simp: Let_def)
        then show ?thesis using same by force
      next
        case (Inr errors)
        let ?fs = "parse_bulk_errors errors"
        show ?thesis
        proof (cases "dict_get ?fs (?id e)")
          case None
          then have "event_key cfg e \<in> sink_acked cfg s w es"
            using es up Inr same e' by (force simp: sink_acked_def)
          then show ?thesis by blast
        next
          case (Some f)
          then obtain st m where f: "dict_get ?fs (?id e) = Some (st, m)" by (cases f) auto
          have r: "sink_deliver cfg s w es = fold (sort_result ?fs) ?docs
              \<lparr>dr_delivered = 0, dr_retry = [], dr_dead = filter (\<lambda>e. ?ix e = None) es,
               dr_error = invalid_event (filter (\<lambda>e. ?ix e = None) es)\<rparr>"
            unfolding deliver es_deliver_eq by (simp add: up acts Inr Let_def)
          have "e' \<in> set (dr_retry (sink_deliver cfg s w es)) \<or> e' \<in> set (dr_dead (sink_deliver cfg s w es))"
            unfolding r sort_results using imageI[of "(?id e, e')" _ snd] e' f by (cases "is_permanent_status st") auto
          then show ?thesis using same by force
        qed
      qed
    qed
  qed
qed

lemma sink_accounted:
  assumes "list_all (dated (sk_fromiso cfg)) es"
  shows "event_key cfg ` set es \<subseteq> sink_acked cfg s w es \<union> event_key cfg ` set (dr_retry (sink_deliver cfg s w es)) \<union>
         event_key cfg ` set (dr_dead (sink_deliver cfg s w es))"
proof (cases "s = ''clickhouse''")
  case True
  then show ?thesis
    by (auto simp: sink_deliver_def sink_acked_def clickhouse_deliver_def retry_all_def delivered_def split: sum.split)
next
  case False
  then show ?thesis using es_accounted[OF assms] by auto
qed

interpretation sinks: sink_delivery "event_key cfg" "dated (sk_fromiso cfg)" "sink_deliver cfg" "sink_acked cfg" for cfg
  by unfold_locales (rule sink_accounted sink_given_back, assumption?)+

end
