(* ===== verification/Outbox_Pipeline.thy ===== *)
theory Outbox_Pipeline
  imports Outbox_Safety
begin

text \<open>
  The runs of the pipeline from the outbox to the sinks: producers that enqueue, any number of dispatchers
  that claim, deliver and settle, crashes, lapsed leases and purges, in any order. What was sent, acknowledged
  and dead-lettered is recorded in three sets that no operation reads.
\<close>

section \<open>State and steps\<close>

text \<open>A batch in the hands of a dispatcher: claimed, or answered by its sink and not yet settled.\<close>

datatype in_flight = Claimed outbox_batch | Answered outbox_batch delivery_result

fun flight_batch :: "in_flight \<Rightarrow> outbox_batch" where
  "flight_batch (Claimed b) = b"
| "flight_batch (Answered b r) = b"

fun flight_pending :: "in_flight \<Rightarrow> event list" where
  "flight_pending (Claimed b) = bt_events b"
| "flight_pending (Answered b r) = dr_retry r @ dr_dead r"

text \<open>\<open>pl_sent\<close>: row, sink and key of every enqueued event; \<open>pl_acked\<close>, \<open>pl_dead\<close>: sink and key of every
  event ever acknowledged or put among the dead letters.\<close>

record pipeline =
  pl_db :: outbox_db
  pl_flight :: "in_flight multiset"
  pl_sent :: "(int \<times> string \<times> string) set"
  pl_acked :: "(string \<times> string) set"
  pl_dead :: "(string \<times> string) set"

definition payload_keys :: "sink_config \<Rightarrow> pyval \<Rightarrow> string set" where
  "payload_keys cfg payload = event_key cfg ` set (decode_events (sk_fromiso cfg) 0 payload)"

definition dead_keys :: "sink_config \<Rightarrow> outbox_db \<Rightarrow> (string \<times> string) set" where
  "dead_keys cfg db = (\<Union>d \<in> set (od_dead db). {dl_sink d} \<times> payload_keys cfg (dl_payload d))"

definition new_keys :: "sink_config \<Rightarrow> string \<Rightarrow> int \<Rightarrow> event list list \<Rightarrow> (int \<times> string \<times> string) set" where
  "new_keys cfg sink first cs = (\<Union>i < length cs. {first + int i} \<times> {sink} \<times> event_key cfg ` set (cs ! i))"

definition empty_pipeline :: pipeline where
  "empty_pipeline = \<lparr>pl_db = \<lparr>od_rows = [], od_dead = [], od_next_id = 1\<rparr>, pl_flight = {#}, pl_sent = {}, pl_acked = {}, pl_dead = {}\<rparr>"

inductive pipeline_step :: "sink_config \<Rightarrow> dispatcher_config \<Rightarrow> pipeline \<Rightarrow> pipeline \<Rightarrow> bool" for cfg dc where
  enqueued: "enqueue sink events chunk_size now (pl_db st) = Inr (n, db) \<Longrightarrow> list_all (dated (sk_fromiso cfg)) events \<Longrightarrow>
    pipeline_step cfg dc st (st\<lparr>pl_db := db,
      pl_sent := pl_sent st \<union> new_keys cfg sink (od_next_id (pl_db st)) (chunks events chunk_size)\<rparr>)"
| claimed: "claim (sk_fromiso cfg) sink limit lease now locked (pl_db st) = (batches, db) \<Longrightarrow>
    pipeline_step cfg dc st (st\<lparr>pl_db := db, pl_flight := pl_flight st + mset (map Claimed batches)\<rparr>)"
| answered: "Claimed b \<in># pl_flight st \<Longrightarrow> r = sink_deliver cfg (bt_sink b) w (bt_events b) \<Longrightarrow>
    pipeline_step cfg dc st (st\<lparr>pl_flight := pl_flight st - {#Claimed b#} + {#Answered b r#},
      pl_acked := pl_acked st \<union> {bt_sink b} \<times> sink_acked cfg (bt_sink b) w (bt_events b)\<rparr>)"
| settled: "Answered b r \<in># pl_flight st \<Longrightarrow> db = settle dc now b r (pl_db st) \<Longrightarrow>
    pipeline_step cfg dc st (st\<lparr>pl_db := db, pl_flight := pl_flight st - {#Answered b r#}, pl_dead := pl_dead st \<union> dead_keys cfg db\<rparr>)"
| crashed: "flight \<subseteq># pl_flight st \<Longrightarrow> pipeline_step cfg dc st (st\<lparr>pl_flight := flight\<rparr>)"
| purged: "purge_dead_letter older (pl_db st) = (n, db) \<Longrightarrow> pipeline_step cfg dc st (st\<lparr>pl_db := db\<rparr>)"

section \<open>The invariant\<close>

definition settled_keys :: "pipeline \<Rightarrow> (string \<times> string) set" where
  "settled_keys st = pl_acked st \<union> pl_dead st"

definition good_payload :: "sink_config \<Rightarrow> pyval \<Rightarrow> bool" where
  "good_payload cfg payload \<longleftrightarrow> (\<exists>es. payload = encode_events es \<and> list_all (dated (sk_fromiso cfg)) es)"

definition rows_ok :: "sink_config \<Rightarrow> pipeline \<Rightarrow> bool" where
  "rows_ok cfg st \<longleftrightarrow> distinct (map ob_id (od_rows (pl_db st))) \<and>
     (\<forall>r \<in> set (od_rows (pl_db st)). ob_id r < od_next_id (pl_db st) \<and> good_payload cfg (ob_payload r))"

definition flight_ok :: "sink_config \<Rightarrow> pipeline \<Rightarrow> bool" where
  "flight_ok cfg st \<longleftrightarrow> (\<forall>x \<in># pl_flight st. bt_id (flight_batch x) < od_next_id (pl_db st) \<and>
     list_all (dated (sk_fromiso cfg)) (flight_pending x))"

definition sent_ok :: "pipeline \<Rightarrow> bool" where
  "sent_ok st \<longleftrightarrow> (\<forall>(i, s, k) \<in> pl_sent st. i < od_next_id (pl_db st) \<and>
     (\<forall>r \<in> set (od_rows (pl_db st)). ob_id r = i \<longrightarrow> ob_sink r = s) \<and>
     (\<forall>x \<in># pl_flight st. bt_id (flight_batch x) = i \<longrightarrow> bt_sink (flight_batch x) = s))"

definition kept :: "sink_config \<Rightarrow> pipeline \<Rightarrow> bool" where
  "kept cfg st \<longleftrightarrow> (\<forall>(i, s, k) \<in> pl_sent st. (s, k) \<in> settled_keys st \<or>
     (\<exists>r \<in> set (od_rows (pl_db st)). ob_id r = i \<and> k \<in> payload_keys cfg (ob_payload r)))"

definition covered :: "sink_config \<Rightarrow> pipeline \<Rightarrow> bool" where
  "covered cfg st \<longleftrightarrow> (\<forall>x \<in># pl_flight st. \<forall>(i, s, k) \<in> pl_sent st. i = bt_id (flight_batch x) \<longrightarrow>
     (s, k) \<in> settled_keys st \<or> k \<in> event_key cfg ` set (flight_pending x))"

definition pipeline_inv :: "sink_config \<Rightarrow> pipeline \<Rightarrow> bool" where
  "pipeline_inv cfg st \<longleftrightarrow> rows_ok cfg st \<and> flight_ok cfg st \<and> sent_ok st \<and> kept cfg st \<and> covered cfg st"

lemma coveredI:
  assumes "\<And>x i s k. x \<in># pl_flight st \<Longrightarrow> (i, s, k) \<in> pl_sent st \<Longrightarrow> i = bt_id (flight_batch x) \<Longrightarrow>
      (s, k) \<in> settled_keys st \<or> k \<in> event_key cfg ` set (flight_pending x)"
  shows "covered cfg st"
  using assms unfolding covered_def by blast

lemma keptI:
  assumes "\<And>i s k. (i, s, k) \<in> pl_sent st \<Longrightarrow> (s, k) \<in> settled_keys st \<or>
      (\<exists>r \<in> set (od_rows (pl_db st)). ob_id r = i \<and> k \<in> payload_keys cfg (ob_payload r))"
  shows "kept cfg st"
  using assms unfolding kept_def by blast

lemmas inv_defs = pipeline_inv_def rows_ok_def flight_ok_def sent_ok_def kept_def covered_def settled_keys_def

section \<open>What the operations do to rows and keys\<close>

lemma encoded_keys:
  "list_all (dated (sk_fromiso cfg)) es \<Longrightarrow> payload_keys cfg (encode_events es) = event_key cfg ` set es"
  by (simp add: payload_keys_def decoded_keys)

lemma good_encoded [intro]: "list_all (dated (sk_fromiso cfg)) es \<Longrightarrow> good_payload cfg (encode_events es)"
  by (auto simp: good_payload_def)

lemma good_decoded:
  assumes "good_payload cfg p"
  shows "list_all (dated (sk_fromiso cfg)) (decode_events (sk_fromiso cfg) now p)"
    and "event_key cfg ` set (decode_events (sk_fromiso cfg) now p) = payload_keys cfg p"
proof -
  obtain es where p: "p = encode_events es" "list_all (dated (sk_fromiso cfg)) es"
    using assms by (auto simp: good_payload_def)
  show "list_all (dated (sk_fromiso cfg)) (decode_events (sk_fromiso cfg) now p)"
    unfolding p(1) by (rule decoded_encoded(2)[OF p(2)])
  show "event_key cfg ` set (decode_events (sk_fromiso cfg) now p) = payload_keys cfg p"
    unfolding p(1) decoded_keys[OF p(2)] encoded_keys[OF p(2)] ..
qed

lemma claim_rows:
  assumes "claim fromiso sink limit lease now locked db = (bs, db')"
  obtains f where "db' = db\<lparr>od_rows := map f (od_rows db)\<rparr>"
    and "\<And>r. ob_id (f r) = ob_id r" and "\<And>r. ob_sink (f r) = ob_sink r" and "\<And>r. ob_payload (f r) = ob_payload r"
proof -
  let ?ids = "set (map ob_id (take (max 1 limit) (due_rows sink now locked db)))"
  let ?f = "\<lambda>r. if ob_id r \<in> ?ids then lease_row (now + max 1000000 lease) r else r"
  have "db' = db\<lparr>od_rows := map ?f (od_rows db)\<rparr>" using assms by (simp add: claim_def Let_def)
  then show ?thesis by (rule that) (simp_all add: lease_row_def)
qed

lemma claim_batches:
  assumes "claim fromiso sink limit lease now locked db = (bs, db')" and "b \<in> set bs"
  obtains r where "r \<in> set (od_rows db)" and "bt_id b = ob_id r" and "bt_sink b = ob_sink r"
    and "bt_events b = decode_events fromiso now (ob_payload r)"
  using assms by (auto simp: claim_def Let_def lease_row_def batch_of_def split: if_splits)

section \<open>Every step keeps the invariant\<close>

lemma inv_initial: "pipeline_inv cfg empty_pipeline"
  by (simp add: inv_defs empty_pipeline_def)

lemma concat_chunks: "concat (chunks xs n) = xs"
  by (induction xs n rule: chunks.induct) (subst chunks.simps, simp)

lemma chunk_dated: "list_all P xs \<Longrightarrow> c \<in> set (chunks xs n) \<Longrightarrow> list_all P c"
  using concat_chunks[of xs n] by (metis in_set_conv_nth list_all_iff UN_iff set_concat)

lemma enqueue_rows:
  assumes "enqueue sink es chunk_size now db = Inr (n, db')"
  shows "n = length (chunks es chunk_size)"
    and "db' = db\<lparr>od_rows := od_rows db @ map (\<lambda>i. new_row sink now (od_next_id db + int i) (chunks es chunk_size ! i)) [0..<n],
                  od_next_id := od_next_id db + int n\<rparr>"
proof -
  let ?cs = "chunks es chunk_size"
  have rows: "map2 (new_row sink now) [od_next_id db..od_next_id db + int (length ?cs) - 1] ?cs =
      map (\<lambda>i. new_row sink now (od_next_id db + int i) (?cs ! i)) [0..<length ?cs]"
    by (rule nth_equalityI) auto
  show "n = length ?cs" and "db' = db\<lparr>od_rows := od_rows db @ map (\<lambda>i. new_row sink now (od_next_id db + int i) (?cs ! i)) [0..<n],
                  od_next_id := od_next_id db + int n\<rparr>"
    using assms rows by (auto simp: enqueue_def chunks.simps[of "[]"] Let_def split: if_splits)
qed

lemma new_keys_iff:
  "(i, s, k) \<in> new_keys cfg sink first cs \<longleftrightarrow>
     s = sink \<and> (\<exists>j < length cs. i = first + int j \<and> k \<in> event_key cfg ` set (cs ! j))"
  by (auto simp: new_keys_def)

lemma inv_enqueued:
  assumes inv: "pipeline_inv cfg st" and enq: "enqueue sink es chunk_size now (pl_db st) = Inr (n, db)"
    and dated: "list_all (dated (sk_fromiso cfg)) es"
  shows "pipeline_inv cfg (st\<lparr>pl_db := db, pl_sent := pl_sent st \<union> new_keys cfg sink (od_next_id (pl_db st)) (chunks es chunk_size)\<rparr>)"
    (is "pipeline_inv cfg ?st")
proof -
  let ?cs = "chunks es chunk_size" and ?next = "od_next_id (pl_db st)"
  let ?new = "map (\<lambda>i. new_row sink now (?next + int i) (?cs ! i)) [0..<n]"
  note n = enqueue_rows(1)[OF enq] and db = enqueue_rows(2)[OF enq]
  have chunk: "list_all (dated (sk_fromiso cfg)) (?cs ! i)" if "i < n" for i
    using chunk_dated[OF dated nth_mem] that n by blast
  have new: "payload_keys cfg (ob_payload (new_row sink now (?next + int i) (?cs ! i))) = event_key cfg ` set (?cs ! i)" if "i < n" for i
    using encoded_keys[OF chunk[OF that]] by (simp add: new_row_def)
  have old: "ob_id r < ?next" "good_payload cfg (ob_payload r)" if "r \<in> set (od_rows (pl_db st))" for r
    using inv that by (simp_all add: pipeline_inv_def rows_ok_def)
  have ids: "map ob_id (od_rows db) = map ob_id (od_rows (pl_db st)) @ map (\<lambda>i. ?next + int i) [0..<n]"
    by (simp add: db new_row_def comp_def)
  have "distinct (map (\<lambda>i. ?next + int i) [0..<n])" by (simp add: distinct_map inj_on_def)
  moreover have "distinct (map ob_id (od_rows (pl_db st)))" using inv by (simp add: pipeline_inv_def rows_ok_def)
  ultimately have "distinct (map ob_id (od_rows db))" unfolding ids using old(1) by fastforce
  then have "rows_ok cfg ?st"
    using old good_encoded[OF chunk] by (auto simp: rows_ok_def db new_row_def dest: old(1))
  moreover have "flight_ok cfg ?st"
    using inv by (fastforce simp: inv_defs db)
  moreover have "sent_ok ?st"
    using inv n by (fastforce simp: inv_defs db new_keys_iff new_row_def)
  moreover have "kept cfg ?st"
  proof -
    have "(s, k) \<in> settled_keys ?st \<or> (\<exists>r \<in> set (od_rows db). ob_id r = i \<and> k \<in> payload_keys cfg (ob_payload r))"
      if sent: "(i, s, k) \<in> pl_sent ?st" for i s k
    proof (cases "(i, s, k) \<in> pl_sent st")
      case True
      then show ?thesis using inv by (fastforce simp: pipeline_inv_def kept_def settled_keys_def db)
    next
      case False
      then obtain j where j: "j < n" "i = ?next + int j" "k \<in> event_key cfg ` set (?cs ! j)"
        using sent n by (auto simp: new_keys_iff)
      then have "new_row sink now i (?cs ! j) \<in> set (od_rows db)" "ob_id (new_row sink now i (?cs ! j)) = i"
        by (auto simp: db new_row_def)
      then show ?thesis using new[OF j(1)] j by blast
    qed
    then show ?thesis by (auto simp: kept_def)
  qed
  moreover have "covered cfg ?st"
    using inv by (fastforce simp: inv_defs db new_keys_iff)
  ultimately show ?thesis by (simp add: pipeline_inv_def)
qed

lemma inv_claimed:
  assumes inv: "pipeline_inv cfg st" and claim: "claim (sk_fromiso cfg) sink limit lease now locked (pl_db st) = (bs, db)"
  shows "pipeline_inv cfg (st\<lparr>pl_db := db, pl_flight := pl_flight st + mset (map Claimed bs)\<rparr>)" (is "pipeline_inv cfg ?st")
proof -
  obtain f where db: "db = pl_db st\<lparr>od_rows := map f (od_rows (pl_db st))\<rparr>"
    and f [simp]: "\<And>r. ob_id (f r) = ob_id r" "\<And>r. ob_sink (f r) = ob_sink r" "\<And>r. ob_payload (f r) = ob_payload r"
    using claim_rows[OF claim] by blast
  have bs: "\<exists>r \<in> set (od_rows (pl_db st)). bt_id b = ob_id r \<and> bt_sink b = ob_sink r \<and>
      bt_events b = decode_events (sk_fromiso cfg) now (ob_payload r)" if "b \<in> set bs" for b
    by (rule claim_batches[OF claim that]) blast
  have "rows_ok cfg ?st" using inv by (simp add: inv_defs db comp_def)
  moreover have "flight_ok cfg ?st"
    using inv by (auto simp: inv_defs db good_decoded(1) dest!: bs)
  moreover have "sent_ok ?st"
    using inv by (auto simp: inv_defs db dest!: bs; fastforce)
  moreover have "kept cfg ?st"
    using inv by (fastforce simp: inv_defs db)
  moreover have "covered cfg ?st"
    unfolding covered_def
  proof (clarify, goal_cases)
    case (1 x i s k)
    show ?case
    proof (cases "x \<in># pl_flight st")
      case True
      then show ?thesis using 1 inv by (auto simp: inv_defs)
    next
      case False
      with 1 obtain b where b: "x = Claimed b" "b \<in> set bs" by auto
      then obtain r where r: "r \<in> set (od_rows (pl_db st))" "bt_id b = ob_id r"
        "bt_events b = decode_events (sk_fromiso cfg) now (ob_payload r)" using bs by blast
      have keys: "event_key cfg ` set (bt_events b) = payload_keys cfg (ob_payload r)"
        using good_decoded(2) inv r by (auto simp: pipeline_inv_def rows_ok_def)
      have "(s, k) \<in> settled_keys st \<or> (\<exists>r' \<in> set (od_rows (pl_db st)). ob_id r' = ob_id r \<and> k \<in> payload_keys cfg (ob_payload r'))"
        using inv 1 b r by (auto simp: pipeline_inv_def kept_def)
      moreover have "r' = r" if "r' \<in> set (od_rows (pl_db st))" "ob_id r' = ob_id r" for r'
        using inv r that by (auto simp: pipeline_inv_def rows_ok_def distinct_map inj_on_def)
      ultimately have "(s, k) \<in> settled_keys st \<or> k \<in> payload_keys cfg (ob_payload r)" by blast
      then show ?thesis using b keys 1 by (auto simp: settled_keys_def)
    qed
  qed
  ultimately show ?thesis by (simp add: pipeline_inv_def)
qed

lemma inv_answered:
  assumes inv: "pipeline_inv cfg st" and b: "Claimed b \<in># pl_flight st"
    and r: "r = sink_deliver cfg (bt_sink b) w (bt_events b)"
  shows "pipeline_inv cfg (st\<lparr>pl_flight := pl_flight st - {#Claimed b#} + {#Answered b r#},
      pl_acked := pl_acked st \<union> {bt_sink b} \<times> sink_acked cfg (bt_sink b) w (bt_events b)\<rparr>)" (is "pipeline_inv cfg ?st")
proof -
  have good: "list_all (dated (sk_fromiso cfg)) (bt_events b)"
    using inv b by (force simp: pipeline_inv_def flight_ok_def)
  have flight: "x \<in># pl_flight st \<or> x = Answered b r" if "x \<in># pl_flight ?st" for x
    using that by (auto dest: in_diffD)
  have more: "settled_keys st \<subseteq> settled_keys ?st" by (auto simp: settled_keys_def)
  have "rows_ok cfg ?st" using inv by (simp add: pipeline_inv_def rows_ok_def)
  moreover have "flight_ok cfg ?st"
    using inv b sinks.good_given_back[OF good] by (auto simp: pipeline_inv_def flight_ok_def r dest!: in_diffD)
  moreover have "sent_ok ?st"
    using inv b by (fastforce simp: pipeline_inv_def sent_ok_def dest: in_diffD)
  moreover have "kept cfg ?st"
    using inv more by (fastforce simp: pipeline_inv_def kept_def)
  moreover have "covered cfg ?st"
  proof -
    have "(s, k) \<in> settled_keys ?st \<or> k \<in> event_key cfg ` set (flight_pending x)"
      if x: "x \<in># pl_flight ?st" and sent': "(i, s, k) \<in> pl_sent ?st" and i: "i = bt_id (flight_batch x)" for x i s k
    proof -
      have sent: "(i, s, k) \<in> pl_sent st" using sent' by simp
      show ?thesis using flight[OF x]
      proof
        assume "x \<in># pl_flight st"
        then show ?thesis using inv sent i more by (fastforce simp: pipeline_inv_def covered_def)
      next
        assume x: "x = Answered b r"
        have s: "s = bt_sink b" using inv b sent i x by (fastforce simp: pipeline_inv_def sent_ok_def)
        have "(s, k) \<in> settled_keys st \<or> k \<in> event_key cfg ` set (bt_events b)"
          using inv b sent i x by (fastforce simp: pipeline_inv_def covered_def)
        then show ?thesis
          using sinks.accounted[OF good, of "bt_sink b" w] s more x by (auto simp: settled_keys_def r)
      qed
    qed
    then show ?thesis by (rule coveredI)
  qed
  ultimately show ?thesis by (simp add: pipeline_inv_def)
qed

lemma settle_rows:
  "od_rows (settle dc now b r db) =
     (if dr_retry r \<noteq> [] \<and> bt_attempts b < dc_max_attempts dc
      then map (\<lambda>x. if ob_id x = bt_id b
        then x\<lparr>ob_payload := encode_events (dr_retry r), ob_event_count := length (dr_retry r),
               ob_available_at := now + dc_retry_delay dc (bt_attempts b), ob_last_error := error_text (dr_error r)\<rparr> else x) (od_rows db)
      else filter (\<lambda>x. ob_id x \<noteq> bt_id b) (od_rows db))"
  by (simp add: settle_def dead_letter_def reschedule_def complete_def Let_def not_le)

lemma settle_next_id: "od_next_id (settle dc now b r db) = od_next_id db"
  by (simp add: settle_def dead_letter_def reschedule_def complete_def Let_def)

lemma settle_dead:
  "es \<noteq> [] \<Longrightarrow> es = dr_dead r \<or> es = dr_retry r \<and> dc_max_attempts dc \<le> bt_attempts b \<Longrightarrow>
     \<exists>dl \<in> set (od_dead (settle dc now b r db)). dl_sink dl = bt_sink b \<and> dl_payload dl = encode_events es"
  by (auto simp: settle_def dead_letter_def reschedule_def complete_def Let_def)

lemma settle_dead_keys:
  assumes "list_all (dated (sk_fromiso cfg)) es" and "k \<in> event_key cfg ` set es"
    and "es = dr_dead r \<or> es = dr_retry r \<and> dc_max_attempts dc \<le> bt_attempts b"
  shows "(bt_sink b, k) \<in> dead_keys cfg (settle dc now b r db)"
proof -
  have "\<exists>dl \<in> set (od_dead (settle dc now b r db)). dl_sink dl = bt_sink b \<and> dl_payload dl = encode_events es"
    using assms(2, 3) by (intro settle_dead) auto
  then show ?thesis using encoded_keys[OF assms(1)] assms(2) by (force simp: dead_keys_def)
qed

lemma inv_settled:
  assumes inv: "pipeline_inv cfg st" and b: "Answered b r \<in># pl_flight st" and db: "db = settle dc now b r (pl_db st)"
  shows "pipeline_inv cfg (st\<lparr>pl_db := db, pl_flight := pl_flight st - {#Answered b r#}, pl_dead := pl_dead st \<union> dead_keys cfg db\<rparr>)"
    (is "pipeline_inv cfg ?st")
proof -
  let ?again = "dr_retry r \<noteq> [] \<and> bt_attempts b < dc_max_attempts dc"
  have good: "list_all (dated (sk_fromiso cfg)) (dr_retry r)" "list_all (dated (sk_fromiso cfg)) (dr_dead r)"
    using inv b by (force simp: pipeline_inv_def flight_ok_def)+
  have more: "settled_keys st \<subseteq> settled_keys ?st" "dead_keys cfg db \<subseteq> settled_keys ?st" by (auto simp: settled_keys_def)
  have ids: "map ob_id (od_rows db) = (if ?again then map ob_id (od_rows (pl_db st)) else filter (\<lambda>i. i \<noteq> bt_id b) (map ob_id (od_rows (pl_db st))))"
    by (simp add: db settle_rows filter_map comp_def)
  have "distinct (map ob_id (od_rows db))" using inv unfolding ids by (simp add: pipeline_inv_def rows_ok_def)
  moreover have "ob_id x < od_next_id db \<and> good_payload cfg (ob_payload x)" if "x \<in> set (od_rows db)" for x
    using that inv good_encoded[OF good(1)] by (auto simp: pipeline_inv_def rows_ok_def db settle_rows settle_next_id split: if_splits)
  ultimately have "rows_ok cfg ?st" by (simp add: rows_ok_def)
  moreover have "flight_ok cfg ?st"
    using inv by (auto simp: pipeline_inv_def flight_ok_def db settle_next_id dest: in_diffD)
  moreover have "sent_ok ?st"
    using inv by (auto simp: pipeline_inv_def sent_ok_def db settle_next_id settle_rows dest!: in_diffD split: if_splits)
  moreover have "covered cfg ?st"
  proof (rule coveredI)
    fix x i s k assume "x \<in># pl_flight ?st" "(i, s, k) \<in> pl_sent ?st" "i = bt_id (flight_batch x)"
    then have "(s, k) \<in> settled_keys st \<or> k \<in> event_key cfg ` set (flight_pending x)"
      using inv by (fastforce simp: pipeline_inv_def covered_def dest: in_diffD)
    then show "(s, k) \<in> settled_keys ?st \<or> k \<in> event_key cfg ` set (flight_pending x)" using more by blast
  qed
  moreover have "kept cfg ?st"
  proof (rule keptI)
    fix i s k assume "(i, s, k) \<in> pl_sent ?st"
    then have sent: "(i, s, k) \<in> pl_sent st" by simp
    then have old: "(s, k) \<in> settled_keys st \<or> (\<exists>x \<in> set (od_rows (pl_db st)). ob_id x = i \<and> k \<in> payload_keys cfg (ob_payload x))"
      using inv by (auto simp: pipeline_inv_def kept_def)
    show "(s, k) \<in> settled_keys ?st \<or> (\<exists>x \<in> set (od_rows (pl_db ?st)). ob_id x = i \<and> k \<in> payload_keys cfg (ob_payload x))"
    proof (cases "i = bt_id b")
      case False
      then have "x \<in> set (od_rows db)" if "x \<in> set (od_rows (pl_db st))" "ob_id x = i" for x
        using that by (force simp: db settle_rows)
      then show ?thesis using old more by auto
    next
      case i: True
      have s: "s = bt_sink b" using inv b sent i by (fastforce simp: pipeline_inv_def sent_ok_def)
      have "(s, k) \<in> settled_keys st \<or> k \<in> event_key cfg ` set (dr_retry r @ dr_dead r)"
        using inv b sent i by (fastforce simp: pipeline_inv_def covered_def)
      then consider "(s, k) \<in> settled_keys st" | "k \<in> event_key cfg ` set (dr_dead r)" | "k \<in> event_key cfg ` set (dr_retry r)"
        by auto
      then show ?thesis
      proof cases
        case 1
        then show ?thesis using more by blast
      next
        case 2
        then have "(s, k) \<in> dead_keys cfg db" using settle_dead_keys[OF good(2)] s db by blast
        then show ?thesis using more by blast
      next
        case 3
        show ?thesis
        proof (cases "bt_attempts b < dc_max_attempts dc")
          case False
          then have "(s, k) \<in> dead_keys cfg db" using settle_dead_keys[OF good(1) 3] s db by (simp add: not_less)
          then show ?thesis using more by blast
        next
          case True
          then have again: ?again using 3 by auto
          have "\<exists>y \<in> set (od_rows db). ob_id y = i \<and> ob_payload y = encode_events (dr_retry r)"
            if "x \<in> set (od_rows (pl_db st))" "ob_id x = i" for x
            using that i again unfolding db settle_rows by (auto simp: bex_Un)
          then have "(s, k) \<in> settled_keys st \<or> (\<exists>x \<in> set (od_rows db). ob_id x = i \<and> ob_payload x = encode_events (dr_retry r))"
            using old by blast
          then show ?thesis using more encoded_keys[OF good(1)] 3 by auto
        qed
      qed
    qed
  qed
  ultimately show ?thesis by (simp add: pipeline_inv_def)
qed

lemma inv_crashed:
  assumes "pipeline_inv cfg st" and "flight \<subseteq># pl_flight st"
  shows "pipeline_inv cfg (st\<lparr>pl_flight := flight\<rparr>)"
  using assms(1) mset_subset_eqD[OF assms(2)] unfolding inv_defs by fastforce

lemma inv_purged: "pipeline_inv cfg st \<Longrightarrow> purge_dead_letter older (pl_db st) = (n, db) \<Longrightarrow> pipeline_inv cfg (st\<lparr>pl_db := db\<rparr>)"
  by (auto simp: inv_defs purge_dead_letter_def Let_def)

lemma inv_step: "pipeline_step cfg dc st st' \<Longrightarrow> pipeline_inv cfg st \<Longrightarrow> pipeline_inv cfg st'"
  by (induction rule: pipeline_step.induct)
    (blast intro: inv_enqueued inv_claimed inv_answered inv_settled inv_crashed inv_purged)+

lemma inv_reachable: "(pipeline_step cfg dc)\<^sup>*\<^sup>* empty_pipeline st \<Longrightarrow> pipeline_inv cfg st"
  by (induction rule: rtranclp_induct) (auto intro: inv_initial inv_step)

end
