(* ===== verification/Outbox_Properties.thy ===== *)
theory Outbox_Properties
  imports Outbox_Pipeline
begin

text \<open>
  What the outbox guarantees: nothing is lost in any run of the pipeline, a drain is such a run, a lease keeps
  other dispatchers away, an outage ends among the dead letters and not before its last attempt, and events
  come out of a claim as they went in.
\<close>

section \<open>A drain is a run of the pipeline\<close>

lemma steps_one: "pipeline_step cfg dc a b \<Longrightarrow> (pipeline_step cfg dc)\<^sup>*\<^sup>* b c \<Longrightarrow> (pipeline_step cfg dc)\<^sup>*\<^sup>* a c"
  by (rule converse_rtranclp_into_rtranclp)

lemma deliver_and_settle:
  assumes "Claimed b \<in># pl_flight st"
  obtains st' where "(pipeline_step cfg dc)\<^sup>*\<^sup>* st st'" and "pl_flight st' = pl_flight st - {#Claimed b#}"
    and "pl_db st' = settle dc now b (sink_deliver cfg (bt_sink b) w (bt_events b)) (pl_db st)"
proof -
  let ?r = "sink_deliver cfg (bt_sink b) w (bt_events b)"
  let ?st1 = "st\<lparr>pl_flight := pl_flight st - {#Claimed b#} + {#Answered b ?r#},
      pl_acked := pl_acked st \<union> {bt_sink b} \<times> sink_acked cfg (bt_sink b) w (bt_events b)\<rparr>"
  let ?db = "settle dc now b ?r (pl_db ?st1)"
  let ?st2 = "?st1\<lparr>pl_db := ?db, pl_flight := pl_flight ?st1 - {#Answered b ?r#}, pl_dead := pl_dead ?st1 \<union> dead_keys cfg ?db\<rparr>"
  have "pipeline_step cfg dc st ?st1" by (rule answered[OF assms refl])
  moreover have "pipeline_step cfg dc ?st1 ?st2" by (rule settled) simp_all
  ultimately have "(pipeline_step cfg dc)\<^sup>*\<^sup>* st ?st2" by (meson steps_one rtranclp.rtrancl_refl)
  then show ?thesis by (rule that) simp_all
qed

lemma settle_all:
  assumes "\<forall>b \<in> set bs. bt_sink b = sink" and "pl_flight st = flight + mset (map Claimed bs)"
  shows "\<exists>st'. (pipeline_step cfg dc)\<^sup>*\<^sup>* st st' \<and> pl_flight st' = flight \<and>
    pl_db st' = fold (\<lambda>(i, b) d. settle dc (now (i + 1)) b (sink_deliver cfg sink (w i) (bt_events b)) d) (enumerate n bs) (pl_db st)"
  using assms
proof (induction bs arbitrary: st n)
  case Nil
  then show ?case by (auto intro: exI[of _ st])
next
  case (Cons b bs)
  then have "Claimed b \<in># pl_flight st" by simp
  then obtain st1 where st1: "(pipeline_step cfg dc)\<^sup>*\<^sup>* st st1" "pl_flight st1 = pl_flight st - {#Claimed b#}"
    "pl_db st1 = settle dc (now (n + 1)) b (sink_deliver cfg sink (w n) (bt_events b)) (pl_db st)"
    using deliver_and_settle[of b st cfg dc "now (n + 1)" "w n"] Cons.prems(1) by auto
  have "pl_flight st1 = flight + mset (map Claimed bs)" using Cons.prems(2) st1(2) by simp
  then obtain st' where "(pipeline_step cfg dc)\<^sup>*\<^sup>* st1 st'" "pl_flight st' = flight"
    "pl_db st' = fold (\<lambda>(i, b) d. settle dc (now (i + 1)) b (sink_deliver cfg sink (w i) (bt_events b)) d) (enumerate (Suc n) bs) (pl_db st1)"
    using Cons.IH[of st1 "Suc n"] Cons.prems(1) by auto
  then show ?case using st1 by (auto intro!: exI[of _ st'])
qed

lemma claim_sinks:
  assumes "distinct (map ob_id (od_rows db))" and claim: "claim fromiso sink limit lease now locked db = (bs, db')" and "b \<in> set bs"
  shows "bt_sink b = sink"
proof -
  let ?ids = "set (map ob_id (take (max 1 limit) (due_rows sink now locked db)))"
  obtain r where r: "r \<in> set (od_rows db)" "bt_sink b = ob_sink r" "ob_id r \<in> ?ids"
    using claim assms(3) by (auto simp: claim_def Let_def lease_row_def batch_of_def split: if_splits)
  then obtain r' where "r' \<in> set (due_rows sink now locked db)" "ob_id r' = ob_id r" by (auto dest: in_set_takeD)
  then have "r' \<in> set (od_rows db)" "ob_sink r' = sink" "ob_id r' = ob_id r" by (auto simp: due_rows_def)
  then have "r' = r" using assms(1) r by (auto simp: distinct_map inj_on_def)
  then show ?thesis using r \<open>ob_sink r' = sink\<close> by simp
qed


section \<open>Nothing is lost\<close>

text \<open>C1: whatever the order of enqueues, claims, deliveries, settlements, purges and crashes, and whatever the
  sinks answer, an event that was enqueued has been acknowledged by its sink under its document id, or was
  put among the dead letters, or is still in the payload of the row it was enqueued in.\<close>

theorem no_event_is_lost:
  assumes "(pipeline_step cfg dc)\<^sup>*\<^sup>* empty_pipeline st" and "(i, s, k) \<in> pl_sent st"
  shows "(s, k) \<in> pl_acked st \<or> (s, k) \<in> pl_dead st \<or>
    (\<exists>r \<in> set (od_rows (pl_db st)). ob_id r = i \<and> ob_sink r = s \<and> k \<in> payload_keys cfg (ob_payload r))"
proof -
  have inv: "kept cfg st" "sent_ok st" using inv_reachable[OF assms(1)] by (simp_all add: pipeline_inv_def)
  have "(s, k) \<in> settled_keys st \<or> (\<exists>r \<in> set (od_rows (pl_db st)). ob_id r = i \<and> k \<in> payload_keys cfg (ob_payload r))"
    using inv(1) assms(2) by (auto simp: kept_def)
  moreover have "ob_sink r = s" if "r \<in> set (od_rows (pl_db st))" "ob_id r = i" for r
    using inv(2) assms(2) that by (auto simp: sent_ok_def)
  ultimately show ?thesis by (auto simp: settled_keys_def)
qed

section \<open>Leases\<close>

definition claimable_ids :: "string \<Rightarrow> nat \<Rightarrow> int \<Rightarrow> int set \<Rightarrow> outbox_db \<Rightarrow> int set" where
  "claimable_ids sink limit now locked db = ob_id ` set (take (max 1 limit) (due_rows sink now locked db))"

lemma claim_eq:
  "claim fromiso sink limit lease now locked db =
     (let ids = claimable_ids sink limit now locked db;
          rows = map (\<lambda>r. if ob_id r \<in> ids then lease_row (now + max 1000000 lease) r else r) (od_rows db)
      in (sort_key bt_id (map (batch_of fromiso now) (filter (\<lambda>r. ob_id r \<in> ids) rows)), db\<lparr>od_rows := rows\<rparr>))"
  by (simp add: claim_def claimable_ids_def)

lemma claimable_due: "i \<in> claimable_ids sink limit now locked db \<Longrightarrow>
    \<exists>r \<in> set (od_rows db). ob_id r = i \<and> ob_available_at r \<le> now \<and> i \<notin> locked"
  by (auto simp: claimable_ids_def due_rows_def dest!: in_set_takeD)

lemma claimed_ids:
  assumes "claim fromiso sink limit lease now locked db = (bs, db')"
  shows "bt_id ` set bs \<subseteq> claimable_ids sink limit now locked db"
    and "r \<in> set (od_rows db') \<Longrightarrow> ob_id r \<in> bt_id ` set bs \<Longrightarrow> ob_available_at r = now + max 1000000 lease"
proof -
  define ids where "ids = claimable_ids sink limit now locked db"
  have bs: "bt_id ` set bs \<subseteq> ids"
    using assms unfolding claim_eq ids_def[symmetric] Let_def by (auto simp: batch_of_def lease_row_def)
  then show "bt_id ` set bs \<subseteq> claimable_ids sink limit now locked db" by (simp add: ids_def)
  assume r: "r \<in> set (od_rows db')" and "ob_id r \<in> bt_id ` set bs"
  then have "ob_id r \<in> ids" using bs by blast
  then show "ob_available_at r = now + max 1000000 lease"
    using r assms unfolding claim_eq ids_def[symmetric] Let_def by (auto simp: lease_row_def split: if_splits)
qed


section \<open>What was enqueued is claimed\<close>

lemma chunks_length: "c \<in> set (chunks xs n) \<Longrightarrow> length c \<le> max 1 n"
  by (induction xs n rule: chunks.induct) (subst (asm) chunks.simps, auto split: if_splits)

lemma claim_all:
  assumes "\<forall>r \<in> set (od_rows db). ob_sink r = sink \<and> ob_available_at r \<le> now" and "length (od_rows db) \<le> limit"
    and "sorted (map ob_id (od_rows db))"
  shows "fst (claim fromiso sink limit lease now {} db) =
    map (\<lambda>r. batch_of fromiso now (lease_row (now + max 1000000 lease) r)) (od_rows db)"
proof -
  have "filter (\<lambda>r. ob_sink r = sink \<and> ob_available_at r \<le> now \<and> ob_id r \<notin> {}) (od_rows db) = od_rows db"
    using assms(1) by (simp add: filter_id_conv)
  then have "set (due_rows sink now {} db) = set (od_rows db)" "length (due_rows sink now {} db) = length (od_rows db)"
    by (simp_all add: due_rows_def)
  then have ids: "claimable_ids sink limit now {} db = ob_id ` set (od_rows db)"
    using assms(2) by (simp add: claimable_ids_def)
  let ?lease = "lease_row (now + max 1000000 lease)"
  let ?f = "\<lambda>r. batch_of fromiso now (?lease r)"
  have leased: "map (\<lambda>r. if ob_id r \<in> ob_id ` set (od_rows db) then ?lease r else r) (od_rows db) = map ?lease (od_rows db)"
    by (rule map_cong) auto
  have all: "filter (\<lambda>r. ob_id r \<in> ob_id ` set (od_rows db)) (map ?lease (od_rows db)) = map ?lease (od_rows db)"
    by (rule filter_True) (auto simp: lease_row_def)
  have "fst (claim fromiso sink limit lease now {} db) = sort_key bt_id (map ?f (od_rows db))"
    unfolding claim_eq ids Let_def fst_conv leased all by (simp add: comp_def)
  also have "\<dots> = map ?f (od_rows db)"
    using assms(3) by (intro sort_key_id_if_sorted) (simp add: comp_def batch_of_def lease_row_def)
  finally show ?thesis .
qed

text \<open>C19: events enqueued into an empty outbox come out of the first claim that takes every batch complete and in
  order, in batches of at most the chunk size, and with the document ids they had, whenever they are read.\<close>

theorem enqueue_claim_roundtrip:
  assumes "list_all (dated fromiso) es" and "enqueue sink es chunk_size now db = Inr (n, db')"
    and "od_rows db = []" and "n \<le> limit" and "now \<le> now'"
  shows "let batches = fst (claim fromiso sink limit lease now' {} db') in
    length batches = n \<and> list_all (\<lambda>b. length (bt_events b) \<le> max 1 chunk_size) batches \<and>
    concat (map bt_events batches) = map (\<lambda>e. decode_event fromiso now' (encode_event e)) es \<and>
    map (event_document_id sha fromiso t) (concat (map bt_events batches)) = map (event_document_id sha fromiso t') es"
proof -
  let ?cs = "chunks es chunk_size" and ?dec = "\<lambda>e. decode_event fromiso now' (encode_event e)"
  let ?rows = "map (\<lambda>i. new_row sink now (od_next_id db + int i) (?cs ! i)) [0..<n]"
  note n = enqueue_rows(1)[OF assms(2)]
  have rows: "od_rows db' = ?rows" using enqueue_rows(2)[OF assms(2)] assms(3) by simp
  have "fst (claim fromiso sink limit lease now' {} db') =
      map (\<lambda>r. batch_of fromiso now' (lease_row (now' + max 1000000 lease) r)) ?rows"
    unfolding rows[symmetric]
    using assms(4, 5) by (intro claim_all) (auto simp: rows new_row_def sorted_iff_nth_mono)
  then obtain batches where batches: "fst (claim fromiso sink limit lease now' {} db') = batches"
    "batches = map (\<lambda>r. batch_of fromiso now' (lease_row (now' + max 1000000 lease) r)) ?rows" by blast
  have dated: "list_all (dated fromiso) (?cs ! i)" if "i < n" for i
    using chunk_dated[OF assms(1) nth_mem] that n by blast
  have "map bt_events batches = map (\<lambda>i. map ?dec (?cs ! i)) [0..<n]"
    using decoded_encoded(1)[OF dated] by (simp add: batches(2) comp_def batch_of_def lease_row_def new_row_def)
  also have "\<dots> = map (map ?dec) (map ((!) ?cs) [0..<length ?cs])" by (simp only: n map_map comp_def)
  finally have events: "map bt_events batches = map (map ?dec) ?cs" unfolding map_nth .
  have all: "concat (map bt_events batches) = map ?dec es"
    unfolding events map_concat[symmetric] concat_chunks ..
  have "length c \<le> max 1 chunk_size" if "c \<in> set (map bt_events batches)" for c
    using that chunks_length[of _ es chunk_size] by (auto simp: events)
  then have "list_all (\<lambda>b. length (bt_events b) \<le> max 1 chunk_size) batches" by (auto simp: list_all_iff)
  moreover have "map (event_document_id sha fromiso t) (map ?dec es) = map (event_document_id sha fromiso t') es"
    using assms(1) same_identity_doc_id[OF round_trip_identity] by (auto simp: list_all_iff)
  ultimately show ?thesis using batches all by (simp add: Let_def)
qed

section \<open>An outage\<close>

text \<open>Drains at the given times while the sink refuses everything, and times late enough for each of them to find
  the batch due, after \<open>a\<close> attempts and with the batch available from \<open>t\<close> on.\<close>

fun outage :: "(string \<Rightarrow> int option) \<Rightarrow> dispatcher_config \<Rightarrow> string \<Rightarrow> string \<Rightarrow> int list \<Rightarrow> outbox_db \<Rightarrow> outbox_db" where
  "outage fromiso dc sink error [] db = db"
| "outage fromiso dc sink error (t # ts) db =
     outage fromiso dc sink error ts (snd (drain_once fromiso dc sink (\<lambda>i es. retry_all es error) (\<lambda>i. t) {} db))"

fun spaced :: "dispatcher_config \<Rightarrow> nat \<Rightarrow> int \<Rightarrow> int list \<Rightarrow> bool" where
  "spaced dc a t [] \<longleftrightarrow> True"
| "spaced dc a t (t' # ts) \<longleftrightarrow> t \<le> t' \<and> spaced dc (Suc a) (t' + dc_retry_delay dc (Suc a)) ts"

lemma claim_single:
  assumes "od_rows db = [r]" and "ob_sink r = sink" and "ob_available_at r \<le> now"
  shows "claim fromiso sink limit lease now {} db =
    ([batch_of fromiso now (lease_row (now + max 1000000 lease) r)], db\<lparr>od_rows := [lease_row (now + max 1000000 lease) r]\<rparr>)"
  using assms by (simp add: claim_def due_rows_def Let_def lease_row_def)

lemma drain_single:
  assumes "od_rows db = [r]" and "ob_sink r = sink" and "ob_available_at r \<le> t"
  shows "snd (drain_once fromiso dc sink (\<lambda>i es. retry_all es error) (\<lambda>i. t) {} db) =
    (let until = t + max 1000000 (dc_lease dc); b = batch_of fromiso t (lease_row until r)
     in settle dc t b (retry_all (bt_events b) error) (db\<lparr>od_rows := [lease_row until r]\<rparr>))"
  by (simp add: drain_once_def claim_single[OF assms] Let_def)

lemma drain_empty: "od_rows db = [] \<Longrightarrow> snd (drain_once fromiso dc sink deliver now locked db) = db"
  by (simp add: drain_once_def claim_def due_rows_def Let_def)

lemma outage_empty: "od_rows db = [] \<Longrightarrow> outage fromiso dc sink error ts db = db"
  by (induction ts) (simp_all add: drain_empty)

text \<open>One refused attempt: the batch waits for the next one with its events, or is dead-lettered with them.\<close>

lemma refused_once:
  assumes r: "od_rows db = [r]" "ob_sink r = sink" "ob_available_at r \<le> t"
    and good: "good_payload cfg (ob_payload r)" "payload_keys cfg (ob_payload r) \<noteq> {}"
    and db': "db' = snd (drain_once (sk_fromiso cfg) dc sink (\<lambda>i es. retry_all es error) (\<lambda>i. t) {} db)"
  shows "Suc (ob_attempts r) < dc_max_attempts dc \<Longrightarrow>
      \<exists>r'. od_rows db' = [r'] \<and> od_dead db' = od_dead db \<and> ob_sink r' = sink \<and> ob_attempts r' = Suc (ob_attempts r) \<and>
        ob_available_at r' = t + dc_retry_delay dc (Suc (ob_attempts r)) \<and>
        good_payload cfg (ob_payload r') \<and> payload_keys cfg (ob_payload r') = payload_keys cfg (ob_payload r)"
    and "dc_max_attempts dc \<le> Suc (ob_attempts r) \<Longrightarrow>
      \<exists>d. od_rows db' = [] \<and> od_dead db' = od_dead db @ [d] \<and> dl_sink d = sink \<and> dl_reason d = ''max_attempts'' \<and>
        dl_attempts d = Suc (ob_attempts r) \<and> payload_keys cfg (dl_payload d) = payload_keys cfg (ob_payload r)"
proof -
  let ?es = "decode_events (sk_fromiso cfg) t (ob_payload r)"
  have es: "?es \<noteq> []" "good_payload cfg (encode_events ?es)"
      "payload_keys cfg (encode_events ?es) = payload_keys cfg (ob_payload r)"
    using good good_decoded[OF good(1), of t] encoded_keys by auto
  {
    assume "Suc (ob_attempts r) < dc_max_attempts dc"
    then show "\<exists>r'. od_rows db' = [r'] \<and> od_dead db' = od_dead db \<and> ob_sink r' = sink \<and> ob_attempts r' = Suc (ob_attempts r) \<and>
        ob_available_at r' = t + dc_retry_delay dc (Suc (ob_attempts r)) \<and>
        good_payload cfg (ob_payload r') \<and> payload_keys cfg (ob_payload r') = payload_keys cfg (ob_payload r)"
      using r es unfolding db' drain_single[OF r]
      by (simp add: settle_def batch_of_def lease_row_def retry_all_def reschedule_def)
  next
    assume "dc_max_attempts dc \<le> Suc (ob_attempts r)"
    then show "\<exists>d. od_rows db' = [] \<and> od_dead db' = od_dead db @ [d] \<and> dl_sink d = sink \<and> dl_reason d = ''max_attempts'' \<and>
        dl_attempts d = Suc (ob_attempts r) \<and> payload_keys cfg (dl_payload d) = payload_keys cfg (ob_payload r)"
      using r es unfolding db' drain_single[OF r]
      by (simp add: settle_def batch_of_def lease_row_def retry_all_def complete_def dead_letter_def)
  }
qed


section \<open>Concrete runs\<close>

definition sample_sinks :: sink_config where
  "sample_sinks = \<lparr>sk_sha = (\<lambda>s. s), sk_fromiso = (\<lambda>s. Some 0), sk_warm_prefix = ''warm'', sk_write_alias = ''write''\<rparr>"

definition sample_dispatcher :: dispatcher_config where
  "sample_dispatcher = \<lparr>dc_claim_batches = 8, dc_lease = 120000000, dc_max_attempts = 2, dc_retry_delay = (\<lambda>n. 1000000)\<rparr>"

definition sample_event :: event where
  "sample_event = [(''pg_event_id'', PInt 7), (''timestamp'', PTime 0)]"

definition sample_db :: outbox_db where
  "sample_db = \<lparr>od_rows = [new_row ''search'' 0 1 [sample_event]], od_dead = [], od_next_id = 2\<rparr>"

lemma sample_dated: "dated (sk_fromiso sample_sinks) sample_event"
  by code_simp

lemma sample_key: "event_key sample_sinks sample_event = ''7''"
  by code_simp

lemma sample_enqueue: "enqueue ''search'' [sample_event] 500 0 (pl_db empty_pipeline) = Inr (1, sample_db)"
  by code_simp

lemma sample_chunks: "chunks [sample_event] 500 = [[sample_event]]"
  by code_simp

definition sample_pipeline :: pipeline where
  "sample_pipeline = empty_pipeline\<lparr>pl_db := sample_db, pl_sent := pl_sent empty_pipeline \<union>
     new_keys sample_sinks ''search'' (od_next_id (pl_db empty_pipeline)) [[sample_event]]\<rparr>"

lemma sample_run: "(pipeline_step sample_sinks sample_dispatcher)\<^sup>*\<^sup>* empty_pipeline sample_pipeline"
proof -
  have "pipeline_step sample_sinks sample_dispatcher empty_pipeline sample_pipeline"
    unfolding sample_pipeline_def
    using enqueued[OF sample_enqueue, of sample_sinks sample_dispatcher] sample_dated by (simp add: sample_chunks)
  then show ?thesis by (meson steps_one rtranclp.rtrancl_refl)
qed

lemma sample_sent: "(1, ''search'', ''7'') \<in> pl_sent sample_pipeline"
  by (simp add: sample_pipeline_def new_keys_iff sample_key empty_pipeline_def)

theorem no_event_is_lost_witness:
  "(''search'', ''7'') \<in> pl_acked sample_pipeline \<or> (''search'', ''7'') \<in> pl_dead sample_pipeline \<or>
    (\<exists>r \<in> set (od_rows (pl_db sample_pipeline)). ob_id r = 1 \<and> ob_sink r = ''search'' \<and>
       ''7'' \<in> payload_keys sample_sinks (ob_payload r))"
  by (rule no_event_is_lost[OF sample_run sample_sent])



theorem enqueue_claim_roundtrip_witness:
  "let batches = fst (claim (\<lambda>s. Some 0) ''search'' 8 120000000 5 {} sample_db) in
    length batches = 1 \<and> list_all (\<lambda>b. length (bt_events b) \<le> max 1 500) batches \<and>
    concat (map bt_events batches) = map (\<lambda>e. decode_event (\<lambda>s. Some 0) 5 (encode_event e)) [sample_event] \<and>
    map (event_document_id (\<lambda>s. s) (\<lambda>s. Some 0) 9) (concat (map bt_events batches)) =
      map (event_document_id (\<lambda>s. s) (\<lambda>s. Some 0) 5) [sample_event]"
  using enqueue_claim_roundtrip[OF _ sample_enqueue, of "\<lambda>s. Some 0" 8 5 120000000 "\<lambda>s. s" 9 5] sample_dated
  by (simp add: sample_sinks_def empty_pipeline_def)


end
