(* ===== verification/Outbox_Producers.thy ===== *)
theory Outbox_Producers
  imports Outbox_Pipeline
begin

text \<open>
  Who fills the outbox: the ingest worker (\<open>workers/ingest/main.py\<close>), which dedupes the events of a batch by
  fingerprint, and the reconciler (\<open>workers/sinks/reconciler.py\<close>), which compares Postgres with a sink minute
  by minute and enqueues what is missing. The event tables of Postgres, ClickHouse and Elasticsearch are
  arguments; times are in microseconds.
\<close>

section \<open>The ingest worker\<close>

definition hot_id_by_fingerprint :: "(event \<Rightarrow> string) \<Rightarrow> event list \<Rightarrow> py_error + (string \<times> int) list" where
  "hot_id_by_fingerprint fp rows =
     efold (\<lambda>d row. ebind (int_or (pget row ''pg_event_id'') 0) (\<lambda>i. Inr (dict_set d (fp row) i))) [] rows"

definition analytics_event :: "(event \<Rightarrow> string) \<Rightarrow> (string \<times> int) list \<Rightarrow> event \<Rightarrow> event" where
  "analytics_event fp hot_ids row =
     (case dict_get hot_ids (fp row) of
        Some i \<Rightarrow> if i \<noteq> 0 then dict_set row ''pg_event_id'' (PInt i) else row
      | None \<Rightarrow> row)"

fun analytics_loop :: "(event \<Rightarrow> string) \<Rightarrow> (string \<times> int) list \<Rightarrow> string set \<Rightarrow> event list \<Rightarrow> event list" where
  "analytics_loop fp hot_ids seen [] = []"
| "analytics_loop fp hot_ids seen (row # rows) =
     (if fp row \<in> seen then analytics_loop fp hot_ids seen rows
      else analytics_event fp hot_ids row # analytics_loop fp hot_ids (insert (fp row) seen) rows)"

definition analytics_events :: "(event \<Rightarrow> string) \<Rightarrow> event list \<Rightarrow> event list \<Rightarrow> py_error + event list" where
  "analytics_events fp analytics_rows inserted_hot_rows =
     ebind (hot_id_by_fingerprint fp inserted_hot_rows) (\<lambda>hot_ids. Inr (analytics_loop fp hot_ids {} analytics_rows))"

text \<open>\<open>_enqueue_sinks\<close>, in the transaction that inserts the hot rows.\<close>

definition enqueue_if :: "bool \<Rightarrow> string \<Rightarrow> event list \<Rightarrow> nat \<Rightarrow> int \<Rightarrow> outbox_db \<Rightarrow> py_error + outbox_db" where
  "enqueue_if enabled sink events chunk_size now db =
     (if enabled \<and> events \<noteq> [] then ebind (enqueue sink events chunk_size now db) (\<lambda>(n, db). Inr db) else Inr db)"

definition enqueue_sinks :: "bool \<Rightarrow> bool \<Rightarrow> nat \<Rightarrow> event list \<Rightarrow> event list \<Rightarrow> int \<Rightarrow> outbox_db \<Rightarrow> py_error + outbox_db" where
  "enqueue_sinks clickhouse_enabled warm_enabled chunk_size analytics warm now db =
     ebind (enqueue_if clickhouse_enabled ''clickhouse'' analytics chunk_size now db)
       (enqueue_if warm_enabled ''warm'' warm chunk_size now)"

section \<open>The reconciler: what is there\<close>

text \<open>A row of \<open>net_events\<close>; \<open>nr_columns\<close> are the other columns a repair reads.\<close>

record net_row =
  nr_id :: int
  nr_time :: int
  nr_columns :: event

text \<open>A document of the search indices: its timestamp, its \<open>id\<close> field and its \<open>_id\<close>.\<close>

record es_hit =
  eh_time :: int
  eh_id :: "int option"
  eh_doc_id :: string

definition minute :: int where
  "minute = 60000000"

definition floor_minute :: "int \<Rightarrow> int" where
  "floor_minute t = t - t mod minute"

record reconciler_config =
  rc_lookback_minutes :: int
  rc_settle_seconds :: int
  rc_repair_enabled :: bool
  rc_repair_max :: int

definition reconcile_window :: "reconciler_config \<Rightarrow> int \<Rightarrow> int \<times> int" where
  "reconcile_window cfg now =
     (let until = floor_minute (now - rc_settle_seconds cfg * 1000000) in (until - rc_lookback_minutes cfg * minute, until))"

text \<open>The number of the given times in each minute.\<close>

definition minute_counts :: "int list \<Rightarrow> (int \<times> nat) list" where
  "minute_counts ts = map (\<lambda>(m, xs). (m, length xs)) (foldl (\<lambda>g t. dict_push g (floor_minute t) t) [] ts)"

definition in_window :: "int \<times> int \<Rightarrow> int \<Rightarrow> bool" where
  "in_window w t \<longleftrightarrow> fst w \<le> t \<and> t < snd w"

definition postgres_minute_counts :: "int \<times> int \<Rightarrow> net_row list \<Rightarrow> (int \<times> nat) list" where
  "postgres_minute_counts w table = minute_counts (filter (in_window w) (map nr_time table))"

definition postgres_event_ids :: "net_row list \<Rightarrow> int \<Rightarrow> int set" where
  "postgres_event_ids table m = set (map nr_id (filter (\<lambda>r. in_window (m, m + minute) (nr_time r)) table))"

text \<open>ClickHouse rows are pairs of time and event id, a row for every delivery that was not deduplicated.\<close>

definition clickhouse_minute_counts :: "int \<times> int \<Rightarrow> (int \<times> int) list \<Rightarrow> (int \<times> nat) list" where
  "clickhouse_minute_counts w rows = minute_counts (map fst (filter (\<lambda>(t, i). in_window w t \<and> i > 0) rows))"

definition clickhouse_event_ids :: "(int \<times> int) list \<Rightarrow> int \<Rightarrow> int set" where
  "clickhouse_event_ids rows m = set (map snd (filter (\<lambda>(t, i). in_window (m, m + minute) t \<and> i > 0) rows))"

definition search_hits :: "int \<times> int \<Rightarrow> es_hit list \<Rightarrow> es_hit list" where
  "search_hits w docs = filter (\<lambda>d. in_window w (eh_time d) \<and> eh_id d \<noteq> None) docs"

definition search_minute_counts :: "int \<times> int \<Rightarrow> es_hit list \<Rightarrow> (int \<times> nat) list" where
  "search_minute_counts w docs = minute_counts (map eh_time (search_hits w docs))"

text \<open>The pages of a search sorted by \<open>id\<close>: after a full page the next one starts behind the last \<open>id\<close>.\<close>

definition hit_ids :: "es_hit list \<Rightarrow> int set" where
  "hit_ids hits = set (concat (map (\<lambda>d. case py_int (eh_doc_id d) of Some i \<Rightarrow> [i] | None \<Rightarrow> []) hits))"

function search_pages :: "nat \<Rightarrow> es_hit list \<Rightarrow> int set" where
  "search_pages page docs =
     (let hits = take page docs in
      if hits = [] then {}
      else if length hits < page then hit_ids hits
      else hit_ids hits \<union> search_pages page (filter (\<lambda>d. the (eh_id d) > the (eh_id (last hits))) docs))"
  by pat_completeness auto
termination
proof (relation "measure (\<lambda>(page, docs). length docs)", simp, unfold in_measure prod.case, goal_cases)
  case (1 page docs hits)
  then have "last hits \<in> set docs" by (metis in_set_takeD last_in_set)
  then show ?case by (rule length_filter_less) blast
qed

declare search_pages.simps [simp del]

definition search_event_ids :: "es_hit list \<Rightarrow> int \<Rightarrow> int set" where
  "search_event_ids docs m = search_pages 5000 (sort_key (\<lambda>d. the (eh_id d)) (search_hits (m, m + minute) docs))"

section \<open>The reconciler: what is repaired\<close>

definition repair_row :: "net_row \<Rightarrow> event" where
  "repair_row r =
     (let e = dict_set ((''id'', PInt (nr_id r)) # (''timestamp'', PTime (nr_time r)) # nr_columns r) ''pg_event_id'' (PInt (nr_id r))
      in case pget e ''extra'' of PDict _ \<Rightarrow> e | _ \<Rightarrow> dict_set e ''extra'' (PDict []))"

definition repair_rows :: "net_row list \<Rightarrow> int list \<Rightarrow> event list" where
  "repair_rows table ids = map repair_row (filter (\<lambda>r. nr_id r \<in> set ids) table)"

definition enqueue_repair :: "string \<Rightarrow> int list \<Rightarrow> int \<Rightarrow> net_row list \<Rightarrow> outbox_db \<Rightarrow> py_error + nat \<times> outbox_db" where
  "enqueue_repair sink ids now table db =
     (let events = repair_rows table ids in
      if events = [] then Inr (0, db)
      else ebind (enqueue sink events 500 now db) (\<lambda>(n, db). Inr (length events, db)))"

definition diverging_minutes :: "(int \<times> nat) list \<Rightarrow> (int \<times> nat) list \<Rightarrow> int list" where
  "diverging_minutes expected present =
     sort (map fst (filter (\<lambda>(m, n). (case dict_get present m of None \<Rightarrow> 0 | Some k \<Rightarrow> k) < n) expected))"

record divergence =
  dv_sink :: string
  dv_expected :: nat
  dv_missing :: nat
  dv_repaired :: nat

text \<open>One round of the loop over the minutes, on the events missing and repaired so far, what is left of the
  budget, and the outbox.\<close>

definition missing_ids :: "net_row list \<Rightarrow> (int \<Rightarrow> int set) \<Rightarrow> int \<Rightarrow> int list" where
  "missing_ids table present_ids m = sorted_list_of_set (postgres_event_ids table m - present_ids m)"

definition reconcile_minute ::
  "string \<Rightarrow> int \<Rightarrow> net_row list \<Rightarrow> (int \<Rightarrow> int set) \<Rightarrow> nat \<times> nat \<times> int \<times> outbox_db \<Rightarrow> int \<Rightarrow> py_error + nat \<times> nat \<times> int \<times> outbox_db" where
  "reconcile_minute sink now table present_ids acc m =
     (case acc of (missing_total, repaired_total, budget, db) \<Rightarrow>
        let missing = missing_ids table present_ids m in
        if missing = [] then Inr acc
        else if budget \<le> 0 then Inr (missing_total + length missing, repaired_total, budget, db)
        else let selected = take (nat budget) missing in
          ebind (enqueue_repair sink selected now table db) (\<lambda>(repaired, db).
            Inr (missing_total + length missing, repaired_total + repaired, budget - int (length selected), db)))"

definition reconcile_sink ::
  "reconciler_config \<Rightarrow> string \<Rightarrow> int \<Rightarrow> net_row list \<Rightarrow> (int \<times> nat) list \<Rightarrow> (int \<times> nat) list \<Rightarrow> (int \<Rightarrow> int set) \<Rightarrow>
   outbox_db \<Rightarrow> py_error + divergence \<times> outbox_db" where
  "reconcile_sink cfg sink now table expected present present_ids db =
     ebind (efold (reconcile_minute sink now table present_ids)
        (0, 0, if rc_repair_enabled cfg then rc_repair_max cfg else 0, db) (diverging_minutes expected present))
       (\<lambda>(missing, repaired, budget, db).
          Inr (\<lparr>dv_sink = sink, dv_expected = sum_list (map snd expected), dv_missing = missing, dv_repaired = repaired\<rparr>, db))"

section \<open>Events by fingerprint\<close>

text \<open>The last of the inserted rows with the fingerprint, or none.\<close>

definition hot_id :: "(event \<Rightarrow> string) \<Rightarrow> event list \<Rightarrow> string \<Rightarrow> int option" where
  "hot_id fp rows k = (case filter (\<lambda>r. fp r = k) rows of [] \<Rightarrow> None
     | r # rs \<Rightarrow> (case int_or (pget (last (r # rs)) ''pg_event_id'') 0 of Inr i \<Rightarrow> Some i | Inl _ \<Rightarrow> None))"

lemma hot_ids_fold:
  "efold (\<lambda>d row. ebind (int_or (pget row ''pg_event_id'') 0) (\<lambda>i. Inr (dict_set d (fp row) i))) d rows = Inr d' \<Longrightarrow>
   dict_get d' k = (if filter (\<lambda>r. fp r = k) rows = [] then dict_get d k else hot_id fp rows k)"
proof (induction rows arbitrary: d)
  case Nil
  then show ?case by simp
next
  case (Cons r rows)
  then obtain i where i: "int_or (pget r ''pg_event_id'') 0 = Inr i"
    and rest: "efold (\<lambda>d row. ebind (int_or (pget row ''pg_event_id'') 0) (\<lambda>i. Inr (dict_set d (fp row) i))) (dict_set d (fp r) i) rows = Inr d'"
    by (auto simp: bind_simps)
  show ?case
    using Cons.IH[OF rest] i by (auto simp: hot_id_def split: list.splits)
qed

lemma hot_ids_get: "hot_id_by_fingerprint fp rows = Inr d \<Longrightarrow> dict_get d k = hot_id fp rows k"
  unfolding hot_id_by_fingerprint_def by (drule hot_ids_fold[where k = k]) (auto simp: hot_id_def)

fun first_of :: "('a \<Rightarrow> 'k) \<Rightarrow> 'k set \<Rightarrow> 'a list \<Rightarrow> 'a list" where
  "first_of f seen [] = []"
| "first_of f seen (x # xs) = (if f x \<in> seen then first_of f seen xs else x # first_of f (insert (f x) seen) xs)"

lemma analytics_loop_eq: "analytics_loop fp d seen rows = map (analytics_event fp d) (first_of fp seen rows)"
  by (induction fp d seen rows rule: analytics_loop.induct) auto

lemma first_of_props:
  "distinct (map f (first_of f seen xs)) \<and> f ` set (first_of f seen xs) = f ` set xs - seen \<and> set (first_of f seen xs) \<subseteq> set xs"
  by (induction f seen xs rule: first_of.induct) auto

section \<open>What a round of the reconciler does\<close>

lemma finite_ids [simp]: "finite (postgres_event_ids table m - X)"
  by (simp add: postgres_event_ids_def)

lemma missing_ids_props:
  "set (missing_ids table present m) = postgres_event_ids table m - present m" "distinct (missing_ids table present m)"
  "length (missing_ids table present m) = card (postgres_event_ids table m - present m)"
  by (simp_all add: missing_ids_def)

lemma repair_row_id: "pget (repair_row r) ''pg_event_id'' = PInt (nr_id r)"
  by (simp add: repair_row_def Let_def del: dict_set.simps split: pyval.split)

lemma repair_rows_length:
  assumes "distinct (map nr_id table)" "distinct ids" "set ids \<subseteq> nr_id ` set table"
  shows "length (repair_rows table ids) = length ids"
proof -
  let ?rs = "filter (\<lambda>r. nr_id r \<in> set ids) table"
  have "distinct (map nr_id ?rs)" using assms(1) by (simp add: distinct_map_filter)
  moreover have "set (map nr_id ?rs) = set ids" using assms(3) by auto
  ultimately have "length (map nr_id ?rs) = length ids" using assms(2) by (metis distinct_card)
  then show ?thesis by (simp add: repair_rows_def)
qed

text \<open>A row of the outbox that repairs: for the sink, its events the repairs of rows whose ids were missing.\<close>

definition repairing :: "string \<Rightarrow> net_row list \<Rightarrow> (int \<Rightarrow> int set) \<Rightarrow> int set \<Rightarrow> outbox_row \<Rightarrow> bool" where
  "repairing sink table present ms r \<longleftrightarrow> ob_sink r = sink \<and> (\<exists>es. ob_payload r = encode_events es \<and> length es = ob_event_count r \<and>
     (\<forall>e \<in> set es. \<exists>m \<in> ms. \<exists>x \<in> set table. e = repair_row x \<and> nr_id x \<in> postgres_event_ids table m - present m))"

lemma repairing_mono: "repairing sink table present ms r \<Longrightarrow> ms \<subseteq> ms' \<Longrightarrow> repairing sink table present ms' r"
  unfolding repairing_def by (meson subsetD)

lemma sum_chunks: "sum_list (map length (chunks xs n)) = length xs"
  using arg_cong[OF concat_chunks[of xs n], of length] by (simp add: length_concat)

lemma enqueue_repair_rows:
  assumes "enqueue_repair sink ids now table db = Inr (n, db')" "distinct (map nr_id table)" "distinct ids"
    and "set ids \<subseteq> postgres_event_ids table m - present m"
  shows "n = length ids \<and> (\<exists>new. od_rows db' = od_rows db @ new \<and> sum_list (map ob_event_count new) = n \<and>
    (\<forall>r \<in> set new. repairing sink table present {m} r))"
proof -
  let ?es = "repair_rows table ids" let ?cs = "chunks ?es 500"
  have "set ids \<subseteq> nr_id ` set table" using assms(4) by (auto simp: postgres_event_ids_def)
  then have len: "length ?es = length ids" using assms(2,3) by (intro repair_rows_length)
  show ?thesis
  proof (cases "?es = []")
    case True
    then show ?thesis using assms(1) len by (auto simp: enqueue_repair_def)
  next
    case False
    then obtain k where k: "enqueue sink ?es 500 now db = Inr (k, db')" and n: "n = length ?es"
      using assms(1) by (auto simp: enqueue_repair_def Let_def bind_simps)
    let ?new = "map (\<lambda>i. new_row sink now (od_next_id db + int i) (?cs ! i)) [0..<k]"
    have rows: "od_rows db' = od_rows db @ ?new" using enqueue_rows(2)[OF k] by simp
    have "map ob_event_count ?new = map length (map ((!) ?cs) [0..<k])" by (simp add: new_row_def comp_def)
    also have "\<dots> = map length ?cs" unfolding enqueue_rows(1)[OF k] map_nth ..
    finally have "sum_list (map ob_event_count ?new) = n" using sum_chunks[of ?es 500] n by simp
    moreover have "repairing sink table present {m} r" if r: "r \<in> set ?new" for r
    proof -
      obtain i where i: "i < length ?cs" "r = new_row sink now (od_next_id db + int i) (?cs ! i)"
        using r enqueue_rows(1)[OF k] by auto
      then have "set (?cs ! i) \<subseteq> set ?es" using concat_chunks[of ?es 500] by (metis UN_upper nth_mem set_concat)
      then have "\<exists>x \<in> set table. e = repair_row x \<and> nr_id x \<in> postgres_event_ids table m - present m"
        if "e \<in> set (?cs ! i)" for e
        using that assms(4) by (fastforce simp: repair_rows_def)
      then show ?thesis unfolding repairing_def i(2) by (auto simp: new_row_def)
    qed
    ultimately show ?thesis using rows len n by (intro conjI exI[of _ ?new]) simp_all
  qed
qed

lemma reconcile_loop:
  assumes "efold (reconcile_minute sink now table present) (missing, repaired, budget, db) ms = Inr (missing', repaired', budget', db')"
    and "distinct (map nr_id table)"
  shows "let total = (\<Sum>m \<leftarrow> ms. card (postgres_event_ids table m - present m)) in
    missing' = missing + total \<and> repaired' = repaired + min total (nat budget) \<and>
    (\<exists>new. od_rows db' = od_rows db @ new \<and> sum_list (map ob_event_count new) = min total (nat budget) \<and>
       (\<forall>r \<in> set new. repairing sink table present (set ms) r))"
  using assms
proof (induction ms arbitrary: missing repaired budget db)
  case Nil
  then show ?case by (simp add: Let_def)
next
  case (Cons m ms)
  let ?ids = "missing_ids table present m"
  obtain acc where step: "reconcile_minute sink now table present (missing, repaired, budget, db) m = Inr acc"
    and rest: "efold (reconcile_minute sink now table present) acc ms = Inr (missing', repaired', budget', db')"
    using Cons.prems(1) by (auto simp: bind_simps)
  obtain missing1 repaired1 budget1 db1 where acc: "acc = (missing1, repaired1, budget1, db1)" by (cases acc)
  define n where "n = card (postgres_event_ids table m - present m)"
  have len: "length ?ids = n" by (simp add: n_def missing_ids_props(3))
  have here: "missing1 = missing + n \<and> repaired1 = repaired + min n (nat budget) \<and> nat budget1 = nat budget - min n (nat budget) \<and>
      (\<exists>new. od_rows db1 = od_rows db @ new \<and> sum_list (map ob_event_count new) = min n (nat budget) \<and>
        (\<forall>r \<in> set new. repairing sink table present {m} r))"
  proof (cases "?ids = [] \<or> budget \<le> 0")
    case True
    then show ?thesis
      using step len by (auto simp: reconcile_minute_def acc Let_def split: if_splits)
  next
    case False
    then obtain k where k: "enqueue_repair sink (take (nat budget) ?ids) now table db = Inr (k, db1)"
      and eqs: "missing1 = missing + n" "repaired1 = repaired + k" "budget1 = budget - int (length (take (nat budget) ?ids))"
      using step len by (auto simp: reconcile_minute_def acc Let_def bind_simps)
    have sub: "set (take (nat budget) ?ids) \<subseteq> postgres_event_ids table m - present m"
      using missing_ids_props(1) by (auto dest: in_set_takeD)
    have "k = length (take (nat budget) ?ids) \<and> (\<exists>new. od_rows db1 = od_rows db @ new \<and> sum_list (map ob_event_count new) = k \<and>
        (\<forall>r \<in> set new. repairing sink table present {m} r))"
      by (rule enqueue_repair_rows[where present = present and m = m, OF k Cons.prems(2) _ sub]) (simp add: missing_ids_props(2))
    moreover have "nat (budget - int x) = nat budget - x" for x by linarith
    ultimately show ?thesis using eqs False len by auto
  qed
  then obtain new where new: "od_rows db1 = od_rows db @ new" "sum_list (map ob_event_count new) = min n (nat budget)"
    "\<forall>r \<in> set new. repairing sink table present (set (m # ms)) r"
    using repairing_mono by (metis insert_mono empty_subsetI list.simps(15))
  let ?total = "\<Sum>m \<leftarrow> ms. card (postgres_event_ids table m - present m)"
  obtain new' where new': "od_rows db' = od_rows db1 @ new'" "sum_list (map ob_event_count new') = min ?total (nat budget1)"
    "\<forall>r \<in> set new'. repairing sink table present (set (m # ms)) r"
    and sums: "missing' = missing1 + ?total" "repaired' = repaired1 + min ?total (nat budget1)"
    using Cons.IH[OF rest[unfolded acc] Cons.prems(2)] repairing_mono[of _ _ _ "set ms" _ "set (m # ms)"]
    unfolding Let_def by (metis set_subset_Cons)
  have h: "missing1 = missing + n" "repaired1 = repaired + min n (nat budget)" "nat budget1 = nat budget - min n (nat budget)"
    using here by blast+
  have both: "min n (nat budget) + min ?total (nat budget1) = min (n + ?total) (nat budget)" unfolding h(3) by simp
  have total: "(\<Sum>m \<leftarrow> m # ms. card (postgres_event_ids table m - present m)) = n + ?total" by (simp add: n_def)
  have "missing' = missing + (n + ?total)" "repaired' = repaired + min (n + ?total) (nat budget)"
    using sums h both by linarith+
  moreover have "od_rows db' = od_rows db @ (new @ new')" using new(1) new'(1) by simp
  moreover have "sum_list (map ob_event_count (new @ new')) = min (n + ?total) (nat budget)"
    using both by (simp only: map_append sum_list_append new(2) new'(2))
  moreover have "\<forall>r \<in> set (new @ new'). repairing sink table present (set (m # ms)) r"
    using new(3) new'(3) by (simp only: set_append ball_Un)
  ultimately show ?case unfolding Let_def total by blast
qed

section \<open>Pages of a search\<close>

lemma hit_ids_eq:
  assumes "\<forall>d \<in> set hits. \<exists>i. eh_id d = Some i \<and> py_int (eh_doc_id d) = Some i"
  shows "hit_ids hits = (\<lambda>d. the (eh_id d)) ` set hits"
  using assms by (induction hits) (auto simp: hit_ids_def)

lemma search_pages_all:
  assumes "\<forall>d \<in> set docs. \<exists>i. eh_id d = Some i \<and> py_int (eh_doc_id d) = Some i"
    and "sorted (map (\<lambda>d. the (eh_id d)) docs)" and "0 < page"
  shows "search_pages page docs = (\<lambda>d. the (eh_id d)) ` set docs"
  using assms
proof (induction page docs rule: search_pages.induct)
  case (1 page docs)
  let ?hits = "take page docs" and ?key = "\<lambda>d. the (eh_id d)"
  let ?rest = "filter (\<lambda>d. ?key d > ?key (last ?hits)) docs"
  have hits: "hit_ids ?hits = ?key ` set ?hits"
    using "1.prems"(1) by (intro hit_ids_eq) (auto dest: in_set_takeD)
  consider "docs = []" | "docs \<noteq> []" "length ?hits < page" | "docs \<noteq> []" "\<not> length ?hits < page" by blast
  then show ?case
  proof cases
    case 1
    then show ?thesis by (simp add: search_pages.simps)
  next
    case 2
    then have "?hits = docs" by simp
    then show ?thesis using hits 2 by (simp add: search_pages.simps[of page docs])
  next
    case 3
    have ne: "?hits \<noteq> []" using 3 "1.prems"(3) by simp
    have "search_pages page ?rest = ?key ` set ?rest"
      using 3 ne "1.prems" by (intro "1.IH") (simp_all add: sorted_filter)
    then have pages: "search_pages page docs = ?key ` set ?hits \<union> ?key ` set ?rest"
      using ne 3(2) hits by (simp add: search_pages.simps[of page docs] Let_def)
    have small: "?key d \<in> ?key ` set ?hits" if d: "d \<in> set docs" "\<not> ?key d > ?key (last ?hits)" for d
    proof -
      have "d \<in> set ?hits \<or> d \<in> set (drop page docs)" using d(1) by (metis Un_iff append_take_drop_id set_append)
      then consider "d \<in> set ?hits" | "d \<in> set (drop page docs)" by blast
      then show ?thesis
      proof cases
        case 2
        have "sorted (map ?key ?hits @ map ?key (drop page docs))"
          using "1.prems"(2) by (metis append_take_drop_id map_append)
        then have "?key (last ?hits) \<le> ?key d" using 2 ne by (auto simp: sorted_append)
        then show ?thesis using d(2) ne by (metis image_eqI last_in_set order.antisym not_less)
      qed auto
    qed
    have "?key d \<in> ?key ` set ?hits \<union> ?key ` set ?rest" if "d \<in> set docs" for d
      by (cases "?key d > ?key (last ?hits)") (use that small in auto)
    then have le: "?key ` set docs \<subseteq> ?key ` set ?hits \<union> ?key ` set ?rest" by (rule image_subsetI)
    have ge: "?key ` set ?hits \<union> ?key ` set ?rest \<subseteq> ?key ` set docs"
      by (intro Un_least image_mono set_take_subset filter_is_subset)
    show ?thesis unfolding pages using ge le by (rule order.antisym)
  qed
qed

section \<open>Properties\<close>

lemma fingerprint_ignores_pg_id [simp]:
  "event_fingerprint fromiso now (dict_set row ''pg_event_id'' v) = event_fingerprint fromiso now row"
  by (simp add: event_fingerprint_def extra_dict_def)

lemma fingerprint_analytics_event [simp]:
  "event_fingerprint fromiso now (analytics_event fp d row) = event_fingerprint fromiso now row"
  by (simp add: analytics_event_def split: option.split)

text \<open>C39: the worker hands on exactly one event for each fingerprint of its batch, made from a row with that
  fingerprint and carrying the id of the last row inserted into Postgres with it, if there is one.\<close>

theorem analytics_events_one_per_fingerprint:
  assumes "fp = event_fingerprint fromiso now" and "analytics_events fp rows hot_rows = Inr es"
  shows "distinct (map fp es) \<and> fp ` set es = fp ` set rows \<and>
    (\<forall>e \<in> set es. \<exists>row \<in> set rows. e = (case hot_id fp hot_rows (fp row) of None \<Rightarrow> row
       | Some i \<Rightarrow> if i = 0 then row else dict_set row ''pg_event_id'' (PInt i)))"
proof -
  obtain d where d: "hot_id_by_fingerprint fp hot_rows = Inr d" and es: "es = map (analytics_event fp d) (first_of fp {} rows)"
    using assms(2) by (auto simp: analytics_events_def bind_simps analytics_loop_eq)
  have fp: "fp (analytics_event fp d row) = fp row" for row by (simp add: assms(1))
  have event: "analytics_event fp d row = (case hot_id fp hot_rows (fp row) of None \<Rightarrow> row
       | Some i \<Rightarrow> if i = 0 then row else dict_set row ''pg_event_id'' (PInt i))" for row
    unfolding analytics_event_def hot_ids_get[OF d] by (simp split: option.split)
  have props: "distinct (map fp (first_of fp {} rows))" "fp ` set (first_of fp {} rows) = fp ` set rows"
      "set (first_of fp {} rows) \<subseteq> set rows"
    using first_of_props[of fp "{}" rows] by auto
  have "map fp es = map fp (first_of fp {} rows)" by (simp add: es fp)
  moreover have "fp ` set es = fp ` set (first_of fp {} rows)" by (simp add: es fp image_image)
  moreover have "\<exists>row \<in> set rows. e = analytics_event fp d row" if "e \<in> set es" for e
    using that props(3) by (auto simp: es)
  ultimately show ?thesis using props by (simp add: event)
qed

theorem analytics_events_one_per_fingerprint_witness:
  "let fp = event_fingerprint (\<lambda>s. Some 0) 0; r = [(''timestamp'', PTime 0)]; hot = [[(''timestamp'', PTime 0), (''pg_event_id'', PInt 7)]];
       es = [[(''timestamp'', PTime 0), (''pg_event_id'', PInt 7)]]
   in distinct (map fp es) \<and> fp ` set es = fp ` set [r, r] \<and>
    (\<forall>e \<in> set es. \<exists>row \<in> set [r, r]. e = (case hot_id fp hot (fp row) of None \<Rightarrow> row
       | Some i \<Rightarrow> if i = 0 then row else dict_set row ''pg_event_id'' (PInt i)))"
  unfolding Let_def
proof (rule analytics_events_one_per_fingerprint[OF refl])
  show "analytics_events (event_fingerprint (\<lambda>s. Some 0) 0) [[(''timestamp'', PTime 0)], [(''timestamp'', PTime 0)]]
      [[(''timestamp'', PTime 0), (''pg_event_id'', PInt 7)]] = Inr [[(''timestamp'', PTime 0), (''pg_event_id'', PInt 7)]]"
    by code_simp
qed

text \<open>C40: the pages of the reconciler's search miss no document of the minute: it finds exactly the ids of the
  documents there, when the \<open>_id\<close> of each reads as its \<open>id\<close>.\<close>

theorem search_pages_complete:
  assumes "\<forall>d \<in> set docs. \<forall>i. eh_id d = Some i \<longrightarrow> py_int (eh_doc_id d) = Some i"
  shows "search_event_ids docs m = {i. \<exists>d \<in> set docs. eh_id d = Some i \<and> in_window (m, m + minute) (eh_time d)}"
proof -
  let ?hits = "search_hits (m, m + minute) docs" and ?key = "\<lambda>d. the (eh_id d)"
  have "search_event_ids docs m = ?key ` set (sort_key ?key ?hits)"
    unfolding search_event_ids_def
    using assms by (intro search_pages_all) (auto simp: search_hits_def)
  also have "\<dots> = ?key ` set ?hits" by simp
  also have "\<dots> = {i. \<exists>d \<in> set docs. eh_id d = Some i \<and> in_window (m, m + minute) (eh_time d)}"
    by (force simp: search_hits_def image_iff)
  finally show ?thesis .
qed

theorem search_pages_complete_witness:
  "search_event_ids [\<lparr>eh_time = 5, eh_id = Some 7, eh_doc_id = ''7''\<rparr>] 0 =
     {i. \<exists>d \<in> set [\<lparr>eh_time = 5, eh_id = Some 7, eh_doc_id = ''7''\<rparr>]. eh_id d = Some i \<and> in_window (0, 0 + minute) (eh_time d)}"
proof (rule search_pages_complete)
  have "py_int ''7'' = Some 7" by code_simp
  then show "\<forall>d \<in> set [\<lparr>eh_time = 5, eh_id = Some 7, eh_doc_id = ''7''\<rparr>]. \<forall>i. eh_id d = Some i \<longrightarrow> py_int (eh_doc_id d) = Some i"
    by simp
qed



end
