(* ===== verification/Spec2Isabelle.thy ===== *)
theory Spec2Isabelle
  imports Seagull_Prelude Kql Py_Runtime Corr_Records Corr_Base Corr_Windows Corr_Engines Corr_Sequence
    Detection_Fields Detection_Condition Detection_Sql Detection_Match Ip_Address Ueba_Findings Tls_Hello Dns_Message Audit_Verify Auth_Properties
    Outbox_Properties Outbox_Producers
begin

text \<open>Root.\<close>

end
